(* ===== verification/Prelude.thy ===== *)
theory Prelude
  imports Main "HOL-Library.Word" "HOL-Library.Monad_Syntax" "HOL-Library.List_Lexorder"
    "HOL-Library.Signed_Division"
begin

unbundle bit_operations_syntax

section \<open>Prelude: Go's data types and the lemmas the components share\<close>

text \<open>
  This theory holds what every component of the library uses: the machine integers of Go, its
  byte slices and strings, the result of a call that may return an error or panic, and generic
  facts on lists, options and words.

  \<^item> \<open>int8\<close> to \<open>int64\<close> (and their unsigned variants) are words; \<open>sint\<close> reads them signed. Go's
    \<open>int\<close> has 64 bits; it is modelled by \<^typ>\<open>int\<close> where the source uses it for lengths and byte
    counts, all of which stay far below \<open>2 ^ 63\<close>, and by \<open>int64\<close> where a value can come near the
    limit (durations, offsets, attempts in a product).
  \<^item> A \<open>string\<close> is its bytes. A \<open>[]byte\<close> is \<^typ>\<open>'a option\<close> of its bytes: \<open>None\<close> is the nil slice,
    which the wire format tells apart from the empty one.
  \<^item> A call returns \<open>Ok\<close> of its value, \<open>Err\<close> of the non-nil error it returned, or \<open>Panic\<close>.
\<close>

type_synonym byte = "8 word"
type_synonym int8 = "8 word"
type_synonym int16 = "16 word"
type_synonym int32 = "32 word"
type_synonym int64 = "64 word"
type_synonym uint32 = "32 word"
type_synonym uint64 = "64 word"
type_synonym gostring = "byte list"
type_synonym bytes = "byte list option"

text \<open>The bytes of a string literal of the source.\<close>

definition lit :: "string \<Rightarrow> gostring" where
  "lit s = map of_char s"

text \<open>\<open>len\<close> and the contents of a byte slice: nil has length 0.\<close>

definition contents :: "bytes \<Rightarrow> byte list" where
  "contents b = (case b of None \<Rightarrow> [] | Some bs \<Rightarrow> bs)"

lemma contents_simps [simp]: "contents None = []" "contents (Some bs) = bs"
  by (simp_all add: contents_def)

text \<open>Decimal digits, as \<open>%v\<close> and \<open>strconv.Itoa\<close> print an integer.\<close>

fun digits :: "nat \<Rightarrow> gostring" where
  "digits n = (if n < 10 then [of_nat (48 + n)] else digits (n div 10) @ [of_nat (48 + n mod 10)])"

declare digits.simps [simp del]

definition itoa :: "int \<Rightarrow> gostring" where
  "itoa i = (if i < 0 then 45 # digits (nat (- i)) else digits (nat i))"

datatype go_panic =
    IndexOutOfRange
  | MakeNegativeLen
  | NilDereference
  | DivideByZero
  | PanicMessage string

datatype ('e, 'a) result = Ok 'a | Err 'e | Panic go_panic

text \<open>
  Collections of rewrite rules: \<open>wire\<close> says what each encoder appends, \<open>frame\<close> the same with the
  encoding left folded, \<open>wire_size\<close> what each size function counts, \<open>parse\<close> what each decoder returns on the bytes of its encoder,
  \<open>account\<close> that a decoder takes no more bytes than it says.
\<close>

named_theorems wire \<open>an encoder appends the encoding to what was written\<close>
named_theorems frame \<open>an encoder appends what it writes to an empty writer\<close>
named_theorems wire_size \<open>a size function counts the bytes of the encoding\<close>
named_theorems parse \<open>a decoder returns what the encoder wrote\<close>
named_theorems account \<open>a decoder accounts for the bytes it takes\<close>

subsection \<open>Lists\<close>

lemma fold_append_map: "fold (\<lambda>x acc. acc @ f x) xs w = w @ concat (map f xs)"
  by (induction xs arbitrary: w) auto

lemma length_concat_map: "length (concat (map f xs)) = (\<Sum>x\<leftarrow>xs. length (f x))"
  by (simp add: length_concat comp_def)

lemma take_append_exact [simp]: "n = length xs \<Longrightarrow> take n (xs @ ys) = xs"
  by simp

lemma drop_append_exact [simp]: "n = length xs \<Longrightarrow> drop n (xs @ ys) = ys"
  by simp

subsection \<open>Words\<close>

lemma of_nat_sum_list: "of_nat (\<Sum>x\<leftarrow>xs. f x) = (\<Sum>x\<leftarrow>xs. of_nat (f x) :: 'a::semiring_1)"
  by (induction xs) simp_all

lemma sint_of_nat_small:
  assumes "n < 2 ^ (LENGTH('a::len) - 1)"
  shows "sint (of_nat n :: 'a word) = int n"
proof -
  have lt: "int n < 2 ^ (LENGTH('a) - 1)"
    using assms by (metis of_nat_less_iff of_nat_numeral of_nat_power)
  have "- (2 ^ (LENGTH('a) - 1)) \<le> (0::int)"
    by simp
  then have "- (2 ^ (LENGTH('a) - 1)) \<le> int n"
    by linarith
  then have "signed_take_bit (LENGTH('a) - Suc 0) (int n) = int n"
    using lt by (simp add: signed_take_bit_int_eq_self_iff)
  then show ?thesis
    by (simp add: signed_of_nat)
qed

lemma unat_of_nat_32: "n < 2 ^ 32 \<Longrightarrow> unat (of_nat n :: 32 word) = n"
  by (simp add: unsigned_of_nat take_bit_nat_eq_self)

lemma ucast_word_of_int_down:
  "LENGTH('b::len) \<le> LENGTH('a::len) \<Longrightarrow> ucast (word_of_int k :: 'a word) = (word_of_int k :: 'b word)"
  by (rule bit_word_eqI) (auto simp: bit_simps)

lemma sint_minus_one [simp]: "sint (- 1 :: 'a::len word) = - 1"
  by (rule sint_n1)

end
