(* ===== verification/Errors.thy ===== *)
theory Errors
  imports Prelude
begin

section \<open>Errors (error.go)\<close>

text \<open>
  The error values of the program. \<open>KafkaError c\<close> is the source's \<open>Error(c)\<close>, a code sent by a
  broker; the other constructors are the package-level error variables of the source, of \<open>io\<close>,
  \<open>bufio\<close> and \<open>context\<close>, the errors of the network (\<open>NetError timeout temporary\<close>), the errors of
  third-party code (\<open>LibError\<close>, numbered), and the values built by \<open>fmt.Errorf\<close> or \<open>errors.New\<close>
  inside a function (\<open>Errorf\<close> with the format string; its arguments only serve display).
\<close>

datatype go_error =
    KafkaError int
  | EOF
  | ErrUnexpectedEOF
  | ErrShortBuffer
  | ErrClosedPipe
  | ErrNegativeCount
  | ErrBufferFull
  | ErrShortRead
  | ErrUnknownCodec
  | ErrInvalidWriteTopic
  | ErrInvalidWritePartition
  | ErrOnlyAvailableWithGroup
  | ErrNotAvailableWithGroup
  | ContextCanceled
  | ContextDeadlineExceeded
  | NetError bool bool
  | LibError nat
  | Errorf string

text \<open>The codes the functions of the program mention by name, and the whole table of them.\<close>

abbreviation (input) Unknown :: int where "Unknown \<equiv> -1"
abbreviation (input) OffsetOutOfRange :: int where "OffsetOutOfRange \<equiv> 1"
abbreviation (input) InvalidMessage :: int where "InvalidMessage \<equiv> 2"
abbreviation (input) UnknownTopicOrPartition :: int where "UnknownTopicOrPartition \<equiv> 3"
abbreviation (input) LeaderNotAvailable :: int where "LeaderNotAvailable \<equiv> 5"
abbreviation (input) NotLeaderForPartition :: int where "NotLeaderForPartition \<equiv> 6"
abbreviation (input) RequestTimedOut :: int where "RequestTimedOut \<equiv> 7"
abbreviation (input) NetworkException :: int where "NetworkException \<equiv> 13"
abbreviation (input) GroupLoadInProgress :: int where "GroupLoadInProgress \<equiv> 14"
abbreviation (input) GroupCoordinatorNotAvailable :: int where "GroupCoordinatorNotAvailable \<equiv> 15"
abbreviation (input) NotEnoughReplicas :: int where "NotEnoughReplicas \<equiv> 19"
abbreviation (input) NotEnoughReplicasAfterAppend :: int where "NotEnoughReplicasAfterAppend \<equiv> 20"
abbreviation (input) InvalidRequiredAcks :: int where "InvalidRequiredAcks \<equiv> 21"
abbreviation (input) UnknownMemberId :: int where "UnknownMemberId \<equiv> 25"
abbreviation (input) RebalanceInProgress :: int where "RebalanceInProgress \<equiv> 27"
abbreviation (input) UnsupportedSASLMechanism :: int where "UnsupportedSASLMechanism \<equiv> 33"
abbreviation (input) TopicAlreadyExists :: int where "TopicAlreadyExists \<equiv> 36"
abbreviation (input) DuplicateSequenceNumber :: int where "DuplicateSequenceNumber \<equiv> 46"
abbreviation (input) KafkaStorageError :: int where "KafkaStorageError \<equiv> 56"
abbreviation (input) SASLAuthenticationFailed :: int where "SASLAuthenticationFailed \<equiv> 58"
abbreviation (input) FetchSessionIDNotFound :: int where "FetchSessionIDNotFound \<equiv> 70"
abbreviation (input) InvalidFetchSessionEpoch :: int where "InvalidFetchSessionEpoch \<equiv> 71"
abbreviation (input) ListenerNotFound :: int where "ListenerNotFound \<equiv> 72"
abbreviation (input) FencedLeaderEpoch :: int where "FencedLeaderEpoch \<equiv> 74"
abbreviation (input) UnknownLeaderEpoch :: int where "UnknownLeaderEpoch \<equiv> 75"
abbreviation (input) OffsetNotAvailable :: int where "OffsetNotAvailable \<equiv> 78"
abbreviation (input) PreferredLeaderNotAvailable :: int where "PreferredLeaderNotAvailable \<equiv> 80"

definition errorCodes :: "(string \<times> int) list" where
  "errorCodes = [
    (''Unknown'', -1),
    (''OffsetOutOfRange'', 1),
    (''InvalidMessage'', 2),
    (''UnknownTopicOrPartition'', 3),
    (''InvalidMessageSize'', 4),
    (''LeaderNotAvailable'', 5),
    (''NotLeaderForPartition'', 6),
    (''RequestTimedOut'', 7),
    (''BrokerNotAvailable'', 8),
    (''ReplicaNotAvailable'', 9),
    (''MessageSizeTooLarge'', 10),
    (''StaleControllerEpoch'', 11),
    (''OffsetMetadataTooLarge'', 12),
    (''NetworkException'', 13),
    (''GroupLoadInProgress'', 14),
    (''GroupCoordinatorNotAvailable'', 15),
    (''NotCoordinatorForGroup'', 16),
    (''InvalidTopic'', 17),
    (''RecordListTooLarge'', 18),
    (''NotEnoughReplicas'', 19),
    (''NotEnoughReplicasAfterAppend'', 20),
    (''InvalidRequiredAcks'', 21),
    (''IllegalGeneration'', 22),
    (''InconsistentGroupProtocol'', 23),
    (''InvalidGroupId'', 24),
    (''UnknownMemberId'', 25),
    (''InvalidSessionTimeout'', 26),
    (''RebalanceInProgress'', 27),
    (''InvalidCommitOffsetSize'', 28),
    (''TopicAuthorizationFailed'', 29),
    (''GroupAuthorizationFailed'', 30),
    (''ClusterAuthorizationFailed'', 31),
    (''InvalidTimestamp'', 32),
    (''UnsupportedSASLMechanism'', 33),
    (''IllegalSASLState'', 34),
    (''UnsupportedVersion'', 35),
    (''TopicAlreadyExists'', 36),
    (''InvalidPartitionNumber'', 37),
    (''InvalidReplicationFactor'', 38),
    (''InvalidReplicaAssignment'', 39),
    (''InvalidConfiguration'', 40),
    (''NotController'', 41),
    (''InvalidRequest'', 42),
    (''UnsupportedForMessageFormat'', 43),
    (''PolicyViolation'', 44),
    (''OutOfOrderSequenceNumber'', 45),
    (''DuplicateSequenceNumber'', 46),
    (''InvalidProducerEpoch'', 47),
    (''InvalidTransactionState'', 48),
    (''InvalidProducerIDMapping'', 49),
    (''InvalidTransactionTimeout'', 50),
    (''ConcurrentTransactions'', 51),
    (''TransactionCoordinatorFenced'', 52),
    (''TransactionalIDAuthorizationFailed'', 53),
    (''SecurityDisabled'', 54),
    (''BrokerAuthorizationFailed'', 55),
    (''KafkaStorageError'', 56),
    (''LogDirNotFound'', 57),
    (''SASLAuthenticationFailed'', 58),
    (''UnknownProducerId'', 59),
    (''ReassignmentInProgress'', 60),
    (''DelegationTokenAuthDisabled'', 61),
    (''DelegationTokenNotFound'', 62),
    (''DelegationTokenOwnerMismatch'', 63),
    (''DelegationTokenRequestNotAllowed'', 64),
    (''DelegationTokenAuthorizationFailed'', 65),
    (''DelegationTokenExpired'', 66),
    (''InvalidPrincipalType'', 67),
    (''NonEmptyGroup'', 68),
    (''GroupIdNotFound'', 69),
    (''FetchSessionIDNotFound'', 70),
    (''InvalidFetchSessionEpoch'', 71),
    (''ListenerNotFound'', 72),
    (''TopicDeletionDisabled'', 73),
    (''FencedLeaderEpoch'', 74),
    (''UnknownLeaderEpoch'', 75),
    (''UnsupportedCompressionType'', 76),
    (''OffsetNotAvailable'', 78),
    (''PreferredLeaderNotAvailable'', 80)]"

subsection \<open>Methods of Error\<close>

definition Error_Timeout :: "int \<Rightarrow> bool" where
  "Error_Timeout e \<longleftrightarrow> e = RequestTimedOut"

definition Error_Temporary :: "int \<Rightarrow> bool" where
  "Error_Temporary e \<longleftrightarrow>
     e = InvalidMessage \<or>
     e = UnknownTopicOrPartition \<or>
     e = LeaderNotAvailable \<or>
     e = RequestTimedOut \<or>
     e = NetworkException \<or>
     e = GroupLoadInProgress \<or>
     e = GroupCoordinatorNotAvailable \<or>
     e = NotEnoughReplicas \<or>
     e = NotEnoughReplicasAfterAppend \<or>
     e = KafkaStorageError \<or>
     e = FetchSessionIDNotFound \<or>
     e = InvalidFetchSessionEpoch \<or>
     e = ListenerNotFound \<or>
     e = FencedLeaderEpoch \<or>
     e = UnknownLeaderEpoch \<or>
     e = OffsetNotAvailable \<or>
     e = PreferredLeaderNotAvailable \<or>
     Error_Timeout e"

text \<open>
  \<open>Title\<close> and \<open>Description\<close> are switches over the codes, with the empty string where no case
  applies.
\<close>

definition titles :: "(int \<times> string) list" where
  "titles = [
    (-1, ''Unknown''),
    (1, ''Offset Out Of Range''),
    (2, ''Invalid Message''),
    (3, ''Unknown Topic Or Partition''),
    (4, ''Invalid Message Size''),
    (5, ''Leader Not Available''),
    (6, ''Not Leader For Partition''),
    (7, ''Request Timed Out''),
    (8, ''Broker Not Available''),
    (9, ''Replica Not Available''),
    (10, ''Message Size Too Large''),
    (11, ''Stale Controller Epoch''),
    (12, ''Offset Metadata Too Large''),
    (13, ''Network Exception''),
    (14, ''Group Load In Progress''),
    (15, ''Group Coordinator Not Available''),
    (16, ''Not Coordinator For Group''),
    (17, ''Invalid Topic''),
    (18, ''Record List Too Large''),
    (19, ''Not Enough Replicas''),
    (20, ''Not Enough Replicas After Append''),
    (21, ''Invalid Required Acks''),
    (22, ''Illegal Generation''),
    (23, ''Inconsistent Group Protocol''),
    (24, ''Invalid Group ID''),
    (25, ''Unknown Member ID''),
    (26, ''Invalid Session Timeout''),
    (27, ''Rebalance In Progress''),
    (28, ''Invalid Commit Offset Size''),
    (29, ''Topic Authorization Failed''),
    (30, ''Group Authorization Failed''),
    (31, ''Cluster Authorization Failed''),
    (32, ''Invalid Timestamp''),
    (33, ''Unsupported SASL Mechanism''),
    (34, ''Illegal SASL State''),
    (35, ''Unsupported Version''),
    (36, ''Topic Already Exists''),
    (37, ''Invalid Partition Number''),
    (38, ''Invalid Replication Factor''),
    (39, ''Invalid Replica Assignment''),
    (40, ''Invalid Configuration''),
    (41, ''Not Controller''),
    (42, ''Invalid Request''),
    (43, ''Unsupported For Message Format''),
    (44, ''Policy Violation''),
    (45, ''Out Of Order Sequence Number''),
    (46, ''Duplicate Sequence Number''),
    (47, ''Invalid Producer Epoch''),
    (48, ''Invalid Transaction State''),
    (49, ''Invalid Producer ID Mapping''),
    (50, ''Invalid Transaction Timeout''),
    (51, ''Concurrent Transactions''),
    (52, ''Transaction Coordinator Fenced''),
    (53, ''Transactional ID Authorization Failed''),
    (54, ''Security Disabled''),
    (55, ''Broker Authorization Failed''),
    (56, ''Kafka Storage Error''),
    (57, ''Log Dir Not Found''),
    (58, ''SASL Authentication Failed''),
    (59, ''Unknown Producer ID''),
    (60, ''Reassignment In Progress''),
    (61, ''Delegation Token Auth Disabled''),
    (62, ''Delegation Token Not Found''),
    (63, ''Delegation Token Owner Mismatch''),
    (64, ''Delegation Token Request Not Allowed''),
    (65, ''Delegation Token Authorization Failed''),
    (66, ''Delegation Token Expired''),
    (67, ''Invalid Principal Type''),
    (68, ''Non Empty Group''),
    (69, ''Group ID Not Found''),
    (70, ''Fetch Session ID Not Found''),
    (71, ''Invalid Fetch Session Epoch''),
    (72, ''Listener Not Found''),
    (73, ''Topic Deletion Disabled''),
    (74, ''Fenced Leader Epoch''),
    (75, ''Unknown Leader Epoch''),
    (76, ''Unsupported Compression Type''),
    (78, ''Offset Not Available''),
    (80, ''Preferred Leader not available'')]"

definition Title :: "int \<Rightarrow> string" where
  "Title e = (case map_of titles e of Some t \<Rightarrow> t | None \<Rightarrow> [])"

definition descriptions :: "(int \<times> string) list" where
  "descriptions = [
    (-1, ''an unexpected server error occurred''),
    (1, ''the requested offset is outside the range of offsets maintained by the server for the given topic/partition''),
    (2, ''the message contents does not match its CRC''),
    (3, ''the request is for a topic or partition that does not exist on this broker''),
    (4, ''the message has a negative size''),
    (5, ''the cluster is in the middle of a leadership election and there is currently no leader for this partition and hence it is unavailable for writes''),
    (6, ''the client attempted to send messages to a replica that is not the leader for some partition, the client's metadata are likely out of date''),
    (7, ''the request exceeded the user-specified time limit in the request''),
    (8, ''not a client facing error and is used mostly by tools when a broker is not alive''),
    (9, ''a replica is expected on a broker, but is not (this can be safely ignored)''),
    (10, ''the server has a configurable maximum message size to avoid unbounded memory allocation and the client attempted to produce a message larger than this maximum''),
    (11, ''internal error code for broker-to-broker communication''),
    (12, ''the client specified a string larger than configured maximum for offset metadata''),
    (14, ''the broker returns this error code for an offset fetch request if it is still loading offsets (after a leader change for that offsets topic partition), or in response to group membership requests (such as heartbeats) when group metadata is being loaded by the coordinator''),
    (15, ''the broker returns this error code for group coordinator requests, offset commits, and most group management requests if the offsets topic has not yet been created, or if the group coordinator is not active''),
    (16, ''the broker returns this error code if it receives an offset fetch or commit request for a group that it is not a coordinator for''),
    (17, ''a request which attempted to access an invalid topic (e.g. one which has an illegal name), or if an attempt was made to write to an internal topic (such as the consumer offsets topic)''),
    (18, ''a message batch in a produce request exceeds the maximum configured segment size''),
    (19, ''the number of in-sync replicas is lower than the configured minimum and requiredAcks is -1''),
    (20, ''the message was written to the log, but with fewer in-sync replicas than required.''),
    (21, ''the requested requiredAcks is invalid (anything other than -1, 1, or 0)''),
    (22, ''the generation id provided in the request is not the current generation''),
    (23, ''the member provided a protocol type or set of protocols which is not compatible with the current group''),
    (24, ''the group id is empty or null''),
    (25, ''the member id is not in the current generation''),
    (26, ''the requested session timeout is outside of the allowed range on the broker''),
    (27, ''the coordinator has begun rebalancing the group, the client should rejoin the group''),
    (28, ''an offset commit was rejected because of oversize metadata''),
    (29, ''the client is not authorized to access the requested topic''),
    (30, ''the client is not authorized to access a particular group id''),
    (31, ''the client is not authorized to use an inter-broker or administrative API''),
    (32, ''the timestamp of the message is out of acceptable range''),
    (33, ''the broker does not support the requested SASL mechanism''),
    (34, ''the request is not valid given the current SASL state''),
    (35, ''the version of API is not supported''),
    (36, ''a topic with this name already exists''),
    (37, ''the number of partitions is invalid''),
    (38, ''the replication-factor is invalid''),
    (39, ''the replica assignment is invalid''),
    (40, ''the configuration is invalid''),
    (41, ''this is not the correct controller for this cluster''),
    (42, ''this most likely occurs because of a request being malformed by the client library or the message was sent to an incompatible broker, se the broker logs for more details''),
    (43, ''the message format version on the broker does not support the request''),
    (44, ''the request parameters do not satisfy the configured policy''),
    (45, ''the broker received an out of order sequence number''),
    (46, ''the broker received a duplicate sequence number''),
    (47, ''the producer attempted an operation with an old epoch, either there is a newer producer with the same transactional ID, or the producer's transaction has been expired by the broker''),
    (48, ''the producer attempted a transactional operation in an invalid state''),
    (49, ''the producer attempted to use a producer id which is not currently assigned to its transactional ID''),
    (50, ''the transaction timeout is larger than the maximum value allowed by the broker (as configured by max.transaction.timeout.ms)''),
    (51, ''the producer attempted to update a transaction while another concurrent operation on the same transaction was ongoing''),
    (52, ''the transaction coordinator sending a WriteTxnMarker is no longer the current coordinator for a given producer''),
    (53, ''the transactional ID authorization failed''),
    (54, ''the security features are disabled''),
    (55, ''the broker authorization failed''),
    (56, ''disk error when trying to access log file on the disk''),
    (57, ''the user-specified log directory is not found in the broker config''),
    (58, ''SASL Authentication failed''),
    (59, ''the broker could not locate the producer metadata associated with the producer ID''),
    (60, ''a partition reassignment is in progress''),
    (61, ''delegation token feature is not enabled''),
    (62, ''delegation token is not found on server''),
    (63, ''specified principal is not valid owner/renewer''),
    (64, ''delegation token requests are not allowed on plaintext/1-way ssl channels and on delegation token authenticated channels''),
    (65, ''delegation token authorization failed''),
    (66, ''delegation token is expired''),
    (67, ''supplied principaltype is not supported''),
    (68, ''the group is not empty''),
    (69, ''the group ID does not exist''),
    (70, ''the fetch session ID was not found''),
    (71, ''the fetch session epoch is invalid''),
    (72, ''there is no listener on the leader broker that matches the listener on which metadata request was processed''),
    (73, ''topic deletion is disabled''),
    (74, ''the leader epoch in the request is older than the epoch on the broker''),
    (75, ''the leader epoch in the request is newer than the epoch on the broker''),
    (76, ''the requesting client does not support the compression type of given partition'')]"

definition Description :: "int \<Rightarrow> string" where
  "Description e = (case map_of descriptions e of Some t \<Rightarrow> t | None \<Rightarrow> [])"

subsection \<open>Classification of error values\<close>

text \<open>
  \<open>isTimeout\<close> and \<open>isTemporary\<close> ask whether the value has a \<open>Timeout\<close> or \<open>Temporary\<close> method. The
  kafka \<open>Error\<close> type has both, so do \<open>net.Error\<close> values and \<open>context.DeadlineExceeded\<close> (both true).
\<close>

fun isTimeout :: "go_error \<Rightarrow> bool" where
  "isTimeout (KafkaError e) = Error_Timeout e"
| "isTimeout (NetError timeout temporary) = timeout"
| "isTimeout ContextDeadlineExceeded = True"
| "isTimeout _ = False"

fun isTemporary :: "go_error \<Rightarrow> bool" where
  "isTemporary (KafkaError e) = Error_Temporary e"
| "isTemporary (NetError timeout temporary) = temporary"
| "isTemporary ContextDeadlineExceeded = True"
| "isTemporary _ = False"

text \<open>
  The type assertion \<open>err.(net.Error)\<close> succeeds exactly for the values with the methods \<open>Error\<close>,
  \<open>Timeout\<close> and \<open>Temporary\<close>.
\<close>

fun implements_net_Error :: "go_error \<Rightarrow> bool" where
  "implements_net_Error (KafkaError e) = True"
| "implements_net_Error (NetError timeout temporary) = True"
| "implements_net_Error ContextDeadlineExceeded = True"
| "implements_net_Error _ = False"

text \<open>The type assertion \<open>err.(Error)\<close>.\<close>

fun is_KafkaError :: "go_error \<Rightarrow> bool" where
  "is_KafkaError (KafkaError e) = True"
| "is_KafkaError _ = False"

subsection \<open>Combining errors\<close>

text \<open>A Go error variable is \<open>None\<close> when it is nil.\<close>

definition silentEOF :: "go_error option \<Rightarrow> go_error option" where
  "silentEOF err = (if err = Some EOF then None else err)"

definition dontExpectEOF :: "go_error option \<Rightarrow> go_error option" where
  "dontExpectEOF err = (if err = Some EOF then Some ErrUnexpectedEOF else err)"

fun coalesceErrors :: "go_error option list \<Rightarrow> go_error option" where
  "coalesceErrors [] = None"
| "coalesceErrors (err # errs) = (if err \<noteq> None then err else coalesceErrors errs)"

subsection \<open>Facts\<close>

lemma timeout_is_temporary: "Error_Timeout e \<Longrightarrow> Error_Temporary e"
  by (simp add: Error_Temporary_def)

lemma coalesceErrors_None: "coalesceErrors errs = None \<longleftrightarrow> (\<forall>e\<in>set errs. e = None)"
  by (induction errs) auto

lemma coalesceErrors_first:
  "coalesceErrors (replicate n None @ Some e # errs) = Some e"
  by (induction n) auto

lemma dontExpectEOF_not_EOF: "dontExpectEOF err \<noteq> Some EOF"
  by (simp add: dontExpectEOF_def)

lemma dontExpectEOF_None [simp]: "dontExpectEOF None = None" "dontExpectEOF err = None \<longleftrightarrow> err = None"
  by (auto simp: dontExpectEOF_def)

lemma silentEOF_None [simp]: "silentEOF None = None"
  by (simp add: silentEOF_def)

end
