(* ===== verification/Bufio.thy ===== *)
theory Bufio
  imports Errors
begin

section \<open>Buffered readers and writers\<close>

text \<open>
  The operations of \<open>bufio\<close>, \<open>io\<close> and \<open>encoding/binary\<close> that the program uses.

  A \<open>bufio.Reader\<close> is the sequence of bytes its underlying stream still delivers (buffered or not)
  and the error the stream returns once they are used up. Every reader of the program is made by
  \<open>bufio.NewReader\<close>, whose buffer has 4096 bytes: \<open>Peek\<close> of more than that fails with \<open>ErrBufferFull\<close>
  however much data there is. A \<open>bufio.Writer\<close> is the sequence of bytes written to it; its error is
  sticky and only seen by \<open>Flush\<close>, which belongs to the connection.
\<close>

record bufio_reader =
  rd_bytes :: "byte list"
  rd_err :: go_error

definition bufSize :: int where
  "bufSize = 4096"

definition Peek :: "bufio_reader \<Rightarrow> int \<Rightarrow> byte list \<times> go_error option" where
  "Peek r n =
     (if n < 0 then ([], Some ErrNegativeCount)
      else if n > bufSize then (take (nat bufSize) (rd_bytes r), Some ErrBufferFull)
      else if n > int (length (rd_bytes r)) then (rd_bytes r, Some (rd_err r))
      else (take (nat n) (rd_bytes r), None))"

definition Discard :: "bufio_reader \<Rightarrow> int \<Rightarrow> int \<times> go_error option \<times> bufio_reader" where
  "Discard r n =
     (if n < 0 then (0, Some ErrNegativeCount, r)
      else if n > int (length (rd_bytes r)) then
        (int (length (rd_bytes r)), Some (rd_err r), r\<lparr>rd_bytes := []\<rparr>)
      else (n, None, r\<lparr>rd_bytes := drop (nat n) (rd_bytes r)\<rparr>))"

text \<open>
  \<open>io.ReadFull\<close> into a slice of \<open>n\<close> bytes: the bytes it stored, the error and the reader. A stream
  that ends in the middle gives \<open>ErrUnexpectedEOF\<close> where its own error is \<open>EOF\<close>.
\<close>

definition ReadFull :: "bufio_reader \<Rightarrow> nat \<Rightarrow> byte list \<times> go_error option \<times> bufio_reader" where
  "ReadFull r n =
     (if n \<le> length (rd_bytes r) then
        (take n (rd_bytes r), None, r\<lparr>rd_bytes := drop n (rd_bytes r)\<rparr>)
      else (rd_bytes r,
            Some (if rd_bytes r \<noteq> [] \<and> rd_err r = EOF then ErrUnexpectedEOF else rd_err r),
            r\<lparr>rd_bytes := []\<rparr>))"

text \<open>\<open>bufio.NewReader(bytes.NewReader(b))\<close>: a reader over the bytes of a slice.\<close>

definition NewReader_bytes :: "byte list \<Rightarrow> bufio_reader" where
  "NewReader_bytes b = \<lparr>rd_bytes = b, rd_err = EOF\<rparr>"

lemma NewReader_bytes_simps [simp]:
  "rd_bytes (NewReader_bytes b) = b" "rd_err (NewReader_bytes b) = EOF"
  by (simp_all add: NewReader_bytes_def)

type_synonym bufio_writer = "byte list"

definition WriteByte :: "bufio_writer \<Rightarrow> byte \<Rightarrow> bufio_writer" where
  "WriteByte w b = w @ [b]"

definition Write :: "bufio_writer \<Rightarrow> byte list \<Rightarrow> bufio_writer" where
  "Write w b = w @ b"

subsection \<open>Big endian\<close>

definition PutUint16 :: "16 word \<Rightarrow> byte list" where
  "PutUint16 v = [ucast (drop_bit 8 v), ucast v]"

definition PutUint32 :: "32 word \<Rightarrow> byte list" where
  "PutUint32 v = [ucast (drop_bit 24 v), ucast (drop_bit 16 v), ucast (drop_bit 8 v), ucast v]"

definition PutUint64 :: "64 word \<Rightarrow> byte list" where
  "PutUint64 v =
     [ucast (drop_bit 56 v), ucast (drop_bit 48 v), ucast (drop_bit 40 v), ucast (drop_bit 32 v),
      ucast (drop_bit 24 v), ucast (drop_bit 16 v), ucast (drop_bit 8 v), ucast v]"

text \<open>Reading panics when the slice is too short.\<close>

fun Uint16 :: "byte list \<Rightarrow> ('e, 16 word) result" where
  "Uint16 (b0 # b1 # _) = Ok (ucast b1 OR push_bit 8 (ucast b0))"
| "Uint16 _ = Panic IndexOutOfRange"

fun Uint32 :: "byte list \<Rightarrow> ('e, 32 word) result" where
  "Uint32 (b0 # b1 # b2 # b3 # _) =
     Ok (ucast b3 OR push_bit 8 (ucast b2) OR push_bit 16 (ucast b1) OR push_bit 24 (ucast b0))"
| "Uint32 _ = Panic IndexOutOfRange"

fun Uint64 :: "byte list \<Rightarrow> ('e, 64 word) result" where
  "Uint64 (b0 # b1 # b2 # b3 # b4 # b5 # b6 # b7 # _) =
     Ok (ucast b7 OR push_bit 8 (ucast b6) OR push_bit 16 (ucast b5) OR push_bit 24 (ucast b4) OR
         push_bit 32 (ucast b3) OR push_bit 40 (ucast b2) OR push_bit 48 (ucast b1) OR
         push_bit 56 (ucast b0))"
| "Uint64 _ = Panic IndexOutOfRange"

lemma length_PutUint [simp]:
  "length (PutUint16 v) = 2" "length (PutUint32 u) = 4" "length (PutUint64 x) = 8"
  by (simp_all add: PutUint16_def PutUint32_def PutUint64_def)

text \<open>Each byte, put back in its place, is the word masked to that place.\<close>

lemma byte_piece:
  "push_bit k (ucast (ucast (drop_bit k (v :: 'a::len word)) :: byte)) = v AND push_bit k (mask 8)"
  by (rule bit_word_eqI) (auto simp: bit_simps)

lemmas byte_pieces =
  byte_piece [of 0] byte_piece [of 8] byte_piece [of 16] byte_piece [of 24]
  byte_piece [of 32] byte_piece [of 40] byte_piece [of 48] byte_piece [of 56]

lemma and_all_ones:
  "(x :: 16 word) AND 65535 = x" "(y :: 32 word) AND 4294967295 = y"
  "(z :: 64 word) AND 18446744073709551615 = z"
proof -
  have ones: "(65535 :: 16 word) = - 1" "(4294967295 :: 32 word) = - 1"
    "(18446744073709551615 :: 64 word) = - 1"
    by simp_all
  show "x AND 65535 = x" "y AND 4294967295 = y" "z AND 18446744073709551615 = z"
    by (simp_all only: ones and.right_neutral)
qed

lemma Uint16_PutUint16 [simp]: "Uint16 (PutUint16 v @ rest) = Ok v"
  using byte_pieces [of v]
  by (simp add: PutUint16_def bit.conj_disj_distrib [symmetric] mask_eq_exp_minus_1 and_all_ones)

lemma Uint32_PutUint32 [simp]: "Uint32 (PutUint32 v @ rest) = Ok v"
  using byte_pieces [of v]
  by (simp add: PutUint32_def bit.conj_disj_distrib [symmetric] mask_eq_exp_minus_1 and_all_ones)

lemma Uint64_PutUint64 [simp]: "Uint64 (PutUint64 v @ rest) = Ok v"
  using byte_pieces [of v]
  by (simp add: PutUint64_def bit.conj_disj_distrib [symmetric] mask_eq_exp_minus_1 and_all_ones)

end
