(* ===== verification/GoTime.thy ===== *)
theory GoTime
  imports Prelude
begin

section \<open>Times, durations and backoff (time.go, dialer.go)\<close>

text \<open>
  A \<open>time.Time\<close> is the number of nanoseconds since the Unix epoch, an integer; the zero value of the
  type is the first instant of year 1. A \<open>time.Duration\<close> is an \<open>int64\<close> of nanoseconds. The operations
  of the package \<open>time\<close> that the program uses come first: \<open>Sub\<close> saturates, \<open>UnixNano\<close> wraps, and the
  integer division of Go truncates towards zero.
\<close>

type_synonym gotime = int
type_synonym duration = int64

definition zeroTime :: gotime where
  "zeroTime = - 62135596800 * 10 ^ 9"

definition IsZero :: "gotime \<Rightarrow> bool" where
  "IsZero t \<longleftrightarrow> t = zeroTime"

definition UnixNano :: "gotime \<Rightarrow> int64" where
  "UnixNano t = word_of_int t"

definition Unix :: "int64 \<Rightarrow> int64 \<Rightarrow> gotime" where
  "Unix sec nsec = sint sec * 10 ^ 9 + sint nsec"

definition Sub :: "gotime \<Rightarrow> gotime \<Rightarrow> duration" where
  "Sub t u =
     (let d = t - u in
      if d > 2 ^ 63 - 1 then word_of_int (2 ^ 63 - 1)
      else if d < - (2 ^ 63) then word_of_int (- (2 ^ 63))
      else word_of_int d)"

definition Add :: "gotime \<Rightarrow> duration \<Rightarrow> gotime" where
  "Add t d = t + sint d"

definition go_div :: "'a::len word \<Rightarrow> 'a word \<Rightarrow> 'a word" where
  "go_div a b = word_of_int (sint a sdiv sint b)"

definition go_mod :: "'a::len word \<Rightarrow> 'a word \<Rightarrow> 'a word" where
  "go_mod a b = word_of_int (sint a smod sint b)"

abbreviation (input) Millisecond :: duration where "Millisecond \<equiv> 1000000"
abbreviation (input) Second :: duration where "Second \<equiv> 1000000000"

subsection \<open>Conversions\<close>

definition maxTimeout :: duration where
  "maxTimeout = word_of_int (2 ^ 31 - 1) * Millisecond"

definition minTimeout :: duration where
  "minTimeout = word_of_int (- (2 ^ 31)) * Millisecond"

definition defaultRTT :: duration where
  "defaultRTT = 1 * Second"

definition timestamp :: "gotime \<Rightarrow> int64" where
  "timestamp t = (if IsZero t then 0 else go_div (UnixNano t) Millisecond)"

definition timestampToTime :: "int64 \<Rightarrow> gotime" where
  "timestampToTime t = Unix (go_div t 1000) (go_mod t 1000 * Millisecond)"

definition duration_of_ms :: "int32 \<Rightarrow> duration" where
  "duration_of_ms ms = scast ms * Millisecond"

definition milliseconds :: "duration \<Rightarrow> int32" where
  "milliseconds d =
     (let d = (if sint d > sint maxTimeout then maxTimeout
               else if sint d < sint minTimeout then minTimeout
               else d)
      in ucast (go_div d Millisecond))"

definition deadlineToTimeout :: "gotime \<Rightarrow> gotime \<Rightarrow> duration" where
  "deadlineToTimeout deadline now = (if IsZero deadline then maxTimeout else Sub deadline now)"

definition adjustDeadlineForRTT :: "gotime \<Rightarrow> gotime \<Rightarrow> duration \<Rightarrow> gotime" where
  "adjustDeadlineForRTT deadline now rtt =
     (if \<not> IsZero deadline then
        let timeout = Sub deadline now;
            rtt = (if sint timeout < sint rtt then go_div timeout 4 else rtt)
        in Add deadline (- rtt)
      else deadline)"

definition backoff :: "int64 \<Rightarrow> duration \<Rightarrow> duration \<Rightarrow> duration" where
  "backoff attempt mn mx =
     (let d = attempt * attempt * mn in if sint d > sint mx then mx else d)"

subsection \<open>Signed arithmetic\<close>

lemma sint_word_of_int_64:
  assumes "- (2 ^ 63) \<le> k" "k < 2 ^ 63"
  shows "sint (word_of_int k :: 64 word) = k"
proof -
  have "signed_take_bit 63 k = k"
    using assms by (simp add: signed_take_bit_int_eq_self_iff)
  then show ?thesis
    by (simp add: signed_of_int)
qed

lemma sint_word_of_int_32:
  assumes "- (2 ^ 31) \<le> k" "k < 2 ^ 31"
  shows "sint (word_of_int k :: 32 word) = k"
proof -
  have "signed_take_bit 31 k = k"
    using assms by (simp add: signed_take_bit_int_eq_self_iff)
  then show ?thesis
    by (simp add: signed_of_int)
qed

lemma sint_range_64: "- (2 ^ 63) \<le> sint (w :: 64 word)" "sint (w :: 64 word) < 2 ^ 63"
  using sint_ge [of w] sint_lt [of w] by simp_all

lemma div_le_self_int: "0 \<le> (a::int) \<Longrightarrow> 0 < b \<Longrightarrow> a div b \<le> a"
  using zdiv_mono2 [of a 1 b] by simp

lemma sdiv_pos: "0 < b \<Longrightarrow> (a::int) sdiv b = (if 0 \<le> a then a div b else - (- a div b))"
  by (simp add: signed_divide_int_def sgn_if)

lemma smod_pos: "0 < b \<Longrightarrow> (a::int) smod b = (if 0 \<le> a then a mod b else - (- a mod b))"
  by (cases "a = 0") (simp_all add: signed_modulo_int_def sgn_if)

lemma sdiv_bounds:
  assumes "0 < (b::int)"
  shows "- \<bar>a\<bar> \<le> a sdiv b" "0 \<le> a \<Longrightarrow> 0 \<le> a sdiv b" "0 \<le> a \<Longrightarrow> a sdiv b \<le> a"
    "a < 0 \<Longrightarrow> a sdiv b \<le> 0"
  using assms div_le_self_int [of a b] div_le_self_int [of "- a" b]
    pos_imp_zdiv_nonneg_iff [of b a] pos_imp_zdiv_nonneg_iff [of b "- a"]
  by (auto simp: sdiv_pos)

lemma sint_go_div:
  assumes "0 < sint b"
  shows "sint (go_div a b :: 64 word) = sint a sdiv sint b"
  unfolding go_div_def
proof (rule sint_word_of_int_64)
  show "- (2 ^ 63) \<le> sint a sdiv sint b"
    using sdiv_bounds(1) [OF assms, of "sint a"] sdiv_bounds(2) [OF assms, of "sint a"]
      sint_range_64 [of a] by linarith
  show "sint a sdiv sint b < 2 ^ 63"
    using sdiv_bounds(3,4) [OF assms, of "sint a"] sint_range_64 [of a] by linarith
qed

subsection \<open>Properties\<close>

lemma sint_Timeouts: "sint maxTimeout = 2147483647000000" "sint minTimeout = - 2147483648000000"
  by (simp_all add: maxTimeout_def minTimeout_def)

lemma milliseconds_eq:
  "sint (milliseconds d) = max (- (2 ^ 31)) (min (2 ^ 31 - 1) (sint d sdiv 1000000))"
proof -
  define e where "e = (if sint d > sint maxTimeout then maxTimeout
      else if sint d < sint minTimeout then minTimeout else d)"
  have e: "sint e = max (- 2147483648000000) (min 2147483647000000 (sint d))"
    by (simp add: e_def sint_Timeouts)
  have "go_div e Millisecond = word_of_int (sint e sdiv 1000000)"
    by (simp add: go_div_def)
  then have "milliseconds d = word_of_int (sint e sdiv 1000000)"
    by (simp add: milliseconds_def e_def [symmetric] Let_def ucast_word_of_int_down)
  moreover have "- (2 ^ 31) \<le> sint e sdiv 1000000" "sint e sdiv 1000000 < 2 ^ 31"
    by (auto simp: e sdiv_pos)
  ultimately have "sint (milliseconds d) = sint e sdiv 1000000"
    by (simp add: sint_word_of_int_32)
  also have "\<dots> = max (- (2 ^ 31)) (min (2 ^ 31 - 1) (sint d sdiv 1000000))"
    by (auto simp: e sdiv_pos max_def min_def)
  finally show ?thesis .
qed

lemma adjustDeadlineForRTT_between:
  assumes "\<not> IsZero deadline" "now \<le> deadline" "deadline - now < 2 ^ 63" "0 \<le> sint rtt"
  shows "now \<le> adjustDeadlineForRTT deadline now rtt"
    and "adjustDeadlineForRTT deadline now rtt \<le> deadline"
proof -
  have timeout: "sint (Sub deadline now) = deadline - now"
    using assms by (simp add: Sub_def sint_word_of_int_64 del: of_int_diff)
  define r where "r = (if sint (Sub deadline now) < sint rtt then go_div (Sub deadline now) 4 else rtt)"
  have quarter: "sint (go_div (Sub deadline now) 4) = (deadline - now) div 4"
    using assms by (simp add: sint_go_div timeout sdiv_pos)
  have r: "0 \<le> sint r" "sint r \<le> deadline - now"
    using assms timeout quarter by (auto simp: r_def)
  have "sint (- r) = - sint r"
    using r(1) sint_range_64 [of r] sint_word_of_int_64 [of "- sint r"] by simp
  then have "adjustDeadlineForRTT deadline now rtt = deadline - sint r"
    using assms(1) by (simp add: adjustDeadlineForRTT_def r_def Add_def Let_def)
  then show "now \<le> adjustDeadlineForRTT deadline now rtt"
    and "adjustDeadlineForRTT deadline now rtt \<le> deadline"
    using r by simp_all
qed

lemma timestampToTime_eq:
  assumes "\<bar>sint ms\<bar> \<le> 9223372036854"
  shows "timestampToTime ms = sint ms * 1000000"
proof -
  have q: "sint (go_div ms 1000) = sint ms sdiv 1000"
    by (simp add: sint_go_div)
  have m: "sint (go_mod ms 1000 * Millisecond) = (sint ms smod 1000) * 1000000"
  proof -
    have b: "\<bar>sint ms smod 1000\<bar> < 1000"
      using pos_mod_bound [of 1000 "sint ms"] pos_mod_sign [of 1000 "sint ms"]
        pos_mod_bound [of 1000 "- sint ms"] pos_mod_sign [of 1000 "- sint ms"]
      by (simp add: smod_pos)
    have "go_mod ms 1000 * Millisecond = word_of_int ((sint ms smod 1000) * 1000000)"
      by (simp add: go_mod_def)
    moreover have "sint (word_of_int ((sint ms smod 1000) * 1000000) :: 64 word) = (sint ms smod 1000) * 1000000"
      using b by (intro sint_word_of_int_64) auto
    ultimately show ?thesis
      by simp
  qed
  have "(sint ms sdiv 1000) * 1000 + sint ms smod 1000 = sint ms"
    by (rule sdiv_mult_smod_eq)
  then have "(sint ms sdiv 1000) * 1000000000 + (sint ms smod 1000) * 1000000 = sint ms * 1000000"
    by linarith
  then show ?thesis
    by (simp add: timestampToTime_def Unix_def q m)
qed

lemma timestamp_timestampToTime:
  assumes "\<bar>sint ms\<bar> \<le> 9223372036854"
  shows "timestamp (timestampToTime ms) = ms"
proof -
  have t: "timestampToTime ms = sint ms * 1000000"
    using assms by (rule timestampToTime_eq)
  have nz: "\<not> IsZero (timestampToTime ms)"
    using assms by (auto simp: IsZero_def zeroTime_def t)
  have "sint (UnixNano (sint ms * 1000000)) = sint ms * 1000000"
    unfolding UnixNano_def using assms by (intro sint_word_of_int_64) auto
  moreover have "sint ms * 1000000 sdiv 1000000 = sint ms"
    by (cases "sint ms = 0") (simp_all add: signed_divide_int_def abs_mult sgn_mult abs_sgn mult.commute)
  ultimately have "sint (timestamp (timestampToTime ms)) = sint ms"
    using nz by (simp add: timestamp_def t sint_go_div)
  then show ?thesis
    by (rule signed_word_eqI)
qed

lemma backoff_eq:
  assumes "0 \<le> sint attempt" "0 \<le> sint mn" "sint attempt * sint attempt * sint mn < 2 ^ 63"
  shows "sint (backoff attempt mn mx) = min (sint attempt * sint attempt * sint mn) (sint mx)"
proof -
  have "0 \<le> sint attempt * sint attempt * sint mn"
    using assms by simp
  then have "sint (word_of_int (sint attempt * sint attempt * sint mn) :: 64 word) =
      sint attempt * sint attempt * sint mn"
    using assms by (intro sint_word_of_int_64) linarith+
  then have "sint (attempt * attempt * mn) = sint attempt * sint attempt * sint mn"
    by simp
  then show ?thesis
    by (simp add: backoff_def Let_def)
qed

text \<open>\<open>adjustDeadlineForRTT\<close> never moves a deadline behind the present nor beyond the deadline it was
  given, and keeps the absence of a deadline.\<close>

theorem adjustDeadlineForRTT_bounds:
  assumes "now \<le> deadline" "deadline - now < 2 ^ 63" "0 \<le> sint rtt"
  shows "if IsZero deadline then adjustDeadlineForRTT deadline now rtt = deadline
    else now \<le> adjustDeadlineForRTT deadline now rtt \<and> adjustDeadlineForRTT deadline now rtt \<le> deadline"
  using adjustDeadlineForRTT_between [of deadline now rtt] assms by (simp add: adjustDeadlineForRTT_def)

theorem adjustDeadlineForRTT_bounds_witness:
  "(100 :: gotime) \<le> adjustDeadlineForRTT 200 100 defaultRTT \<and> adjustDeadlineForRTT 200 100 defaultRTT \<le> 200"
  using adjustDeadlineForRTT_bounds [of 100 200 defaultRTT] by (simp add: IsZero_def zeroTime_def defaultRTT_def)

text \<open>The conversion of a duration to the milliseconds of the protocol truncates, and saturates at the
  limits of \<open>int32\<close> instead of wrapping around.\<close>

theorem milliseconds_saturates:
  "sint (milliseconds d) = max (- (2 ^ 31)) (min (2 ^ 31 - 1) (sint d sdiv 1000000))"
  by (rule milliseconds_eq)

end
