(* ===== verification/Wire.thy ===== *)
theory Wire
  imports Bufio GoTime
begin

section \<open>Encoding of the wire format (write.go, sizeof.go, protocol.go)\<close>

text \<open>
  Every encoder takes the writer and returns it with the encoding appended; every size function
  counts in \<open>int32\<close>, so it wraps as the source does. The interface of a request (\<open>size\<close> and
  \<open>writeTo\<close>) is the locale \<open>sized\<close>: its laws say that \<open>writeTo\<close> appends and that \<open>size\<close> is the number
  of bytes appended, modulo \<open>2 ^ 32\<close>. Arrays of such items are treated once, in the locale.
\<close>

subsection \<open>Primitive encoders\<close>

definition writeInt8 :: "bufio_writer \<Rightarrow> int8 \<Rightarrow> bufio_writer" where
  "writeInt8 w i = WriteByte w i"

definition writeInt16 :: "bufio_writer \<Rightarrow> int16 \<Rightarrow> bufio_writer" where
  "writeInt16 w i = fold (\<lambda>b w. WriteByte w b) (PutUint16 i) w"

definition writeInt32 :: "bufio_writer \<Rightarrow> int32 \<Rightarrow> bufio_writer" where
  "writeInt32 w i = fold (\<lambda>b w. WriteByte w b) (PutUint32 i) w"

definition writeInt64 :: "bufio_writer \<Rightarrow> int64 \<Rightarrow> bufio_writer" where
  "writeInt64 w i = fold (\<lambda>b w. WriteByte w b) (PutUint64 i) w"

definition writeString :: "bufio_writer \<Rightarrow> gostring \<Rightarrow> bufio_writer" where
  "writeString w s = (let w = writeInt16 w (of_nat (length s)) in Write w s)"

definition writeBytes :: "bufio_writer \<Rightarrow> bytes \<Rightarrow> bufio_writer" where
  "writeBytes w b =
     (let n = (if b = None then - 1 else int (length (contents b)));
          w = writeInt32 w (word_of_int n)
      in Write w (contents b))"

definition writeBool :: "bufio_writer \<Rightarrow> bool \<Rightarrow> bufio_writer" where
  "writeBool w b = (let v = (if b then 1 else 0) in writeInt8 w v)"

definition writeArrayLen :: "bufio_writer \<Rightarrow> nat \<Rightarrow> bufio_writer" where
  "writeArrayLen w n = writeInt32 w (of_nat n)"

text \<open>\<open>f(i)\<close> writes the \<open>i\<close>th element; the model takes the elements and the encoder of one.\<close>

definition writeArray :: "bufio_writer \<Rightarrow> (bufio_writer \<Rightarrow> 'a \<Rightarrow> bufio_writer) \<Rightarrow> 'a list \<Rightarrow> bufio_writer" where
  "writeArray w f a = fold (\<lambda>x w. f w x) a (writeArrayLen w (length a))"

definition writeStringArray :: "bufio_writer \<Rightarrow> gostring list \<Rightarrow> bufio_writer" where
  "writeStringArray w a = writeArray w writeString a"

definition writeInt32Array :: "bufio_writer \<Rightarrow> int32 list \<Rightarrow> bufio_writer" where
  "writeInt32Array w a = writeArray w writeInt32 a"

subsection \<open>Sizes\<close>

definition sizeofInt8 :: "int8 \<Rightarrow> int32" where "sizeofInt8 i = 1"
definition sizeofInt16 :: "int16 \<Rightarrow> int32" where "sizeofInt16 i = 2"
definition sizeofInt32 :: "int32 \<Rightarrow> int32" where "sizeofInt32 i = 4"
definition sizeofInt64 :: "int64 \<Rightarrow> int32" where "sizeofInt64 i = 8"
definition sizeofBool :: "bool \<Rightarrow> int32" where "sizeofBool b = 1"

definition sizeofString :: "gostring \<Rightarrow> int32" where
  "sizeofString s = 2 + of_nat (length s)"

definition sizeofBytes :: "bytes \<Rightarrow> int32" where
  "sizeofBytes b = 4 + of_nat (length (contents b))"

definition sizeofArray :: "('a \<Rightarrow> int32) \<Rightarrow> 'a list \<Rightarrow> int32" where
  "sizeofArray f a = fold (\<lambda>x s. s + f x) a 4"

definition sizeofInt32Array :: "int32 list \<Rightarrow> int32" where
  "sizeofInt32Array a = 4 + 4 * of_nat (length a)"

definition sizeofStringArray :: "gostring list \<Rightarrow> int32" where
  "sizeofStringArray a = sizeofArray sizeofString a"

subsection \<open>What the primitive encoders append\<close>

lemma fold_WriteByte: "fold (\<lambda>b w. WriteByte w b) bs w = w @ bs"
  by (induction bs arbitrary: w) (simp_all add: WriteByte_def)

lemma write_prims [wire]:
  "writeInt8 w a = w @ [a]"
  "writeInt16 w b = w @ PutUint16 b"
  "writeInt32 w c = w @ PutUint32 c"
  "writeInt64 w d = w @ PutUint64 d"
  "writeString w s = w @ PutUint16 (of_nat (length s)) @ s"
  "writeBool w t = w @ [if t then 1 else 0]"
  "writeArrayLen w n = w @ PutUint32 (of_nat n)"
  by (simp_all add: writeInt16_def writeInt32_def writeInt64_def writeString_def writeArrayLen_def
      Write_def fold_WriteByte writeInt8_def [unfolded WriteByte_def] writeBool_def)

text \<open>The length field of a byte slice: \<open>-1\<close> for nil.\<close>

definition bytesLen :: "bytes \<Rightarrow> int32" where
  "bytesLen b = (case b of None \<Rightarrow> - 1 | Some bs \<Rightarrow> of_nat (length bs))"

lemma writeBytes_append [wire]: "writeBytes w b = w @ PutUint32 (bytesLen b) @ contents b"
  by (cases b) (simp_all add: writeBytes_def bytesLen_def wire Write_def)

lemmas size_prims [wire_size] =
  sizeofInt8_def sizeofInt16_def sizeofInt32_def sizeofInt64_def sizeofBool_def
  sizeofString_def sizeofBytes_def

subsection \<open>The interface of requests and responses\<close>

locale sized =
  fixes sz :: "'a \<Rightarrow> int32"
    and wr :: "bufio_writer \<Rightarrow> 'a \<Rightarrow> bufio_writer"
  assumes writeTo_append: "wr w x = w @ wr [] x"
    and size_length: "sz x = of_nat (length (wr [] x))"
begin

text \<open>The law as a rewrite rule that does not apply to its own right-hand side.\<close>

lemma append: "NO_MATCH [] w \<Longrightarrow> wr w x = w @ wr [] x"
  by (rule writeTo_append)

lemma fold_writeTo: "fold (\<lambda>x w. wr w x) xs w = w @ concat (map (wr []) xs)"
proof (induction xs arbitrary: w)
  case (Cons x xs)
  then show ?case
    using writeTo_append [of w x] by simp
qed simp

lemma array_append:
  "writeArray w wr xs = w @ PutUint32 (of_nat (length xs)) @ concat (map (wr []) xs)"
  by (simp add: writeArray_def fold_writeTo wire)

lemma array_nil: "NO_MATCH [] w \<Longrightarrow> writeArray w wr xs = w @ writeArray [] wr xs"
  by (simp add: array_append)

lemma fold_size: "fold (\<lambda>x s. s + sz x) xs n = n + of_nat (length (concat (map (wr []) xs)))"
  by (induction xs arbitrary: n) (simp_all add: size_length)

lemma array_size: "sizeofArray sz xs = 4 + of_nat (length (concat (map (wr []) xs)))"
  by (simp add: sizeofArray_def fold_size)

end

text \<open>The primitives, in the form \<open>w @ (bytes appended to an empty writer)\<close>.\<close>

lemma frame_prims:
  "NO_MATCH [] w \<Longrightarrow> writeInt8 w a = w @ writeInt8 [] a"
  "NO_MATCH [] w \<Longrightarrow> writeInt16 w b = w @ writeInt16 [] b"
  "NO_MATCH [] w \<Longrightarrow> writeInt32 w c = w @ writeInt32 [] c"
  "NO_MATCH [] w \<Longrightarrow> writeInt64 w d = w @ writeInt64 [] d"
  "NO_MATCH [] w \<Longrightarrow> writeBool w t = w @ writeBool [] t"
  "NO_MATCH [] w \<Longrightarrow> writeString w s = w @ writeString [] s"
  "NO_MATCH [] w \<Longrightarrow> writeBytes w bs = w @ writeBytes [] bs"
  by (simp_all add: wire)

lemmas [frame] = frame_prims

interpretation string_item: sized sizeofString writeString
  by unfold_locales (simp_all add: wire wire_size)

interpretation bytes_item: sized sizeofBytes writeBytes
  by unfold_locales (simp_all add: wire wire_size)

interpretation int32_item: sized sizeofInt32 writeInt32
  by unfold_locales (simp_all add: wire wire_size)

interpretation string_array: sized sizeofStringArray writeStringArray
  by unfold_locales (simp_all add: writeStringArray_def sizeofStringArray_def
      string_item.array_append string_item.array_size)

lemma concat_PutUint32: "length (concat (map PutUint32 xs)) = 4 * length xs"
  by (induction xs) simp_all

lemma writeInt32_nil: "writeInt32 [] = PutUint32"
  by (simp add: fun_eq_iff wire)

lemma writeInt32Array_append [wire]:
  "writeInt32Array w a = w @ PutUint32 (of_nat (length a)) @ concat (map PutUint32 a)"
  by (simp add: writeInt32Array_def int32_item.array_append writeInt32_nil)

interpretation int32_array: sized sizeofInt32Array writeInt32Array
  by unfold_locales (simp_all add: wire sizeofInt32Array_def concat_PutUint32)

lemma writeStringArray_append [wire]:
  "writeStringArray w a = w @ PutUint32 (of_nat (length a)) @ concat (map (writeString []) a)"
  by (simp add: writeStringArray_def string_item.array_append)

lemmas [frame] = string_array.append int32_array.append

lemma sizeofStringArray_eq [wire_size]:
  "sizeofStringArray a = 4 + of_nat (length (concat (map (writeString []) a)))"
  by (simp add: sizeofStringArray_def string_item.array_size)

lemma sizeofInt32Array_eq [wire_size]:
  "sizeofInt32Array a = 4 + of_nat (length (concat (map PutUint32 a)))"
  by (simp add: sizeofInt32Array_def concat_PutUint32)

subsection \<open>Request headers and framing\<close>

record requestHeader =
  Size :: int32
  ApiKey :: int16
  ApiVersion :: int16
  CorrelationID :: int32
  ClientID :: gostring

definition requestHeader_size :: "requestHeader \<Rightarrow> int32" where
  "requestHeader_size h = 4 + 2 + 2 + 4 + sizeofString (ClientID h)"

definition requestHeader_writeTo :: "bufio_writer \<Rightarrow> requestHeader \<Rightarrow> bufio_writer" where
  "requestHeader_writeTo w h =
     (let w = writeInt32 w (Size h);
          w = writeInt16 w (ApiKey h);
          w = writeInt16 w (ApiVersion h);
          w = writeInt32 w (CorrelationID h)
      in writeString w (ClientID h))"

interpretation header_item: sized requestHeader_size requestHeader_writeTo
  by unfold_locales
    (simp_all add: requestHeader_size_def requestHeader_writeTo_def Let_def wire wire_size)

lemmas header_wire [wire] = header_item.append

text \<open>
  \<open>(c *Conn).writeRequest\<close>, up to the final \<open>Flush\<close>: the request is passed as its two methods and its
  value, like the \<open>request\<close> interface value of the source.
\<close>

definition writeRequest ::
  "('a \<Rightarrow> int32) \<Rightarrow> (bufio_writer \<Rightarrow> 'a \<Rightarrow> bufio_writer) \<Rightarrow> bufio_writer \<Rightarrow> gostring \<Rightarrow>
   int16 \<Rightarrow> int16 \<Rightarrow> int32 \<Rightarrow> 'a \<Rightarrow> bufio_writer" where
  "writeRequest sz wr w clientID apiKey apiVersion correlationID req =
     (let hdr = \<lparr>Size = 0, ApiKey = apiKey, ApiVersion = apiVersion,
                 CorrelationID = correlationID, ClientID = clientID\<rparr>;
          hdr = hdr\<lparr>Size := (requestHeader_size hdr + sz req) - 4\<rparr>;
          w = requestHeader_writeTo w hdr
      in wr w req)"

text \<open>
  A message on the wire is framed when its first four bytes are the number of bytes that follow
  them, modulo \<open>2 ^ 32\<close>: the receiver finds the end of the message by them.
\<close>

definition framed :: "byte list \<Rightarrow> bool" where
  "framed bs \<longleftrightarrow> (\<exists>body. bs = PutUint32 (of_nat (length body)) @ body)"

context sized
begin

lemma writeRequest_framed:
  "\<exists>bs. writeRequest sz wr w clientID key ver corr req = w @ bs \<and> framed bs"
proof -
  define body where
    "body = PutUint16 key @ PutUint16 ver @ PutUint32 corr @
      PutUint16 (of_nat (length clientID)) @ clientID @ wr [] req"
  have "writeRequest sz wr w clientID key ver corr req =
      w @ PutUint32 (of_nat (length body)) @ body"
    by (simp add: writeRequest_def Let_def requestHeader_writeTo_def requestHeader_size_def
        wire wire_size append body_def size_length)
  then show ?thesis
    unfolding framed_def by blast
qed

end

end
