(* ===== verification/Decode.thy ===== *)
theory Decode
  imports Wire
begin

section \<open>Decoding of the wire format (read.go, discard.go, protocol.go)\<close>

text \<open>
  The decoders of the source take the buffered reader and the number \<open>sz\<close> of bytes that are left of
  the response, store the value through a pointer and return how many bytes remain and an error.
  Here a decoder is a function of that state, the reader and \<open>sz\<close>, to a result and the new state;
  \<open>rbind\<close> is the source's \<open>if remain, err = f(...); err != nil { return }\<close>. The value a decoder had
  stored before it failed is dropped: every caller of the program does so.
\<close>

type_synonym rstate = "bufio_reader \<times> int"
type_synonym 'a reader = "rstate \<Rightarrow> (go_error, 'a) result \<times> rstate"

definition rret :: "'a \<Rightarrow> 'a reader" where
  "rret x st = (Ok x, st)"

definition rfail :: "go_error \<Rightarrow> 'a reader" where
  "rfail e st = (Err e, st)"

definition rpanic :: "go_panic \<Rightarrow> 'a reader" where
  "rpanic p st = (Panic p, st)"

definition rbind :: "'a reader \<Rightarrow> ('a \<Rightarrow> 'b reader) \<Rightarrow> 'b reader" where
  "rbind m f st =
     (case m st of
        (Ok x, st') \<Rightarrow> f x st'
      | (Err e, st') \<Rightarrow> (Err e, st')
      | (Panic p, st') \<Rightarrow> (Panic p, st'))"

definition remaining :: "int reader" where
  "remaining st = (Ok (snd st), st)"

text \<open>A Go call that returns its own result, seen as a decoder.\<close>

definition rlift :: "(go_error, 'a) result \<Rightarrow> 'a reader" where
  "rlift res st = (res, st)"

subsection \<open>Discarding (discard.go)\<close>

definition discardN :: "int \<Rightarrow> unit reader" where
  "discardN n st =
     (let (r, sz) = st in
      if n \<le> sz then
        (case Discard r n of
           (m, None, r') \<Rightarrow> (Ok (), r', sz - m)
         | (m, Some e, r') \<Rightarrow> (Err e, r', sz - m))
      else
        (case Discard r sz of
           (m, None, r') \<Rightarrow> (Err ErrShortRead, r', sz - m)
         | (m, Some e, r') \<Rightarrow> (Err e, r', sz - m)))"

definition discardInt32 :: "unit reader" where
  "discardInt32 = discardN 4"

subsection \<open>Fixed width integers\<close>

fun makeInt8 :: "byte list \<Rightarrow> (go_error, int8) result" where
  "makeInt8 (b # _) = Ok b"
| "makeInt8 [] = Panic IndexOutOfRange"

definition makeInt16 :: "byte list \<Rightarrow> (go_error, int16) result" where
  "makeInt16 b = Uint16 b"

definition makeInt32 :: "byte list \<Rightarrow> (go_error, int32) result" where
  "makeInt32 b = Uint32 b"

definition makeInt64 :: "byte list \<Rightarrow> (go_error, int64) result" where
  "makeInt64 b = Uint64 b"

definition peekRead :: "int \<Rightarrow> (byte list \<Rightarrow> (go_error, 'a) result) \<Rightarrow> 'a reader" where
  "peekRead n f st =
     (let (r, sz) = st in
      if n > sz then (Err ErrShortRead, st)
      else
        (case Peek r n of
           (b, Some e) \<Rightarrow> (Err e, st)
         | (b, None) \<Rightarrow> rbind (rlift (f b)) (\<lambda>v. rbind (discardN n) (\<lambda>_. rret v)) st))"

definition readInt8 :: "int8 reader" where "readInt8 = peekRead 1 makeInt8"
definition readInt16 :: "int16 reader" where "readInt16 = peekRead 2 makeInt16"
definition readInt32 :: "int32 reader" where "readInt32 = peekRead 4 makeInt32"
definition readInt64 :: "int64 reader" where "readInt64 = peekRead 8 makeInt64"

definition readBool :: "bool reader" where
  "readBool = peekRead 1 (\<lambda>b. case b of [] \<Rightarrow> Panic IndexOutOfRange | x # _ \<Rightarrow> Ok (x \<noteq> 0))"

subsection \<open>Strings, byte slices and arrays\<close>

text \<open>
  \<open>readNewBytes\<close> allocates the slice only for a positive length, so both a nil and an empty slice on
  the wire come back as nil.
\<close>

definition readNewBytes :: "int \<Rightarrow> bytes reader" where
  "readNewBytes n st =
     (let (r, sz) = st in
      if n > 0 then
        let shortRead = sz < n;
            n = (if sz < n then sz else n)
        in if n < 0 then (Panic MakeNegativeLen, st)
           else
             (case ReadFull r (nat n) of
                (b, Some e, r') \<Rightarrow> (Err e, r', sz - int (length b))
              | (b, None, r') \<Rightarrow>
                  (if shortRead then Err ErrShortRead else Ok (Some b), r', sz - int (length b)))
      else (Ok None, st))"

definition readNewString :: "int \<Rightarrow> gostring reader" where
  "readNewString n = rbind (readNewBytes n) (\<lambda>b. rret (contents b))"

definition readStringWith :: "(int \<Rightarrow> 'a reader) \<Rightarrow> 'a reader" where
  "readStringWith cb =
     rbind readInt16 (\<lambda>len. rbind remaining (\<lambda>sz.
       let n = sint len in if n > sz then rfail ErrShortRead else cb n))"

definition readString :: "gostring reader" where
  "readString = readStringWith readNewString"

definition readArrayLen :: "int reader" where
  "readArrayLen = rbind readInt32 (\<lambda>len. rret (sint len))"

definition readBytesWith :: "(int \<Rightarrow> 'a reader) \<Rightarrow> 'a reader" where
  "readBytesWith cb =
     rbind readArrayLen (\<lambda>n. rbind remaining (\<lambda>sz.
       if n > sz then rfail ErrShortRead else cb n))"

definition readBytes :: "bytes reader" where
  "readBytes = readBytesWith readNewBytes"

definition discardString :: "unit reader" where
  "discardString = readStringWith (\<lambda>n. if n < 0 then rret () else discardN n)"

definition discardBytes :: "unit reader" where
  "discardBytes = readBytesWith (\<lambda>n. if n < 0 then rret () else discardN n)"

text \<open>
  \<open>readArrayWith\<close> calls back once per element; every callback of the program decodes one element and
  appends it to a slice, which is the list returned here.
\<close>

fun readTimes :: "nat \<Rightarrow> 'a reader \<Rightarrow> 'a list reader" where
  "readTimes 0 cb = rret []"
| "readTimes (Suc n) cb = rbind cb (\<lambda>x. rbind (readTimes n cb) (\<lambda>xs. rret (x # xs)))"

definition readArrayWith :: "'a reader \<Rightarrow> 'a list reader" where
  "readArrayWith cb = rbind readInt32 (\<lambda>len. readTimes (nat (sint len)) cb)"

definition readStringArray :: "gostring list reader" where
  "readStringArray = readArrayWith readString"

text \<open>
  The reflective \<open>read\<close> of a struct reads its fields in order and of a slice calls \<open>readSlice\<close>, which
  leaves a nil slice for a negative length.
\<close>

definition readSlice :: "'a reader \<Rightarrow> 'a list reader" where
  "readSlice rd =
     rbind readInt32 (\<lambda>len. let n = sint len in
       if n < 0 then rret [] else readTimes (nat n) rd)"

text \<open>
  \<open>readMapStringInt32\<close> fills a Go map; later entries for the same key replace earlier ones. The list
  of entries in the order read is returned, and \<open>mapOf\<close> is the map they make.
\<close>

definition readMapStringInt32 :: "(gostring \<times> int32 list) list reader" where
  "readMapStringInt32 =
     rbind readInt32 (\<lambda>len. readTimes (nat (sint len))
       (rbind readString (\<lambda>key. rbind (readArrayWith readInt32) (\<lambda>values. rret (key, values)))))"

definition mapOf :: "('k \<times> 'v) list \<Rightarrow> 'k \<rightharpoonup> 'v" where
  "mapOf kvs = fold (\<lambda>(k, v) m. m(k \<mapsto> v)) kvs Map.empty"

definition expectZeroSize :: "'a reader \<Rightarrow> 'a reader" where
  "expectZeroSize m st =
     (case m st of
        (Ok x, r, sz) \<Rightarrow>
          (if sz \<noteq> 0 then Err (Errorf ''reading a response left %d unread bytes'') else Ok x, r, sz)
      | other \<Rightarrow> other)"

subsection \<open>What a decoder does with the bytes of an encoder\<close>

text \<open>
  \<open>parses p bs x\<close>: on a stream that starts with \<open>bs\<close>, within a response that has these bytes and \<open>n\<close>
  more, the decoder returns \<open>x\<close>, leaves the rest of the stream and says that \<open>n\<close> bytes remain.
\<close>

definition parses :: "'a reader \<Rightarrow> byte list \<Rightarrow> 'a \<Rightarrow> bool" where
  "parses p bs x \<longleftrightarrow>
     (\<forall>rest e n. 0 \<le> n \<longrightarrow>
        p (\<lparr>rd_bytes = bs @ rest, rd_err = e\<rparr>, int (length bs) + n) =
          (Ok x, \<lparr>rd_bytes = rest, rd_err = e\<rparr>, n))"

lemma parsesD:
  "parses p bs x \<Longrightarrow> 0 \<le> n \<Longrightarrow> m = int (length bs) + n \<Longrightarrow>
     p (\<lparr>rd_bytes = bs @ rest, rd_err = e\<rparr>, m) = (Ok x, \<lparr>rd_bytes = rest, rd_err = e\<rparr>, n)"
  by (simp add: parses_def)

lemma parses_rret [intro, simp]: "parses (rret x) [] x"
  by (simp add: parses_def rret_def)

lemma parses_rbind [intro]:
  assumes "parses p as x" "parses (f x) bs y"
  shows "parses (rbind p f) (as @ bs) y"
  unfolding parses_def
proof (intro allI impI)
  fix rest e and n :: int
  assume n: "0 \<le> n"
  have "p (\<lparr>rd_bytes = as @ bs @ rest, rd_err = e\<rparr>, int (length (as @ bs)) + n) =
      (Ok x, \<lparr>rd_bytes = bs @ rest, rd_err = e\<rparr>, int (length bs) + n)"
    using n by (intro parsesD [OF assms(1)]) simp_all
  then show "rbind p f (\<lparr>rd_bytes = (as @ bs) @ rest, rd_err = e\<rparr>, int (length (as @ bs)) + n) =
      (Ok y, \<lparr>rd_bytes = rest, rd_err = e\<rparr>, n)"
    using parsesD [OF assms(2) n refl] by (simp add: rbind_def)
qed

lemma parses_rbind_ret [intro]: "parses p bs x \<Longrightarrow> y = g x \<Longrightarrow> parses (rbind p (\<lambda>x. rret (g x))) bs y"
  using parses_rbind [of p bs x "\<lambda>x. rret (g x)" "[]" y] by simp

text \<open>A decoder that looks at the number of remaining bytes.\<close>

lemma parses_remaining:
  "(\<And>n. int (length bs) \<le> n \<Longrightarrow> parses (f n) bs x) \<Longrightarrow> parses (rbind remaining f) bs x"
  by (simp add: parses_def rbind_def remaining_def)

lemma parses_discardN:
  "parses (discardN (int (length bs))) bs ()"
  by (simp add: parses_def discardN_def Discard_def)

lemma parses_peekRead:
  "length bs = nat k \<Longrightarrow> 0 \<le> k \<Longrightarrow> k \<le> bufSize \<Longrightarrow> f bs = Ok v \<Longrightarrow> parses (peekRead k f) bs v"
  by (auto simp: parses_def peekRead_def Peek_def rbind_def rlift_def rret_def discardN_def Discard_def)

lemma parse_ints [parse]:
  "parses readInt8 [a] a"
  "parses readInt16 (PutUint16 b) b"
  "parses readInt32 (PutUint32 c) c"
  "parses readInt64 (PutUint64 d) d"
  "parses readBool [if t then 1 else 0] t"
  by (auto simp: readInt8_def readInt16_def readInt32_def readInt64_def readBool_def makeInt16_def
      makeInt32_def makeInt64_def bufSize_def intro!: parses_peekRead
      Uint16_PutUint16 [of _ "[]", simplified] Uint32_PutUint32 [of _ "[]", simplified]
      Uint64_PutUint64 [of _ "[]", simplified])

lemma parses_readNewBytes: "parses (readNewBytes (int (length bs))) bs (if bs = [] then None else Some bs)"
  by (auto simp: parses_def readNewBytes_def ReadFull_def Let_def)

lemma parses_readNewString: "parses (readNewString (int (length bs))) bs bs"
  unfolding readNewString_def by (rule parses_rbind_ret [OF parses_readNewBytes]) simp

lemma parses_readStringWith:
  assumes "length bs < 2 ^ 15" "parses (cb (int (length bs))) bs x"
  shows "parses (readStringWith cb) (PutUint16 (of_nat (length bs)) @ bs) x"
  unfolding readStringWith_def
  by (intro parses_rbind [OF parse_ints(2)] parses_remaining)
    (use assms in \<open>simp add: sint_of_nat_small Let_def\<close>)

lemma parse_readString [parse]:
  "length s < 2 ^ 15 \<Longrightarrow> parses readString (PutUint16 (of_nat (length s)) @ s) s"
  unfolding readString_def by (rule parses_readStringWith) (simp_all add: parses_readNewString)

lemma parse_discardString:
  "length s < 2 ^ 15 \<Longrightarrow> parses discardString (PutUint16 (of_nat (length s)) @ s) ()"
  unfolding discardString_def by (rule parses_readStringWith) (simp_all add: parses_discardN)

text \<open>The slice a decoder makes of an encoded one: empty becomes nil.\<close>

definition nilEmpty :: "bytes \<Rightarrow> bytes" where
  "nilEmpty b = (if contents b = [] then None else b)"

lemma nilEmpty_simps [simp]: "nilEmpty None = None" "nilEmpty (Some []) = None" "nilEmpty (Some (b # bs)) = Some (b # bs)"
  by (simp_all add: nilEmpty_def)

lemma contents_nilEmpty [simp]: "contents (nilEmpty b) = contents b"
  by (simp add: nilEmpty_def)

lemma sint_bytesLen:
  "length (contents b) < 2 ^ 31 \<Longrightarrow> sint (bytesLen b) = (if b = None then - 1 else int (length (contents b)))"
  by (cases b) (simp_all add: bytesLen_def sint_of_nat_small)

lemma parses_readBytesWith:
  assumes "length (contents b) < 2 ^ 31"
    and "parses (cb (if b = None then - 1 else int (length (contents b)))) (contents b) x"
  shows "parses (readBytesWith cb) (PutUint32 (bytesLen b) @ contents b) x"
  unfolding readBytesWith_def readArrayLen_def
  by (intro parses_rbind [OF parses_rbind_ret [OF parse_ints(3) refl]] parses_remaining)
    (use assms in \<open>auto simp: sint_bytesLen split: if_splits\<close>)

lemma parse_readBytes [parse]:
  assumes "length (contents b) < 2 ^ 31"
  shows "parses readBytes (PutUint32 (bytesLen b) @ contents b) (nilEmpty b)"
  unfolding readBytes_def
proof (rule parses_readBytesWith [OF assms])
  show "parses (readNewBytes (if b = None then - 1 else int (length (contents b)))) (contents b) (nilEmpty b)"
  proof (cases b)
    case None
    then show ?thesis by (simp add: parses_def readNewBytes_def)
  next
    case (Some bs)
    then show ?thesis using parses_readNewBytes [of bs] by (simp add: nilEmpty_def)
  qed
qed

lemma parses_readTimes:
  assumes "\<And>x. x \<in> set xs \<Longrightarrow> parses p (enc x) (g x)"
  shows "parses (readTimes (length xs) p) (concat (map enc xs)) (map g xs)"
  using assms
proof (induction xs)
  case (Cons x xs)
  then have "parses (readTimes (length xs) p) (concat (map enc xs)) (map g xs)"
    by simp
  then have "parses (rbind (readTimes (length xs) p) (\<lambda>ys. rret (g x # ys))) (concat (map enc xs)) (map g (x # xs))"
    by (rule parses_rbind_ret) simp
  then show ?case
    using Cons.prems by (auto intro!: parses_rbind [where x = "g x"])
qed simp

lemma parses_readArrayWith:
  assumes "length xs < 2 ^ 31" "\<And>x. x \<in> set xs \<Longrightarrow> parses p (enc x) (g x)"
  shows "parses (readArrayWith p) (PutUint32 (of_nat (length xs)) @ concat (map enc xs)) (map g xs)"
  unfolding readArrayWith_def
  using parses_readTimes [of xs p enc g] assms
  by (intro parses_rbind [OF parse_ints(3)]) (simp add: sint_of_nat_small)

subsection \<open>Decoders account for the bytes they take\<close>

text \<open>
  Whatever the bytes are, a decoder that \<open>accounts\<close> never takes bytes beyond the response, only takes
  bytes from the front of the stream and says exactly how many are left, also when it fails.
\<close>

definition took :: "rstate \<Rightarrow> rstate \<Rightarrow> bool" where
  "took st st' \<longleftrightarrow>
     0 \<le> snd st' \<and> snd st' \<le> snd st \<and>
     rd_bytes (fst st') = drop (nat (snd st - snd st')) (rd_bytes (fst st)) \<and>
     snd st - snd st' \<le> int (length (rd_bytes (fst st))) \<and> rd_err (fst st') = rd_err (fst st)"

definition accounts :: "'a reader \<Rightarrow> bool" where
  "accounts p \<longleftrightarrow> (\<forall>st. 0 \<le> snd st \<longrightarrow> took st (snd (p st)))"

lemma took_refl: "0 \<le> snd st \<Longrightarrow> took st st"
  by (simp add: took_def)

lemma took_trans:
  assumes "took st st'" "took st' st''"
  shows "took st st''"
proof -
  have "nat (snd st' - snd st'') + nat (snd st - snd st') = nat (snd st - snd st'')"
    using assms unfolding took_def by arith
  then show ?thesis using assms unfolding took_def by auto
qed

lemma took_nonneg: "took st st' \<Longrightarrow> 0 \<le> snd st'"
  by (simp add: took_def)

lemma accountsI:
  "(\<And>r sz res r' sz'. p (r, sz) = (res, r', sz') \<Longrightarrow> 0 \<le> sz \<Longrightarrow> took (r, sz) (r', sz')) \<Longrightarrow> accounts p"
  unfolding accounts_def
proof (intro allI impI)
  fix st :: rstate
  assume step: "\<And>r sz res r' sz'. p (r, sz) = (res, r', sz') \<Longrightarrow> 0 \<le> sz \<Longrightarrow> took (r, sz) (r', sz')"
    and "0 \<le> snd st"
  then show "took st (snd (p st))"
    using step [of "fst st" "snd st" "fst (p st)" "fst (snd (p st))" "snd (snd (p st))"] by simp
qed

lemma accountsD: "accounts p \<Longrightarrow> 0 \<le> snd st \<Longrightarrow> took st (snd (p st))"
  unfolding accounts_def by blast

lemma accounts_pure [intro, simp]:
  "accounts (rret x)" "accounts (rfail e)" "accounts (rpanic c)" "accounts (rlift res)" "accounts remaining"
  by (auto simp: accounts_def rret_def rfail_def rpanic_def rlift_def remaining_def intro: took_refl)

lemma took_rbind:
  assumes "took st (snd (p st))" "\<And>x st'. p st = (Ok x, st') \<Longrightarrow> took st' (snd (f x st'))"
  shows "took st (snd (rbind p f st))"
proof -
  obtain res st' where "p st = (res, st')" using prod.exhaust [of "p st"] by blast
  then show ?thesis
    using assms by (cases res) (auto simp: rbind_def intro: took_trans)
qed

lemma accounts_rbind [intro]:
  assumes "accounts p" "\<And>x. accounts (f x)"
  shows "accounts (rbind p f)"
  unfolding accounts_def
proof (intro allI impI)
  fix st :: rstate
  assume "0 \<le> snd st"
  then have p: "took st (snd (p st))" by (rule accountsD [OF assms(1)])
  then show "took st (snd (rbind p f st))"
    by (rule took_rbind) (use took_nonneg [OF p] in \<open>simp add: accountsD [OF assms(2)]\<close>)
qed

lemma accounts_if [intro]: "accounts p \<Longrightarrow> accounts q \<Longrightarrow> accounts (if c then p else q)"
  by simp

lemma accounts_discardN [intro, simp]: "accounts (discardN n)"
  by (rule accountsI) (auto simp: took_def discardN_def Discard_def Let_def min_def split: if_splits)

lemma accounts_peekRead [intro, simp]: "accounts (peekRead n f)"
  unfolding accounts_def
proof (intro allI impI)
  fix st :: rstate
  assume st: "0 \<le> snd st"
  have "accounts (rbind (rlift (f b)) (\<lambda>v. rbind (discardN n) (\<lambda>_. rret v)))" for b
    by (intro accounts_rbind accounts_pure accounts_discardN)
  from accountsD [OF this st] took_refl [OF st] show "took st (snd (peekRead n f st))"
    by (cases st) (auto simp: peekRead_def split: prod.split option.split)
qed

lemma accounts_ints [intro, simp]:
  "accounts readInt8" "accounts readInt16" "accounts readInt32" "accounts readInt64" "accounts readBool"
  by (simp_all add: readInt8_def readInt16_def readInt32_def readInt64_def readBool_def)

lemma accounts_readNewBytes [intro, simp]: "accounts (readNewBytes n)"
  by (rule accountsI) (auto simp: took_def readNewBytes_def ReadFull_def Let_def min_def split: if_splits)

lemma accounts_readStringWith [intro]: "(\<And>n. accounts (cb n)) \<Longrightarrow> accounts (readStringWith cb)"
  unfolding readStringWith_def Let_def by (intro accounts_rbind accounts_if accounts_pure accounts_ints)

lemma accounts_readBytesWith [intro]: "(\<And>n. accounts (cb n)) \<Longrightarrow> accounts (readBytesWith cb)"
  unfolding readBytesWith_def readArrayLen_def Let_def
  by (intro accounts_rbind accounts_if accounts_pure accounts_ints)

lemma accounts_strings [intro, simp]:
  "accounts readString" "accounts readBytes" "accounts discardString" "accounts discardBytes"
  unfolding readString_def readNewString_def readBytes_def discardString_def discardBytes_def
  by (intro accounts_readStringWith accounts_readBytesWith accounts_rbind accounts_if accounts_pure
      accounts_discardN accounts_readNewBytes)+

lemma accounts_readTimes [intro]: "accounts p \<Longrightarrow> accounts (readTimes n p)"
  by (induction n) auto

lemma accounts_readArrayWith [intro]: "accounts p \<Longrightarrow> accounts (readArrayWith p)"
  unfolding readArrayWith_def by auto

lemma accounts_readStringArray [intro, simp]: "accounts readStringArray"
  unfolding readStringArray_def by auto

lemma accounts_readMapStringInt32 [intro, simp]: "accounts readMapStringInt32"
  unfolding readMapStringInt32_def by (auto intro!: accounts_rbind)

lemma accounts_readSlice [intro]: "accounts p \<Longrightarrow> accounts (readSlice p)"
  unfolding readSlice_def Let_def by (intro accounts_rbind accounts_if accounts_readTimes accounts_pure accounts_ints)

lemma readSlice_eq: "readSlice p = readArrayWith p"
  by (auto simp: readSlice_def readArrayWith_def Let_def intro!: arg_cong [where f = "rbind readInt32"])

subsection \<open>Messages that are written and read back\<close>

text \<open>
  What the round trip of a message needs: its strings fit the 16 bit length, its slices the 32 bit
  length, and no byte slice is empty without being nil (the decoder returns nil for it).
\<close>

definition okString :: "gostring \<Rightarrow> bool" where
  "okString s \<longleftrightarrow> length s < 2 ^ 15"

definition okBytes :: "bytes \<Rightarrow> bool" where
  "okBytes b \<longleftrightarrow> length (contents b) < 2 ^ 31 \<and> b \<noteq> Some []"

definition okArray :: "('a \<Rightarrow> bool) \<Rightarrow> 'a list \<Rightarrow> bool" where
  "okArray ok xs \<longleftrightarrow> length xs < 2 ^ 31 \<and> list_all ok xs"

locale decodable =
  fixes wr :: "bufio_writer \<Rightarrow> 'a \<Rightarrow> bufio_writer"
    and rd :: "'a reader"
    and ok :: "'a \<Rightarrow> bool"
  assumes wr_append: "wr w x = w @ wr [] x"
    and rd_parses: "ok x \<Longrightarrow> parses rd (wr [] x) x"
    and rd_accounts: "accounts rd"
begin

lemma array_parses:
  assumes "okArray ok xs"
  shows "parses (readArrayWith rd) (writeArray [] wr xs) xs"
proof -
  have *: "fold (\<lambda>x w. wr w x) ys w = w @ concat (map (wr []) ys)" for ys w
  proof (induction ys arbitrary: w)
    case (Cons y ys)
    then show ?case using wr_append [of w y] by simp
  qed simp
  show ?thesis
    using parses_readArrayWith [of xs rd "wr []" "\<lambda>x. x"] assms rd_parses
    by (simp add: writeArray_def * wire okArray_def list_all_iff)
qed

text \<open>A response that holds exactly the message is read without a byte left.\<close>

lemma read_response:
  assumes "ok x"
  shows "expectZeroSize rd (\<lparr>rd_bytes = wr [] x @ rest, rd_err = e\<rparr>, int (length (wr [] x))) =
    (Ok x, \<lparr>rd_bytes = rest, rd_err = e\<rparr>, 0)"
  using parsesD [OF rd_parses [OF assms], of 0] by (simp add: expectZeroSize_def)

text \<open>The encoding is uniquely decodable: no message is a prefix of another.\<close>

lemma wr_inject:
  assumes "ok x" "ok y" "wr [] x @ as = wr [] y @ bs"
  shows "x = y \<and> as = bs"
proof -
  have n: "int (length (wr [] x)) + int (length as) = int (length (wr [] y)) + int (length bs)"
    using arg_cong [OF assms(3), of length] by simp
  have "(Ok x, \<lparr>rd_bytes = as, rd_err = EOF\<rparr>, int (length as)) =
      rd (\<lparr>rd_bytes = wr [] x @ as, rd_err = EOF\<rparr>, int (length (wr [] x)) + int (length as))"
    by (rule parsesD [OF rd_parses [OF assms(1)], symmetric]) simp_all
  also have "\<dots> = (Ok y, \<lparr>rd_bytes = bs, rd_err = EOF\<rparr>, int (length bs))"
    unfolding n assms(3) by (rule parsesD [OF rd_parses [OF assms(2)]]) simp_all
  finally show ?thesis by simp
qed

end

locale message_codec = sized sz wr + decodable wr rd ok
  for sz :: "'a \<Rightarrow> int32" and wr and rd and ok

lemma codecI:
  assumes "sized sz wr" "\<And>x. ok x \<Longrightarrow> parses rd (wr [] x) x" "accounts rd"
  shows "message_codec sz wr rd ok"
  using assms by (auto simp: message_codec_def decodable_def intro: sized.writeTo_append)

text \<open>The primitives as codecs, and the rules that the codecs of messages are composed with.\<close>

lemma parse_prims [parse]:
  "parses readInt8 (writeInt8 [] a) a"
  "parses readInt16 (writeInt16 [] b) b"
  "parses readInt32 (writeInt32 [] c) c"
  "parses readInt64 (writeInt64 [] d) d"
  "parses readBool (writeBool [] t) t"
  "okString s \<Longrightarrow> parses readString (writeString [] s) s"
  "okBytes bs \<Longrightarrow> parses readBytes (writeBytes [] bs) bs"
  using parse_readBytes [of bs] parse_readString [of s] parse_ints
  by (cases bs; auto simp: wire okString_def okBytes_def nilEmpty_def writeBytes_append split: if_splits)+

interpretation string_codec: message_codec sizeofString writeString readString okString
  by unfold_locales (auto intro: parse_prims string_item.writeTo_append)

interpretation bytes_codec: message_codec sizeofBytes writeBytes readBytes okBytes
  by unfold_locales (auto intro: parse_prims bytes_item.writeTo_append)

interpretation int32_codec: message_codec sizeofInt32 writeInt32 readInt32 "\<lambda>_. True"
  by unfold_locales (auto intro: parse_prims int32_item.writeTo_append)

lemma parse_arrays [parse]:
  "okArray okString ss \<Longrightarrow> parses readStringArray (writeStringArray [] ss) ss"
  "length is < 2 ^ 31 \<Longrightarrow> parses (readArrayWith readInt32) (writeInt32Array [] is) is"
  using string_codec.array_parses [of ss] int32_codec.array_parses [of "is"]
  by (simp_all add: readStringArray_def writeStringArray_def writeInt32Array_def okArray_def list_all_iff)

lemmas parse_rules = parses_rbind parses_rbind_ret refl
lemmas [account] = accounts_rbind accounts_pure accounts_ints accounts_strings accounts_readArrayWith
  accounts_readStringArray accounts_readSlice accounts_readMapStringInt32

subsection \<open>Decoders that stop with an error\<close>

text \<open>\<open>stops p bs e\<close>: on a stream that starts with \<open>bs\<close> the decoder takes exactly these bytes and fails with \<open>e\<close>.\<close>

definition stops :: "'a reader \<Rightarrow> byte list \<Rightarrow> go_error \<Rightarrow> bool" where
  "stops p bs err \<longleftrightarrow>
     (\<forall>rest e n. 0 \<le> n \<longrightarrow>
        p (\<lparr>rd_bytes = bs @ rest, rd_err = e\<rparr>, int (length bs) + n) = (Err err, \<lparr>rd_bytes = rest, rd_err = e\<rparr>, n))"

lemma stopsD:
  "stops p bs err \<Longrightarrow> 0 \<le> n \<Longrightarrow> k = int (length bs) + n \<Longrightarrow>
   p (\<lparr>rd_bytes = bs @ rest, rd_err = e\<rparr>, k) = (Err err, \<lparr>rd_bytes = rest, rd_err = e\<rparr>, n)"
  by (simp add: stops_def)

lemma stops_rfail: "stops (rfail e) [] e"
  by (simp add: stops_def rfail_def)

lemma stops_rbind: "stops p bs e \<Longrightarrow> stops (rbind p f) bs e"
  by (simp add: stops_def rbind_def)

lemma stops_rbind_parses:
  assumes "parses p as x" "stops (f x) bs err"
  shows "stops (rbind p f) (as @ bs) err"
  unfolding stops_def
proof (intro allI impI)
  fix rest e and n :: int
  assume n: "0 \<le> n"
  have "p (\<lparr>rd_bytes = as @ bs @ rest, rd_err = e\<rparr>, int (length (as @ bs)) + n) =
      (Ok x, \<lparr>rd_bytes = bs @ rest, rd_err = e\<rparr>, int (length bs) + n)"
    using n by (intro parsesD [OF assms(1)]) simp_all
  then show "rbind p f (\<lparr>rd_bytes = (as @ bs) @ rest, rd_err = e\<rparr>, int (length (as @ bs)) + n) =
      (Err err, \<lparr>rd_bytes = rest, rd_err = e\<rparr>, n)"
    using stopsD [OF assms(2) n refl, of rest e] by (simp add: rbind_def)
qed

lemma stops_readArrayWith_1: "stops p bs e \<Longrightarrow> stops (readArrayWith p) (PutUint32 1 @ bs) e"
  unfolding readArrayWith_def by (rule stops_rbind_parses [OF parse_ints(3)]) (simp add: stops_rbind)

lemma parses_readArrayWith_1:
  assumes "parses p bs x"
  shows "parses (readArrayWith p) (PutUint32 1 @ bs) [x]"
  using parses_readArrayWith [of "[x]" p "\<lambda>_. bs" "\<lambda>x. x"] assms by simp

lemma parses_discardString: "okString s \<Longrightarrow> parses discardString (writeString [] s) ()"
  using parse_discardString [of s] by (simp add: wire okString_def)

end
