(* ===== verification/Crc32.thy ===== *)
theory Crc32
  imports Wire
begin

section \<open>Checksums of messages (crc32.go)\<close>

text \<open>
  \<open>crc32.Update\<close> of the package \<open>hash/crc32\<close> for a reflected polynomial, one bit at a time, the
  buffer that crc32.go accumulates a checksum in, and \<open>crc32OfMessage\<close>. The buffer comes from a pool
  and may be one that was used before; that this makes no difference is a theorem.
\<close>

subsection \<open>The checksum of the standard library\<close>

definition IEEE :: uint32 where "IEEE = 0xedb88320"
definition Castagnoli :: uint32 where "Castagnoli = 0x82f63b78"

definition crcBit :: "uint32 \<Rightarrow> uint32 \<Rightarrow> uint32" where
  "crcBit poly c = (if c AND 1 = 1 then drop_bit 1 c XOR poly else drop_bit 1 c)"

definition crcByte :: "uint32 \<Rightarrow> byte \<Rightarrow> uint32 \<Rightarrow> uint32" where
  "crcByte poly b c = (crcBit poly ^^ 8) (c XOR ucast b)"

definition crc32_Update :: "uint32 \<Rightarrow> uint32 \<Rightarrow> byte list \<Rightarrow> uint32" where
  "crc32_Update poly crc p = NOT (fold (crcByte poly) p (NOT crc))"

definition crc32_Checksum :: "uint32 \<Rightarrow> byte list \<Rightarrow> uint32" where
  "crc32_Checksum poly data = crc32_Update poly 0 data"

subsection \<open>crc32.go\<close>

definition crc32Update :: "uint32 \<Rightarrow> byte list \<Rightarrow> uint32" where
  "crc32Update s b = crc32_Update IEEE s b"

record crc32Buffer =
  crc_sum :: uint32
  crc_buf :: "byte list"

definition acquireCrc32Buffer :: "crc32Buffer \<Rightarrow> crc32Buffer" where
  "acquireCrc32Buffer pooled = pooled\<lparr>crc_sum := 0\<rparr>"

definition crc32Buffer_update :: "crc32Buffer \<Rightarrow> crc32Buffer" where
  "crc32Buffer_update c = c\<lparr>crc_sum := crc32Update (crc_sum c) (crc_buf c)\<rparr>"

definition crc32Buffer_writeInt8 :: "crc32Buffer \<Rightarrow> int8 \<Rightarrow> crc32Buffer" where
  "crc32Buffer_writeInt8 c i = crc32Buffer_update (c\<lparr>crc_buf := [i]\<rparr>)"

definition crc32Buffer_writeInt32 :: "crc32Buffer \<Rightarrow> int32 \<Rightarrow> crc32Buffer" where
  "crc32Buffer_writeInt32 c i = crc32Buffer_update (c\<lparr>crc_buf := PutUint32 i\<rparr>)"

definition crc32Buffer_writeInt64 :: "crc32Buffer \<Rightarrow> int64 \<Rightarrow> crc32Buffer" where
  "crc32Buffer_writeInt64 c i = crc32Buffer_update (c\<lparr>crc_buf := PutUint64 i\<rparr>)"

definition crc32Buffer_writeBytes :: "crc32Buffer \<Rightarrow> bytes \<Rightarrow> crc32Buffer" where
  "crc32Buffer_writeBytes c b =
     (let c = (if b = None then crc32Buffer_writeInt32 c (- 1)
               else crc32Buffer_writeInt32 c (of_nat (length (contents b))))
      in c\<lparr>crc_sum := crc32Update (crc_sum c) (contents b)\<rparr>)"

definition crc32OfMessage_with ::
  "crc32Buffer \<Rightarrow> int8 \<Rightarrow> int8 \<Rightarrow> int64 \<Rightarrow> bytes \<Rightarrow> bytes \<Rightarrow> uint32" where
  "crc32OfMessage_with pooled magicByte attributes ts key val =
     (let b = acquireCrc32Buffer pooled;
          b = crc32Buffer_writeInt8 b magicByte;
          b = crc32Buffer_writeInt8 b attributes;
          b = (if magicByte \<noteq> 0 then crc32Buffer_writeInt64 b ts else b);
          b = crc32Buffer_writeBytes b key;
          b = crc32Buffer_writeBytes b val
      in crc_sum b)"

text \<open>The pool makes a zero buffer when it is empty.\<close>

definition crc32OfMessage :: "int8 \<Rightarrow> int8 \<Rightarrow> int64 \<Rightarrow> bytes \<Rightarrow> bytes \<Rightarrow> uint32" where
  "crc32OfMessage = crc32OfMessage_with \<lparr>crc_sum = 0, crc_buf = []\<rparr>"

subsection \<open>Properties\<close>

lemma crc32_Update_append: "crc32_Update poly crc (a @ b) = crc32_Update poly (crc32_Update poly crc a) b"
  by (simp add: crc32_Update_def)

text \<open>The fields the checksum covers, as \<open>message.writeTo\<close> writes them after the checksum.\<close>

definition crcFields :: "int8 \<Rightarrow> int8 \<Rightarrow> int64 \<Rightarrow> bytes \<Rightarrow> bytes \<Rightarrow> byte list" where
  "crcFields magicByte attributes ts key val =
     [magicByte, attributes] @ (if magicByte \<noteq> 0 then PutUint64 ts else []) @
     writeBytes [] key @ writeBytes [] val"

lemma crc32OfMessage_with_eq:
  "crc32OfMessage_with pooled magicByte attributes ts key val =
     crc32_Checksum IEEE (crcFields magicByte attributes ts key val)"
proof -
  have bytes: "crc_sum (crc32Buffer_writeBytes c b) = crc32_Update IEEE (crc_sum c) (writeBytes [] b)" for c b
    by (cases b) (simp_all add: crc32Buffer_writeBytes_def crc32Buffer_writeInt32_def crc32Buffer_update_def
        crc32Update_def crc32_Update_append [symmetric] wire bytesLen_def)
  show ?thesis
    by (simp add: crc32OfMessage_with_def Let_def bytes crcFields_def crc32Buffer_writeInt8_def
        crc32Buffer_writeInt64_def crc32Buffer_update_def acquireCrc32Buffer_def crc32Update_def
        crc32_Update_append [symmetric] crc32_Checksum_def)
qed

lemma crc32OfMessage_eq:
  "crc32OfMessage magicByte attributes ts key val =
     crc32_Checksum IEEE (crcFields magicByte attributes ts key val)"
  by (simp add: crc32OfMessage_def crc32OfMessage_with_eq)

subsection \<open>Properties\<close>

text \<open>The checksum that a message is written with is the IEEE CRC-32 of the bytes that follow it on the
  wire, whatever sum and buffer the pooled \<open>crc32Buffer\<close> was left with by its last user.\<close>

theorem crc32OfMessage_pool:
  "crc32OfMessage_with pooled magicByte attributes ts key val =
     crc32_Checksum IEEE
       (writeBytes (writeBytes (writeInt8 (writeInt8 [] magicByte) attributes @
          (if magicByte \<noteq> 0 then writeInt64 [] ts else [])) key) val)"
  by (simp add: crc32OfMessage_with_eq crcFields_def wire writeBytes_append)

end
