(* ===== verification/MessageSet.thy ===== *)
theory MessageSet
  imports Decode Crc32
begin

section \<open>Messages and message sets (message.go, write.go)\<close>

text \<open>
  The exported message, the messages of the first two wire formats with their sets, and the functions
  of write.go that encode them without building the structs. The lemmas at the end say that the
  direct encoders write the same bytes as the structs.
\<close>

subsection \<open>Messages of the program and of the first wire formats (message.go)\<close>

record Header =
  hdr_Key :: gostring
  hdr_Value :: bytes

record Message =
  msg_Topic :: gostring
  msg_Partition :: int
  msg_Offset :: int64
  msg_Key :: bytes
  msg_Value :: bytes
  msg_Headers :: "Header list"
  msg_Time :: gotime

record message =
  m_CRC :: int32
  m_MagicByte :: int8
  m_Attributes :: int8
  m_Timestamp :: int64
  m_Key :: bytes
  m_Value :: bytes

definition message_crc32 :: "message \<Rightarrow> int32" where
  "message_crc32 m = crc32OfMessage (m_MagicByte m) (m_Attributes m) (m_Timestamp m) (m_Key m) (m_Value m)"

definition message_size :: "message \<Rightarrow> int32" where
  "message_size m =
     (let sz = 4 + 1 + 1 + sizeofBytes (m_Key m) + sizeofBytes (m_Value m)
      in if m_MagicByte m \<noteq> 0 then sz + 8 else sz)"

definition message_writeTo :: "bufio_writer \<Rightarrow> message \<Rightarrow> bufio_writer" where
  "message_writeTo w m =
     (let w = writeInt32 w (m_CRC m);
          w = writeInt8 w (m_MagicByte m);
          w = writeInt8 w (m_Attributes m);
          w = (if m_MagicByte m \<noteq> 0 then writeInt64 w (m_Timestamp m) else w);
          w = writeBytes w (m_Key m)
      in writeBytes w (m_Value m))"

interpretation msg: sized message_size message_writeTo
  by unfold_locales (simp_all add: message_size_def message_writeTo_def Let_def wire wire_size)

lemmas [frame] = msg.append
lemmas [wire] = msg.append
lemmas [wire_size] = msg.size_length

record messageSetItem =
  mi_Offset :: int64
  mi_MessageSize :: int32
  mi_Message :: message

definition messageSetItem_size :: "messageSetItem \<Rightarrow> int32" where
  "messageSetItem_size m = 8 + 4 + message_size (mi_Message m)"

definition messageSetItem_writeTo :: "bufio_writer \<Rightarrow> messageSetItem \<Rightarrow> bufio_writer" where
  "messageSetItem_writeTo w m =
     (let w = writeInt64 w (mi_Offset m);
          w = writeInt32 w (mi_MessageSize m)
      in message_writeTo w (mi_Message m))"

interpretation msi: sized messageSetItem_size messageSetItem_writeTo
  by unfold_locales (simp_all add: messageSetItem_size_def messageSetItem_writeTo_def Let_def wire wire_size)

lemmas [frame] = msi.append
lemmas [wire] = msi.append
lemmas [wire_size] = msi.size_length

text \<open>A message set has no length prefix: it is the concatenation of its items.\<close>

type_synonym messageSet = "messageSetItem list"

definition messageSet_size :: "messageSet \<Rightarrow> int32" where
  "messageSet_size s = fold (\<lambda>m sz. sz + messageSetItem_size m) s 0"

definition messageSet_writeTo :: "bufio_writer \<Rightarrow> messageSet \<Rightarrow> bufio_writer" where
  "messageSet_writeTo w s = fold (\<lambda>m w. messageSetItem_writeTo w m) s w"

interpretation mset: sized messageSet_size messageSet_writeTo
  by unfold_locales (simp_all add: messageSet_size_def messageSet_writeTo_def msi.fold_writeTo msi.fold_size)

lemmas [frame] = mset.append
lemmas [wire] = mset.append
lemmas [wire_size] = mset.size_length

definition Message_message :: "Message \<Rightarrow> message" where
  "Message_message msg =
     (let m = \<lparr>m_CRC = 0, m_MagicByte = 1, m_Attributes = 0, m_Timestamp = timestamp (msg_Time msg),
               m_Key = msg_Key msg, m_Value = msg_Value msg\<rparr>
      in m\<lparr>m_CRC := message_crc32 m\<rparr>)"

definition Message_item :: "Message \<Rightarrow> messageSetItem" where
  "Message_item msg =
     (let item = \<lparr>mi_Offset = msg_Offset msg, mi_MessageSize = 0, mi_Message = Message_message msg\<rparr>
      in item\<lparr>mi_MessageSize := message_size (mi_Message item)\<rparr>)"

subsection \<open>Writing messages (write.go)\<close>

definition magicByte :: int8 where "magicByte = 1"
definition CompressionNoneCode :: int8 where "CompressionNoneCode = 0"

definition msgSize :: "bytes \<Rightarrow> bytes \<Rightarrow> int32" where
  "msgSize key val = 4 + 1 + 1 + 8 + sizeofBytes key + sizeofBytes val"

definition messageSetSize :: "Message list \<Rightarrow> int32" where
  "messageSetSize msgs =
     fold (\<lambda>msg sz. sz + (8 + 4 + 4 + 1 + 1 + 8 + sizeofBytes (msg_Key msg) + sizeofBytes (msg_Value msg))) msgs 0"

definition writeMessage ::
  "bufio_writer \<Rightarrow> int64 \<Rightarrow> int8 \<Rightarrow> gotime \<Rightarrow> bytes \<Rightarrow> bytes \<Rightarrow> bufio_writer" where
  "writeMessage w offset attributes time key val =
     (let ts = timestamp time;
          crc32 = crc32OfMessage magicByte attributes ts key val;
          sz = msgSize key val;
          w = writeInt64 w offset;
          w = writeInt32 w sz;
          w = writeInt32 w crc32;
          w = writeInt8 w magicByte;
          w = writeInt8 w attributes;
          w = writeInt64 w ts;
          w = writeBytes w key
      in writeBytes w val)"

text \<open>
  A compression codec is a value of the interface of compression.go: its code and its two functions,
  which come from outside of the program.
\<close>

record CompressionCodec =
  codec_Code :: int8
  codec_Encode :: "byte list \<Rightarrow> (go_error, bytes) result"
  codec_Decode :: "byte list \<Rightarrow> (go_error, bytes) result"

text \<open>
  \<open>compress\<close> writes the messages with offsets from 0 into a buffer and puts the compressed buffer in
  the value of one message. Growing the buffer panics when the estimated length, a sum of \<open>int32\<close>
  sizes, is negative.
\<close>

definition uncompressedSet :: "Message list \<Rightarrow> byte list" where
  "uncompressedSet msgs =
     fold (\<lambda>(offset, msg) w. writeMessage w (of_nat offset) CompressionNoneCode (msg_Time msg) (msg_Key msg) (msg_Value msg))
       (enumerate 0 msgs) []"

definition zeroMessage :: Message where
  "zeroMessage = \<lparr>msg_Topic = [], msg_Partition = 0, msg_Offset = 0, msg_Key = None, msg_Value = None,
     msg_Headers = [], msg_Time = zeroTime\<rparr>"

definition compress :: "CompressionCodec \<Rightarrow> Message list \<Rightarrow> (go_error, Message list) result" where
  "compress codec msgs =
     (let estimatedLen = (\<Sum>msg\<leftarrow>msgs. sint (msgSize (msg_Key msg) (msg_Value msg))) in
      if estimatedLen < 0 then Panic (PanicMessage ''bytes.Buffer.Grow: negative count'')
      else case codec_Encode codec (uncompressedSet msgs) of
          Err e \<Rightarrow> Err e
        | Panic p \<Rightarrow> Panic p
        | Ok compressed \<Rightarrow> Ok [zeroMessage\<lparr>msg_Value := compressed\<rparr>])"


subsection \<open>The direct encoders agree with the message structs\<close>

text \<open>The item that \<open>writeMessage\<close> writes.\<close>

definition itemOf :: "int64 \<Rightarrow> int8 \<Rightarrow> gotime \<Rightarrow> bytes \<Rightarrow> bytes \<Rightarrow> messageSetItem" where
  "itemOf offset attributes time key val =
     (let m = \<lparr>m_CRC = 0, m_MagicByte = 1, m_Attributes = attributes, m_Timestamp = timestamp time,
               m_Key = key, m_Value = val\<rparr>;
          m = m\<lparr>m_CRC := message_crc32 m\<rparr>
      in \<lparr>mi_Offset = offset, mi_MessageSize = message_size m, mi_Message = m\<rparr>)"

lemma writeMessage_eq:
  "writeMessage w offset attributes time key val =
     messageSetItem_writeTo w (itemOf offset attributes time key val)"
  by (simp add: writeMessage_def itemOf_def Let_def messageSetItem_writeTo_def message_writeTo_def
      message_crc32_def magicByte_def msgSize_def message_size_def add.assoc)

lemma Message_item_eq: "Message_item msg = itemOf (msg_Offset msg) 0 (msg_Time msg) (msg_Key msg) (msg_Value msg)"
  by (simp add: Message_item_def Message_message_def itemOf_def Let_def)

lemma messageSetItem_size_itemOf:
  "messageSetItem_size (itemOf offset attributes time key val) = 8 + 4 + 4 + 1 + 1 + 8 + sizeofBytes key + sizeofBytes val"
  by (simp add: messageSetItem_size_def itemOf_def Let_def message_size_def add.assoc)

text \<open>The message set that a list of messages is written as, all with the same attributes.\<close>

definition itemsOf :: "int8 \<Rightarrow> Message list \<Rightarrow> messageSet" where
  "itemsOf attributes msgs =
     map (\<lambda>msg. itemOf (msg_Offset msg) attributes (msg_Time msg) (msg_Key msg) (msg_Value msg)) msgs"

lemma itemsOf_none: "itemsOf 0 msgs = map Message_item msgs"
  by (simp add: itemsOf_def Message_item_eq)

lemma messageSetSize_eq: "messageSetSize msgs = messageSet_size (itemsOf attributes msgs)"
proof -
  have "fold (\<lambda>msg sz. sz + (8 + 4 + 4 + 1 + 1 + 8 + sizeofBytes (msg_Key msg) + sizeofBytes (msg_Value msg))) msgs n =
      fold (\<lambda>m sz. sz + messageSetItem_size m) (itemsOf attributes msgs) n" for n
    by (induction msgs arbitrary: n) (simp_all add: itemsOf_def messageSetItem_size_itemOf)
  then show ?thesis by (simp add: messageSetSize_def messageSet_size_def)
qed

lemma fold_writeMessage:
  "fold (\<lambda>msg w. writeMessage w (msg_Offset msg) attributes (msg_Time msg) (msg_Key msg) (msg_Value msg)) msgs w =
     messageSet_writeTo w (itemsOf attributes msgs)"
  by (induction msgs arbitrary: w) (simp_all add: itemsOf_def messageSet_writeTo_def writeMessage_eq)

text \<open>What \<open>compress\<close> compresses is the message set with the offsets 0, 1, 2 and so on.\<close>

definition renumber :: "Message list \<Rightarrow> Message list" where
  "renumber msgs = map (\<lambda>(i, msg). msg\<lparr>msg_Offset := of_nat i\<rparr>) (enumerate 0 msgs)"

lemma uncompressedSet_eq: "uncompressedSet msgs = messageSet_writeTo [] (map Message_item (renumber msgs))"
proof -
  have "fold (\<lambda>(offset, msg) w. writeMessage w (of_nat offset) CompressionNoneCode (msg_Time msg) (msg_Key msg) (msg_Value msg))
      (enumerate n msgs) w =
      messageSet_writeTo w (map Message_item (map (\<lambda>(i, msg). msg\<lparr>msg_Offset := of_nat i\<rparr>) (enumerate n msgs)))" for n w
    by (induction msgs arbitrary: n w)
      (simp_all add: messageSet_writeTo_def writeMessage_eq Message_item_eq CompressionNoneCode_def)
  then show ?thesis by (simp add: uncompressedSet_def renumber_def)
qed


end
