(* ===== verification/Balancer.thy ===== *)
theory Balancer
  imports MessageSet "HOL-Library.Multiset"
begin

section \<open>Balancers: the partition of a message (balancer.go)\<close>

text \<open>
  The three strategies by which a writer chooses the partition of a message. A balancer keeps state between calls,
  so each is a function from its state to the chosen partition and its next state. Partitions are Go \<open>int\<close>s; an
  empty list of partitions makes every strategy panic.

  The locale \<open>balancer\<close> (and \<open>steady_balancer\<close>, when the partitions may change) is what the writer relies on: the chosen partition is one of those it was offered. The
  strategies satisfy it under the invariants of their interpretations: round robin always, \<open>LeastBytes\<close> as long as the
  partitions do not change, \<open>Hash\<close> when the partitions are numbered from 0, because it returns the index and not the
  partition found there.
\<close>

subsection \<open>Searching (sort.Search)\<close>

function searchLoop :: "(nat \<Rightarrow> bool) \<Rightarrow> nat \<Rightarrow> nat \<Rightarrow> nat" where
  "searchLoop f i j =
     (if i < j then
        let h = (i + j) div 2 in if f h then searchLoop f i h else searchLoop f (h + 1) j
      else i)"
  by pat_completeness auto
termination
  by (relation "measure (\<lambda>(f, i, j). j - i)") auto

declare searchLoop.simps [simp del]

definition sortSearch :: "nat \<Rightarrow> (nat \<Rightarrow> bool) \<Rightarrow> nat" where
  "sortSearch n f = searchLoop f 0 n"

subsection \<open>The strategies\<close>

definition RoundRobin_Balance :: "uint64 \<Rightarrow> Message \<Rightarrow> int list \<Rightarrow> (go_error, int \<times> uint64) result" where
  "RoundRobin_Balance offset msg partitions =
     (if partitions = [] then Panic DivideByZero
      else Ok (partitions ! unat (offset mod of_nat (length partitions)), offset + 1))"

record leastBytesCounter =
  lb_partition :: int
  lb_bytes :: uint64

text \<open>The index of the counter of a partition; \<open>None\<close> is the nil pointer.\<close>

definition LeastBytes_counterOf :: "leastBytesCounter list \<Rightarrow> int \<Rightarrow> nat option" where
  "LeastBytes_counterOf counters part =
     (let i = sortSearch (length counters) (\<lambda>i. lb_partition (counters ! i) \<ge> part) in
      if i = length counters \<or> lb_partition (counters ! i) \<noteq> part then None else Some i)"

definition LeastBytes_makeCounters :: "int list \<Rightarrow> leastBytesCounter list" where
  "LeastBytes_makeCounters partitions =
     sort_key lb_partition (map (\<lambda>p. \<lparr>lb_partition = p, lb_bytes = 0\<rparr>) partitions)"

text \<open>The loop over the counters after the first; \<open>i\<close> is the index of the next.\<close>

fun leastIndex :: "nat \<Rightarrow> nat \<Rightarrow> uint64 \<Rightarrow> leastBytesCounter list \<Rightarrow> nat" where
  "leastIndex i minIndex minBytes [] = minIndex"
| "leastIndex i minIndex minBytes (c # cs) =
     (if lb_bytes c < minBytes then leastIndex (i + 1) i (lb_bytes c) cs else leastIndex (i + 1) minIndex minBytes cs)"

definition LeastBytes_Balance ::
  "leastBytesCounter list \<Rightarrow> Message \<Rightarrow> int list \<Rightarrow> (go_error, int \<times> leastBytesCounter list) result" where
  "LeastBytes_Balance counters msg partitions =
     (let counters = (if list_ex (\<lambda>p. LeastBytes_counterOf counters p = None) partitions
                      then LeastBytes_makeCounters partitions else counters) in
      case counters of
        [] \<Rightarrow> Panic IndexOutOfRange
      | c # cs \<Rightarrow>
          let i = leastIndex 1 0 (lb_bytes c) cs;
              m = counters ! i;
              m = m\<lparr>lb_bytes := lb_bytes m + (of_nat (length (contents (msg_Key msg))) + of_nat (length (contents (msg_Value msg))))\<rparr>
          in Ok (lb_partition m, counters[i := m]))"

text \<open>FNV-1a of the package \<open>hash/fnv\<close>, the hash that \<open>Hash\<close> uses when it was given none.\<close>

definition fnv1a :: "byte list \<Rightarrow> uint32" where
  "fnv1a bs = fold (\<lambda>b h. (h XOR ucast b) * 16777619) bs 2166136261"

text \<open>
  The \<open>Hasher\<close> of a \<open>Hash\<close> is an interface of the package \<open>hash\<close>: after \<open>Reset\<close> and a \<open>Write\<close>, which never returns an error,
  \<open>Sum32\<close> is a function of the bytes written. The \<open>int\<close> of a \<open>uint32\<close> is not negative, so the change of sign at the
  end of \<open>Balance\<close> never happens.
\<close>

record HashBalancer =
  hb_rr :: uint64
  hb_Hasher :: "(byte list \<Rightarrow> uint32) option"

definition Hash_Balance :: "HashBalancer \<Rightarrow> Message \<Rightarrow> int list \<Rightarrow> (go_error, int \<times> HashBalancer) result" where
  "Hash_Balance h msg partitions =
     (case msg_Key msg of
        None \<Rightarrow>
          (case RoundRobin_Balance (hb_rr h) msg partitions of
             Ok (p, rr) \<Rightarrow> Ok (p, h\<lparr>hb_rr := rr\<rparr>)
           | Err e \<Rightarrow> Err e
           | Panic p \<Rightarrow> Panic p)
      | Some key \<Rightarrow>
          let hasher = (case hb_Hasher h of None \<Rightarrow> fnv1a | Some f \<Rightarrow> f) in
          if partitions = [] then Panic DivideByZero
          else let part = uint (hasher key) mod int (length partitions)
               in Ok (if part < 0 then - part else part, h))"

subsection \<open>What a writer relies on\<close>

text \<open>The partitions of a sequence of messages, as a writer whose partitions do not change computes them.\<close>

fun balanceAll ::
  "('s \<Rightarrow> Message \<Rightarrow> int list \<Rightarrow> (go_error, int \<times> 's) result) \<Rightarrow> int list \<Rightarrow> 's \<Rightarrow> Message list \<Rightarrow>
   (go_error, int list \<times> 's) result" where
  "balanceAll balance ps s [] = Ok ([], s)"
| "balanceAll balance ps s (m # ms) =
     (case balance s m ps of
        Panic p \<Rightarrow> Panic p
      | Err e \<Rightarrow> Err e
      | Ok (p, s) \<Rightarrow>
          (case balanceAll balance ps s ms of Ok (qs, s) \<Rightarrow> Ok (p # qs, s) | r \<Rightarrow> r))"

locale balancer =
  fixes balance :: "'s \<Rightarrow> Message \<Rightarrow> int list \<Rightarrow> (go_error, int \<times> 's) result"
    and inv :: "int list \<Rightarrow> 's \<Rightarrow> bool"
  assumes chooses: "inv ps s \<Longrightarrow> ps \<noteq> [] \<Longrightarrow>
    \<exists>p s'. balance s msg ps = Ok (p, s') \<and> p \<in> set ps \<and> inv ps s'"
begin

lemma balanceAll_chooses:
  assumes "inv ps s" "ps \<noteq> []"
  shows "\<exists>qs s'. balanceAll balance ps s msgs = Ok (qs, s') \<and> length qs = length msgs \<and> set qs \<subseteq> set ps \<and> inv ps s'"
  using assms(1)
proof (induction msgs arbitrary: s)
  case (Cons m ms)
  obtain p s1 where p: "balance s m ps = Ok (p, s1)" "p \<in> set ps" "inv ps s1"
    using chooses [OF Cons.prems assms(2)] by blast
  obtain qs s2 where qs: "balanceAll balance ps s1 ms = Ok (qs, s2)" "length qs = length ms" "set qs \<subseteq> set ps" "inv ps s2"
    using Cons.IH [OF p(3)] by blast
  show ?case
    using p qs by (intro exI [of _ "p # qs"] exI [of _ s2]) simp
qed simp

lemma balanceAll_append:
  "balanceAll balance ps s (ms @ ms') =
     (case balanceAll balance ps s ms of
        Ok (qs, s) \<Rightarrow> (case balanceAll balance ps s ms' of Ok (qs', s) \<Rightarrow> Ok (qs @ qs', s) | r \<Rightarrow> r)
      | r \<Rightarrow> r)"
proof (induction ms arbitrary: s)
  case Nil
  show ?case by (simp split: result.split prod.split)
next
  case (Cons m ms)
  show ?case
    by (cases "balance s m ps") (auto simp: Cons.IH split: result.splits)
qed

end

text \<open>
  A strategy that chooses well from any list of a kind in any state: its partitions may change between two calls.
\<close>

locale steady_balancer =
  fixes balance :: "'s \<Rightarrow> Message \<Rightarrow> int list \<Rightarrow> (go_error, int \<times> 's) result"
    and offered :: "int list \<Rightarrow> bool"
  assumes chooses_offered: "offered ps \<Longrightarrow> ps \<noteq> [] \<Longrightarrow> \<exists>p s'. balance s msg ps = Ok (p, s') \<and> p \<in> set ps"

sublocale steady_balancer \<subseteq> balancer balance "\<lambda>ps s. offered ps"
  by unfold_locales (use chooses_offered in blast)

subsection \<open>Round robin\<close>

lemma RoundRobin_Balance_eq:
  assumes "ps \<noteq> []" "length ps < 2 ^ 63"
  shows "RoundRobin_Balance off msg ps = Ok (ps ! (unat off mod length ps), off + 1)"
proof -
  have "unat (of_nat (length ps) :: uint64) = length ps"
    using assms(2) by (simp add: unat_of_nat)
  then show ?thesis
    using assms(1) by (simp add: RoundRobin_Balance_def unat_mod_distrib)
qed

interpretation rr: steady_balancer RoundRobin_Balance "\<lambda>ps. length ps < 2 ^ 63"
  by unfold_locales (simp add: RoundRobin_Balance_eq)

lemma RoundRobin_all:
  assumes "ps \<noteq> []" "length ps < 2 ^ 63" "unat off + length msgs \<le> 2 ^ 64"
  shows "balanceAll RoundRobin_Balance ps off msgs =
    Ok (map (\<lambda>i. ps ! ((unat off + i) mod length ps)) [0..<length msgs], off + of_nat (length msgs))"
  using assms(3)
proof (induction msgs rule: rev_induct)
  case (snoc m msgs)
  have "unat (off + of_nat (length msgs)) = unat off + length msgs"
    using snoc.prems by (simp add: unat_word_ariths unat_of_nat mod_simps)
  then show ?case
    using snoc assms(1,2) by (simp add: rr.balanceAll_append RoundRobin_Balance_eq)
qed simp

text \<open>How often a run of consecutive numbers meets a residue.\<close>

lemma div_Suc_shift:
  assumes "j < n"
  shows "(Suc m + (n - 1 - j)) div n = (m + (n - 1 - j)) div n + (if m mod n = j then 1 else 0)"
proof -
  have "(Suc (m + (n - 1 - j)) mod n = 0) = (m mod n = j)"
  proof -
    have "Suc (m + (n - 1 - j)) = m + (n - j)" using assms by simp
    moreover have "(m + (n - j)) mod n = (m mod n + (n - j)) mod n"
      by (simp add: mod_simps)
    moreover have "m mod n < n" using assms by (intro mod_less_divisor) simp
    moreover have "(r + (n - j)) mod n = (if r < j then r + n - j else r - j)" if "r < n" for r
      using that assms mod_less [of "r - j" n] by (simp add: mod_if)
    ultimately show ?thesis
      using assms by (simp split: if_splits) linarith?
  qed
  then show ?thesis by (simp add: div_Suc)
qed

lemma length_filter_residue:
  assumes "j < n"
  shows "length (filter (\<lambda>i. (a + i) mod n = j) [0..<k]) = (a + k + (n - 1 - j)) div n - (a + (n - 1 - j)) div n"
proof (induction k)
  case (Suc k)
  have "(a + (n - 1 - j)) div n \<le> (a + k + (n - 1 - j)) div n"
    by (rule div_le_mono) simp
  then show ?case
    using Suc div_Suc_shift [OF assms, of "a + k"] by simp
qed simp

lemma div_diff_bounds: "(x + k) div n - x div n \<in> {k div n, k div n + (1::nat)}"
proof (cases "n = 0")
  case False
  then have "x mod n < n" "k mod n < n" by simp_all
  then have "(x mod n + k mod n) div n < 2"
    by (intro less_mult_imp_div_less) linarith
  then show ?thesis
    by (simp add: div_add1_eq [of x k] less_2_cases_iff)
qed simp

lemma count_list_rotation:
  assumes "distinct ps" "j < length ps"
  shows "count_list (map (\<lambda>i. ps ! ((a + i) mod length ps)) [0..<k]) (ps ! j) \<in> {k div length ps, k div length ps + 1}"
proof -
  have "count_list (map (\<lambda>i. ps ! ((a + i) mod length ps)) [0..<k]) (ps ! j) =
    length (filter (\<lambda>i. (a + i) mod length ps = j) [0..<k])"
    using assms nth_eq_iff_index_eq [OF assms(1) mod_less_divisor assms(2)]
    by (induction k) (simp_all add: count_list_append, force)
  then show ?thesis
    using length_filter_residue [OF assms(2), of a k] div_diff_bounds [of "a + (length ps - 1 - j)" k "length ps"]
    by (simp add: ac_simps)
qed

subsection \<open>The fewest bytes\<close>

text \<open>The search ends where the predicate becomes true.\<close>

lemma searchLoop_edge:
  "i \<le> j \<Longrightarrow> i \<le> searchLoop f i j \<and> searchLoop f i j \<le> j \<and> (searchLoop f i j < j \<longrightarrow> f (searchLoop f i j)) \<and>
     (i < searchLoop f i j \<longrightarrow> \<not> f (searchLoop f i j - 1))"
proof (induction f i j rule: searchLoop.induct)
  case (1 f i j)
  let ?h = "(i + j) div 2"
  consider "i = j" | "i < j" "f ?h" | "i < j" "\<not> f ?h" using 1(3) by linarith
  then show ?case
  proof cases
    case 1
    then show ?thesis by (simp add: searchLoop.simps)
  next
    case 2
    then have h: "i \<le> ?h" "?h < j" by auto
    have eq: "searchLoop f i j = searchLoop f i ?h"
      using 2 by (subst searchLoop.simps) simp
    show ?thesis
      using 1(1) [OF 2(1) refl 2(2) h(1)] h(2) 2(2) unfolding eq
      by (cases "searchLoop f i ?h = ?h") simp_all
  next
    case 3
    then have h: "i \<le> ?h" "?h + 1 \<le> j" by auto
    have eq: "searchLoop f i j = searchLoop f (?h + 1) j"
      using 3 by (subst searchLoop.simps) simp
    show ?thesis
      using 1(2) [OF 3(1) refl 3(2) h(2)] h(1) 3(2) unfolding eq
      by (cases "searchLoop f (?h + 1) j = ?h + 1") simp_all
  qed
qed

lemma sortSearch_key:
  fixes key :: "nat \<Rightarrow> int" and p :: int and n :: nat
  assumes "\<And>a b. a \<le> b \<Longrightarrow> b < n \<Longrightarrow> key a \<le> key b"
  defines "r \<equiv> sortSearch n (\<lambda>i. key i \<ge> p)"
  shows "r = n \<or> key r \<noteq> p \<longleftrightarrow> (\<forall>k<n. key k \<noteq> p)"
proof -
  have r: "r \<le> n" "r < n \<Longrightarrow> p \<le> key r" "0 < r \<Longrightarrow> key (r - 1) < p"
    using searchLoop_edge [of 0 n "\<lambda>i. p \<le> key i"] unfolding r_def sortSearch_def by simp_all
  have "r < n \<and> key r = p" if k: "k < n" "key k = p" for k
  proof -
    have "r \<le> k"
    proof (rule ccontr)
      assume "\<not> r \<le> k"
      then have "0 < r" "k \<le> r - 1" "r - 1 < n" using r(1) by auto
      with r(3) assms(1) [of k "r - 1"] k(2) show False by simp
    qed
    then show ?thesis
      using r(2) assms(1) [of r k] k by simp
  qed
  moreover have "r < n" if "r \<noteq> n" using that r(1) by simp
  ultimately show ?thesis by blast
qed

lemma counterOf_None_iff:
  assumes "sorted (map lb_partition cs)"
  shows "LeastBytes_counterOf cs p = None \<longleftrightarrow> p \<notin> lb_partition ` set cs"
proof -
  have mono: "lb_partition (cs ! a) \<le> lb_partition (cs ! b)" if "a \<le> b" "b < length cs" for a b
    using sorted_nth_mono [OF assms] that by force
  show ?thesis
    using sortSearch_key [of "length cs" "\<lambda>i. lb_partition (cs ! i)" p, OF mono]
    by (simp add: LeastBytes_counterOf_def Let_def image_iff set_conv_nth) blast
qed

text \<open>The invariant while the partitions are \<open>ps\<close>: the counters are those of \<open>ps\<close>, in order.\<close>

definition lbInv :: "int list \<Rightarrow> leastBytesCounter list \<Rightarrow> bool" where
  "lbInv ps cs \<longleftrightarrow> distinct ps \<and> (cs = [] \<or> map lb_partition cs = sort ps)"

definition msgBytes :: "Message \<Rightarrow> nat" where
  "msgBytes msg = length (contents (msg_Key msg)) + length (contents (msg_Value msg))"

text \<open>The counters that \<open>Balance\<close> uses, made anew in the first call.\<close>

abbreviation (input) countersOf :: "int list \<Rightarrow> leastBytesCounter list \<Rightarrow> leastBytesCounter list" where
  "countersOf ps cs \<equiv> (if cs = [] then LeastBytes_makeCounters ps else cs)"

lemma makeCounters_facts:
  "map lb_partition (LeastBytes_makeCounters ps) = sort ps"
  "c \<in> set (LeastBytes_makeCounters ps) \<Longrightarrow> lb_bytes c = 0"
proof -
  have "image_mset lb_partition (mset (map (\<lambda>p. \<lparr>lb_partition = p, lb_bytes = 0\<rparr>) ps)) = mset ps"
    by (induction ps) simp_all
  then have "sort ps = map lb_partition (LeastBytes_makeCounters ps)"
    by (intro properties_for_sort) (simp_all add: LeastBytes_makeCounters_def)
  then show "map lb_partition (LeastBytes_makeCounters ps) = sort ps" ..
qed (auto simp: LeastBytes_makeCounters_def)

text \<open>\<open>all\<close> are the counters, of which the first \<open>i\<close> have been compared.\<close>

lemma leastIndex_least:
  assumes "m < i" "i \<le> length all" "\<forall>k<i. lb_bytes (all ! m) \<le> lb_bytes (all ! k)"
  defines "r \<equiv> leastIndex i m (lb_bytes (all ! m)) (drop i all)"
  shows "r < length all \<and> (\<forall>k<length all. lb_bytes (all ! r) \<le> lb_bytes (all ! k))"
  using assms(1-3) unfolding r_def
proof (induction "drop i all" arbitrary: i m)
  case Nil
  then show ?case by simp
next
  case (Cons c cs)
  have i: "i < length all"
    using Cons(2) by (metis drop_all list.simps(3) not_le)
  then have d: "drop i all = all ! i # drop (i + 1) all" "c = all ! i" "cs = drop (i + 1) all"
    using Cons(2) by (simp_all add: Cons_nth_drop_Suc [symmetric])
  show ?case
  proof (cases "lb_bytes (all ! i) < lb_bytes (all ! m)")
    case True
    have "lb_bytes (all ! i) \<le> lb_bytes (all ! k)" if "k < i + 1" for k
    proof (cases "k = i")
      case False
      then have "lb_bytes (all ! m) \<le> lb_bytes (all ! k)"
        using Cons(5) that by simp
      then show ?thesis by (rule order.trans [OF less_imp_le [OF True]])
    qed simp
    with Cons(1) [OF d(3), of i] i True show ?thesis
      unfolding d(1) by simp
  next
    case False
    have "lb_bytes (all ! m) \<le> lb_bytes (all ! k)" if "k < i + 1" for k
      using False Cons(5) that by (cases "k = i") simp_all
    with Cons(1) [OF d(3), of m] i False Cons(3) show ?thesis
      unfolding d(1) by simp
  qed
qed

lemma LeastBytes_Balance_step:
  assumes "lbInv ps cs" "ps \<noteq> []"
  defines "cs' \<equiv> countersOf ps cs"
  shows "\<exists>i<length cs'. (\<forall>k<length cs'. lb_bytes (cs' ! i) \<le> lb_bytes (cs' ! k)) \<and>
    LeastBytes_Balance cs msg ps =
      Ok (lb_partition (cs' ! i), cs'[i := (cs' ! i)\<lparr>lb_bytes := lb_bytes (cs' ! i) + of_nat (msgBytes msg)\<rparr>])"
proof -
  have cs': "map lb_partition cs' = sort ps"
    using assms(1) makeCounters_facts(1) by (auto simp: lbInv_def cs'_def)
  have "list_ex (\<lambda>p. LeastBytes_counterOf cs p = None) ps \<longleftrightarrow> cs = []"
  proof (cases "cs = []")
    case False
    then have eq: "map lb_partition cs = sort ps" using assms(1) by (simp add: lbInv_def)
    then have "lb_partition ` set cs = set ps" by (metis set_map set_sort)
    then show ?thesis
      using False counterOf_None_iff [of cs] eq by (auto simp: list_ex_iff)
  qed (use assms(2) counterOf_None_iff [of "[]"] in \<open>auto simp: list_ex_iff neq_Nil_conv\<close>)
  then have used: "(if list_ex (\<lambda>p. LeastBytes_counterOf cs p = None) ps then LeastBytes_makeCounters ps else cs) = cs'"
    by (simp add: cs'_def)
  from cs' assms(2) obtain c rest where cons: "cs' = c # rest"
    by (cases cs') (metis list.map_disc_iff set_empty set_sort, simp)
  show ?thesis
    using leastIndex_least [of 0 1 cs'] cons
    by (intro exI [of _ "leastIndex 1 0 (lb_bytes c) rest"])
      (simp add: LeastBytes_Balance_def used Let_def msgBytes_def)
qed

lemma countersOf_keys: "lbInv ps cs \<Longrightarrow> map lb_partition (countersOf ps cs) = sort ps"
  using makeCounters_facts(1) by (auto simp: lbInv_def)

lemma keys_update:
  "i < length cs \<Longrightarrow> map lb_partition (cs[i := (cs ! i)\<lparr>lb_bytes := b\<rparr>]) = map lb_partition cs"
  by (simp add: map_update list_update_same_conv)

lemma LeastBytes_chooses:
  assumes "lbInv ps cs" "ps \<noteq> []"
  shows "\<exists>p cs'. LeastBytes_Balance cs msg ps = Ok (p, cs') \<and> p \<in> set ps \<and> lbInv ps cs'"
proof -
  let ?cs = "countersOf ps cs"
  obtain i where i: "i < length ?cs" "LeastBytes_Balance cs msg ps =
      Ok (lb_partition (?cs ! i), ?cs[i := (?cs ! i)\<lparr>lb_bytes := lb_bytes (?cs ! i) + of_nat (msgBytes msg)\<rparr>])"
    using LeastBytes_Balance_step [OF assms, of msg] by blast
  have "lb_partition ` set ?cs = set ps"
    using arg_cong [OF countersOf_keys [OF assms(1)], of set] unfolding set_map set_sort .
  then have "lb_partition (?cs ! i) \<in> set ps"
    using nth_mem [OF i(1)] by blast
  moreover have "lbInv ps (?cs[i := (?cs ! i)\<lparr>lb_bytes := b\<rparr>])" for b
    using keys_update [OF i(1)] countersOf_keys [OF assms(1)] assms(1) unfolding lbInv_def by metis
  ultimately show ?thesis
    using i(2) by blast
qed

interpretation lb: balancer LeastBytes_Balance lbInv
  by unfold_locales (rule LeastBytes_chooses)

text \<open>The bytes of the messages that went to a partition.\<close>

definition routed :: "Message list \<Rightarrow> int list \<Rightarrow> int \<Rightarrow> nat" where
  "routed msgs qs p = (\<Sum>(m, q)\<leftarrow>zip msgs qs. if q = p then msgBytes m else 0)"

lemma routed_snoc:
  "length msgs = length qs \<Longrightarrow> routed (msgs @ [m]) (qs @ [q]) p = routed msgs qs p + (if q = p then msgBytes m else 0)"
  by (simp add: routed_def)

lemma routed_le: "length msgs = length qs \<Longrightarrow> routed msgs qs p \<le> (\<Sum>m\<leftarrow>msgs. msgBytes m)"
  by (induction msgs qs rule: list_induct2) (auto simp: routed_def)

definition lbCounts :: "int list \<Rightarrow> nat \<Rightarrow> Message list \<Rightarrow> int list \<Rightarrow> leastBytesCounter list \<Rightarrow> bool" where
  "lbCounts ps B msgs qs cs \<longleftrightarrow>
     lbInv ps cs \<and> length qs = length msgs \<and>
     (\<forall>k<length (countersOf ps cs). unat (lb_bytes (countersOf ps cs ! k)) = routed msgs qs (lb_partition (countersOf ps cs ! k))) \<and>
     (\<forall>p\<in>set ps. \<forall>q\<in>set ps. routed msgs qs p \<le> routed msgs qs q + B)"

lemma countersOf_at:
  assumes "lbInv ps cs" "p \<in> set ps"
  obtains k where "k < length (countersOf ps cs)" "lb_partition (countersOf ps cs ! k) = p"
proof -
  have "p \<in> lb_partition ` set (countersOf ps cs)"
    using arg_cong [OF countersOf_keys [OF assms(1)], of set] assms(2) unfolding set_map set_sort by simp
  then show ?thesis using that by (metis (no_types, lifting) imageE in_set_conv_nth)
qed

lemma countersOf_distinct:
  assumes "lbInv ps cs" "i < length (countersOf ps cs)" "k < length (countersOf ps cs)"
    "lb_partition (countersOf ps cs ! i) = lb_partition (countersOf ps cs ! k)"
  shows "i = k"
proof -
  have "distinct (map lb_partition (countersOf ps cs))"
    unfolding countersOf_keys [OF assms(1)] using assms(1) by (simp add: lbInv_def)
  then show ?thesis
    using assms(2-4) nth_eq_iff_index_eq [of "map lb_partition (countersOf ps cs)" i k] by simp
qed

lemma lbCounts_step:
  assumes "lbCounts ps B msgs qs cs" "ps \<noteq> []" "msgBytes m \<le> B" "(\<Sum>m\<leftarrow>msgs @ [m]. msgBytes m) < 2 ^ 64"
  shows "\<exists>q cs'. LeastBytes_Balance cs m ps = Ok (q, cs') \<and> lbCounts ps B (msgs @ [m]) (qs @ [q]) cs'"
proof -
  let ?cs = "countersOf ps cs"
  have inv: "lbInv ps cs" and len: "length msgs = length qs"
    and bytes: "\<And>k. k < length ?cs \<Longrightarrow> unat (lb_bytes (?cs ! k)) = routed msgs qs (lb_partition (?cs ! k))"
    and spread: "\<And>p q. p \<in> set ps \<Longrightarrow> q \<in> set ps \<Longrightarrow> routed msgs qs p \<le> routed msgs qs q + B"
    using assms(1) by (simp_all add: lbCounts_def)
  obtain i where i: "i < length ?cs" "\<And>k. k < length ?cs \<Longrightarrow> lb_bytes (?cs ! i) \<le> lb_bytes (?cs ! k)"
    and res: "LeastBytes_Balance cs m ps =
      Ok (lb_partition (?cs ! i), ?cs[i := (?cs ! i)\<lparr>lb_bytes := lb_bytes (?cs ! i) + of_nat (msgBytes m)\<rparr>])"
    using LeastBytes_Balance_step [OF inv assms(2), of m] by blast
  define c' where "c' = (?cs ! i)\<lparr>lb_bytes := lb_bytes (?cs ! i) + of_nat (msgBytes m)\<rparr>"
  define q where "q = lb_partition (?cs ! i)"
  define cs' where "cs' = ?cs[i := c']"
  have cs'_ne: "cs' \<noteq> []" using i(1) by (auto simp: cs'_def)
  have inv': "lbInv ps cs'"
    using keys_update [OF i(1)] countersOf_keys [OF inv] inv unfolding lbInv_def cs'_def c'_def by metis
  have least: "routed msgs qs q \<le> routed msgs qs p" if p: "p \<in> set ps" for p
  proof -
    obtain k where k: "k < length ?cs" "lb_partition (?cs ! k) = p"
      using countersOf_at [OF inv p] .
    have "unat (lb_bytes (?cs ! i)) \<le> unat (lb_bytes (?cs ! k))"
      using i(2) [OF k(1)] by (simp only: word_le_nat_alt)
    then show ?thesis
      unfolding bytes [OF i(1)] bytes [OF k(1)] k(2) q_def .
  qed
  have small: "unat (lb_bytes (?cs ! i)) + msgBytes m < 2 ^ 64"
    using routed_le [OF len, of "lb_partition (?cs ! i)"] bytes [OF i(1)] assms(4) by simp
  have c': "unat (lb_bytes c') = routed (msgs @ [m]) (qs @ [q]) q"
    using small bytes [OF i(1)] len
    by (simp add: c'_def q_def routed_snoc unat_word_ariths unat_of_nat mod_simps)
  have "unat (lb_bytes (cs' ! k)) = routed (msgs @ [m]) (qs @ [q]) (lb_partition (cs' ! k))" if "k < length cs'" for k
  proof (cases "k = i")
    case True
    then show ?thesis
      using c' i(1) by (simp add: cs'_def q_def) (simp add: c'_def)
  next
    case False
    then have "q \<noteq> lb_partition (?cs ! k)"
      using countersOf_distinct [OF inv i(1), of k] that by (auto simp: q_def cs'_def)
    then show ?thesis
      using False bytes [of k] that len by (simp add: cs'_def routed_snoc)
  qed
  moreover have "routed (msgs @ [m]) (qs @ [q]) p \<le> routed (msgs @ [m]) (qs @ [q]) p' + B" if "p \<in> set ps" "p' \<in> set ps" for p p'
    using spread [OF that] least [OF that(2)] assms(3) len by (auto simp: routed_snoc)
  ultimately have "lbCounts ps B (msgs @ [m]) (qs @ [q]) cs'"
    using inv' len cs'_ne by (simp add: lbCounts_def)
  then show ?thesis
    using res unfolding q_def cs'_def c'_def by blast
qed

lemma LeastBytes_run:
  assumes "distinct ps" "ps \<noteq> []" "\<forall>m\<in>set msgs. msgBytes m \<le> B" "(\<Sum>m\<leftarrow>msgs. msgBytes m) < 2 ^ 64"
  shows "\<exists>qs cs. balanceAll LeastBytes_Balance ps [] msgs = Ok (qs, cs) \<and> lbCounts ps B msgs qs cs"
  using assms(3,4)
proof (induction msgs rule: rev_induct)
  case Nil
  have "lb_bytes c = 0" if "c \<in> set (LeastBytes_makeCounters ps)" for c
    using makeCounters_facts(2) [OF that] .
  then show ?case
    using assms(1) by (simp add: lbCounts_def lbInv_def routed_def)
next
  case (snoc m msgs)
  then obtain qs cs where run: "balanceAll LeastBytes_Balance ps [] msgs = Ok (qs, cs)" "lbCounts ps B msgs qs cs"
    by auto
  obtain q cs' where "LeastBytes_Balance cs m ps = Ok (q, cs')" "lbCounts ps B (msgs @ [m]) (qs @ [q]) cs'"
    using lbCounts_step [OF run(2) assms(2) _ snoc.prems(2)] snoc.prems(1) by auto
  with run(1) show ?case
    by (simp add: lb.balanceAll_append)
qed

subsection \<open>Hashing\<close>

interpretation hb: steady_balancer Hash_Balance "\<lambda>ps. ps = map int [0..<length ps] \<and> length ps < 2 ^ 63"
proof
  fix ps :: "int list" and h msg
  assume ps: "ps = map int [0..<length ps] \<and> length ps < 2 ^ 63" "ps \<noteq> []"
  have "x mod int (length ps) \<in> set ps" for x
    by (subst (2) ps(1) [THEN conjunct1]) (use ps(2) in \<open>simp add: image_iff Bex_def nat_less_iff exI [of _ "nat (x mod int (length ps))"]\<close>)
  moreover have "\<not> x mod int (length ps) < 0" for x
    using ps(2) by (simp add: not_less)
  ultimately show "\<exists>p s'. Hash_Balance h msg ps = Ok (p, s') \<and> p \<in> set ps"
    using ps rr.chooses_offered [of ps "hb_rr h" msg]
    by (auto simp: Hash_Balance_def Let_def split: option.split)
qed

text \<open>Values of the hash that its authors publish.\<close>

lemma fnv1a_vectors: "fnv1a [] = 0x811c9dc5" "fnv1a (lit ''a'') = 0xe40c292c" "fnv1a (lit ''foobar'') = 0xbf9cf968"
  by (simp_all add: fnv1a_def lit_def of_char_def)

subsection \<open>Properties\<close>

text \<open>Round robin is fair: when \<open>k\<close> messages go to \<open>n\<close> partitions, from whatever state of the balancer,
  every partition gets \<open>k div n\<close> of them or one more. (The counter has 64 bits; the statement holds up to the call in
  which it wraps.)\<close>

theorem RoundRobin_fair:
  assumes "distinct ps" "p \<in> set ps" "length ps < 2 ^ 63" "unat off + length msgs \<le> 2 ^ 64"
  shows "\<exists>qs. balanceAll RoundRobin_Balance ps off msgs = Ok (qs, off + of_nat (length msgs)) \<and>
    count_list qs p \<in> {length msgs div length ps, length msgs div length ps + 1}"
proof -
  obtain j where "j < length ps" "ps ! j = p"
    using assms(2) by (auto simp: in_set_conv_nth)
  with count_list_rotation [OF assms(1), of j "unat off" "length msgs"] RoundRobin_all [of ps off msgs] assms
  show ?thesis by (cases "ps = []") simp_all
qed

theorem RoundRobin_fair_witness:
  "\<exists>qs. balanceAll RoundRobin_Balance [0, 1, 2] 7 (replicate 4 zeroMessage) = Ok (qs, 11) \<and> count_list qs 1 \<in> {1, 2}"
  using RoundRobin_fair [of "[0, 1, 2]" 1 7 "replicate 4 zeroMessage"] by (simp, simp add: numeral_2_eq_2)

text \<open>C21. \<open>LeastBytes\<close> keeps partitions level: when no message has more than \<open>B\<close> bytes, the bytes that went to two
  partitions never differ by more than \<open>B\<close>. Every message goes to one of the partitions.\<close>

theorem LeastBytes_level:
  assumes "distinct ps" "ps \<noteq> []" "\<forall>m\<in>set msgs. msgBytes m \<le> B" "(\<Sum>m\<leftarrow>msgs. msgBytes m) < 2 ^ 64"
  shows "\<exists>qs cs. balanceAll LeastBytes_Balance ps [] msgs = Ok (qs, cs) \<and> length qs = length msgs \<and> set qs \<subseteq> set ps \<and>
    (\<forall>p\<in>set ps. \<forall>q\<in>set ps. routed msgs qs p \<le> routed msgs qs q + B)"
proof -
  obtain qs cs where "balanceAll LeastBytes_Balance ps [] msgs = Ok (qs, cs)" "lbCounts ps B msgs qs cs"
    using LeastBytes_run [OF assms] by blast
  moreover have "set qs \<subseteq> set ps"
    using lb.balanceAll_chooses [of ps "[]" msgs] assms(1,2) calculation(1) by (auto simp: lbInv_def)
  ultimately show ?thesis
    by (auto simp: lbCounts_def)
qed

theorem LeastBytes_level_witness:
  "\<exists>qs cs. balanceAll LeastBytes_Balance [4, 2] [] [zeroMessage\<lparr>msg_Value := Some [1, 2]\<rparr>, zeroMessage] = Ok (qs, cs) \<and>
    length qs = 2 \<and> set qs \<subseteq> {4, 2} \<and>
    (\<forall>p\<in>{4, 2}. \<forall>q\<in>{4, 2}. routed [zeroMessage\<lparr>msg_Value := Some [1, 2]\<rparr>, zeroMessage] qs p \<le>
      routed [zeroMessage\<lparr>msg_Value := Some [1, 2]\<rparr>, zeroMessage] qs q + 2)"
  using LeastBytes_level [of "[4, 2]" "[zeroMessage\<lparr>msg_Value := Some [1, 2]\<rparr>, zeroMessage]" 2]
  by (simp add: msgBytes_def zeroMessage_def, simp add: numeral_2_eq_2)

text \<open>
  The invariants of the interpretations are needed: \<open>Hash\<close> returns the index of a partition, which need not be one when they are
  not numbered from 0, and \<open>LeastBytes\<close> keeps its counters when the list of partitions shrinks, and goes on choosing one
  that is gone.
\<close>

lemma balancers_absent_partition:
  "\<exists>p s. Hash_Balance \<lparr>hb_rr = 0, hb_Hasher = None\<rparr> (zeroMessage\<lparr>msg_Key := Some []\<rparr>) [3, 4] = Ok (p, s) \<and> p \<notin> {3, 4}"
  "\<exists>p s cs. LeastBytes_Balance [] zeroMessage [1, 2] = Ok (p, cs) \<and> LeastBytes_Balance cs zeroMessage [2] = Ok (1, s)"
proof -
  show "\<exists>p s. Hash_Balance \<lparr>hb_rr = 0, hb_Hasher = None\<rparr> (zeroMessage\<lparr>msg_Key := Some []\<rparr>) [3, 4] = Ok (p, s) \<and> p \<notin> {3, 4}"
    by (simp add: Hash_Balance_def zeroMessage_def Let_def fnv1a_def)
  show "\<exists>p s cs. LeastBytes_Balance [] zeroMessage [1, 2] = Ok (p, cs) \<and> LeastBytes_Balance cs zeroMessage [2] = Ok (1, s)"
    by (simp add: LeastBytes_Balance_def LeastBytes_counterOf_def sortSearch_def searchLoop.simps LeastBytes_makeCounters_def
        Let_def zeroMessage_def)
qed

text \<open>\<open>Hash\<close> sends the messages of one key to one partition: whatever the states of two balancers with the same
  hasher, two messages with equal keys get the same number, which is below the number of partitions.\<close>

theorem Hash_consistent:
  assumes "msg_Key m = Some key" "msg_Key m' = Some key" "hb_Hasher h = hb_Hasher h'" "ps \<noteq> []"
  shows "\<exists>p. Hash_Balance h m ps = Ok (p, h) \<and> Hash_Balance h' m' ps = Ok (p, h') \<and> 0 \<le> p \<and> p < int (length ps)"
proof -
  have "\<not> x mod int (length ps) < 0" "x mod int (length ps) < int (length ps)" for x
    using assms(4) by (simp_all add: not_less)
  then show ?thesis
    using assms by (simp add: Hash_Balance_def Let_def)
qed

theorem Hash_consistent_witness:
  "\<exists>p. Hash_Balance \<lparr>hb_rr = 0, hb_Hasher = None\<rparr> (zeroMessage\<lparr>msg_Key := Some [7]\<rparr>) [0, 1] = Ok (p, \<lparr>hb_rr = 0, hb_Hasher = None\<rparr>) \<and>
    Hash_Balance \<lparr>hb_rr = 5, hb_Hasher = None\<rparr> (zeroMessage\<lparr>msg_Key := Some [7], msg_Value := Some [1]\<rparr>) [0, 1] =
      Ok (p, \<lparr>hb_rr = 5, hb_Hasher = None\<rparr>) \<and> 0 \<le> p \<and> p < 2"
  using Hash_consistent [of "zeroMessage\<lparr>msg_Key := Some [7]\<rparr>" "[7]" "zeroMessage\<lparr>msg_Key := Some [7], msg_Value := Some [1]\<rparr>"
      "\<lparr>hb_rr = 0, hb_Hasher = None\<rparr>" "\<lparr>hb_rr = 5, hb_Hasher = None\<rparr>" "[0, 1]"] by simp

end
