(* ===== verification/Stats.thy ===== *)
theory Stats
  imports Prelude
begin

section \<open>Counters and summaries (stats.go)\<close>

text \<open>
  The atomic counters behind the statistics of readers and writers. A cell is a 64 bit word. The loops around
  compare-and-swap end in their first iteration unless another goroutine changes the cell in between; an operation
  is modelled as one atomic step. The average of a summary is computed in floating point numbers; that computation,
  \<open>int64(float64(sum) / float64(count))\<close>, is a parameter.
\<close>

definition counter_observe :: "int64 \<Rightarrow> int64 \<Rightarrow> int64" where
  "counter_observe v c = c + v"

definition counter_snapshot :: "int64 \<Rightarrow> int64 \<times> int64" where
  "counter_snapshot c = (let v = c in (v, c + - v))"

definition gauge_observe :: "int64 \<Rightarrow> int64 \<Rightarrow> int64" where
  "gauge_observe v g = v"

definition gauge_snapshot :: "int64 \<Rightarrow> int64 \<times> int64" where
  "gauge_snapshot g = (g, g)"

definition minimum_observe :: "int64 \<Rightarrow> int64 \<Rightarrow> int64" where
  "minimum_observe v m = (if sint m \<ge> 0 \<and> sint m \<le> sint v then m else v)"

definition minimum_snapshot :: "int64 \<Rightarrow> int64 \<times> int64" where
  "minimum_snapshot m = (if sint m < 0 then 0 else m, - 1)"

definition maximum_observe :: "int64 \<Rightarrow> int64 \<Rightarrow> int64" where
  "maximum_observe v m = (if sint m \<ge> 0 \<and> sint m \<ge> sint v then m else v)"

definition maximum_snapshot :: "int64 \<Rightarrow> int64 \<times> int64" where
  "maximum_snapshot m = (if sint m < 0 then 0 else m, - 1)"

record summary =
  sm_min :: int64
  sm_max :: int64
  sm_sum :: int64
  sm_count :: int64

definition makeSummary :: summary where
  "makeSummary = \<lparr>sm_min = - 1, sm_max = - 1, sm_sum = 0, sm_count = 0\<rparr>"

text \<open>A \<open>summary\<close> that was not initialised.\<close>

definition zeroSummary :: summary where
  "zeroSummary = \<lparr>sm_min = 0, sm_max = 0, sm_sum = 0, sm_count = 0\<rparr>"

definition summary_observe :: "int64 \<Rightarrow> summary \<Rightarrow> summary" where
  "summary_observe v s =
     \<lparr>sm_min = minimum_observe v (sm_min s), sm_max = maximum_observe v (sm_max s),
      sm_sum = counter_observe v (sm_sum s), sm_count = counter_observe 1 (sm_count s)\<rparr>"

record SummaryStats =
  ss_Avg :: int64
  ss_Min :: int64
  ss_Max :: int64

definition summary_snapshot :: "(int64 \<Rightarrow> int64 \<Rightarrow> int64) \<Rightarrow> summary \<Rightarrow> SummaryStats \<times> summary" where
  "summary_snapshot quot s =
     (let (min, m) = minimum_snapshot (sm_min s);
          (max, M) = maximum_snapshot (sm_max s);
          (sum, s') = counter_snapshot (sm_sum s);
          (count, c) = counter_snapshot (sm_count s)
      in (\<lparr>ss_Avg = (if count \<noteq> 0 then quot sum count else 0), ss_Min = min, ss_Max = max\<rparr>,
          \<lparr>sm_min = m, sm_max = M, sm_sum = s', sm_count = c\<rparr>))"

subsection \<open>A window of observations\<close>

lemma summary_observations:
  assumes "vs \<noteq> []" "\<forall>v\<in>set vs. 0 \<le> sint v"
  shows "fold summary_observe vs \<lparr>sm_min = m, sm_max = M, sm_sum = t, sm_count = n\<rparr> =
    \<lparr>sm_min = word_of_int (if 0 \<le> sint m then min (sint m) (Min (sint ` set vs)) else Min (sint ` set vs)),
     sm_max = word_of_int (if 0 \<le> sint M then max (sint M) (Max (sint ` set vs)) else Max (sint ` set vs)),
     sm_sum = t + sum_list vs, sm_count = n + of_nat (length vs)\<rparr>"
  using assms
proof (induction vs arbitrary: m M t n)
  case (Cons v vs)
  show ?case
  proof (cases "vs = []")
    case True
    with Cons.prems show ?thesis
      by (auto simp: summary_observe_def minimum_observe_def maximum_observe_def counter_observe_def min_def max_def)
  next
    case False
    with Cons show ?thesis
      by (simp add: summary_observe_def minimum_observe_def maximum_observe_def counter_observe_def ac_simps)
        (auto simp: min_def max_def)
  qed
qed simp

text \<open>A summary made by \<open>makeSummary\<close> reports the smallest and the largest observation since the last snapshot, which
  leaves it as \<open>makeSummary\<close> makes it. One that was left uninitialised reports 0 as the smallest of its first
  window. (Observations are sizes and durations, which are not negative; fewer than \<open>2 ^ 64\<close> in a window.)\<close>

theorem summary_window:
  assumes "vs \<noteq> []" "\<forall>v\<in>set vs. 0 \<le> sint v" "length vs < 2 ^ 64"
  shows "summary_snapshot quot (fold summary_observe vs makeSummary) =
      (\<lparr>ss_Avg = quot (sum_list vs) (of_nat (length vs)), ss_Min = word_of_int (Min (sint ` set vs)),
        ss_Max = word_of_int (Max (sint ` set vs))\<rparr>, makeSummary) \<and>
    ss_Min (fst (summary_snapshot quot (fold summary_observe vs zeroSummary))) = 0"
proof -
  have "Min (sint ` set vs) \<in> sint ` set vs" "Max (sint ` set vs) \<in> sint ` set vs"
    using assms(1) by simp_all
  then have "\<not> sint (word_of_int (Min (sint ` set vs)) :: int64) < 0" "\<not> sint (word_of_int (Max (sint ` set vs)) :: int64) < 0"
    using assms(2) by (auto simp: not_less)
  moreover have "(of_nat (length vs) :: int64) \<noteq> 0"
    using assms(1,3) nat_dvd_not_less [of "length vs" "2 ^ 64"] by (simp add: word_of_nat_eq_0_iff)
  moreover have "min 0 (Min (sint ` set vs)) = 0"
    using assms(1,2) by (simp add: min_def)
  ultimately show ?thesis
    by (simp add: makeSummary_def zeroSummary_def summary_observations [OF assms(1,2)] summary_snapshot_def Let_def
        minimum_snapshot_def maximum_snapshot_def counter_snapshot_def)
qed

theorem summary_window_witness:
  "summary_snapshot (\<lambda>s n. s div n) (fold summary_observe [5, 3] makeSummary) =
      (\<lparr>ss_Avg = 4, ss_Min = 3, ss_Max = 5\<rparr>, makeSummary) \<and>
    ss_Min (fst (summary_snapshot (\<lambda>s n. s div n) (fold summary_observe [5, 3] zeroSummary))) = 0"
  using summary_window [of "[5, 3]" "\<lambda>s n. s div n"] by simp

end
