(* ===== verification/ConnCore.thy ===== *)
theory ConnCore
  imports Decode GoTime
begin

section \<open>A connection: requests and responses (conn.go)\<close>

text \<open>
  The part of \<open>Conn\<close> that every operation goes through: deadlines, the write of a request under a new
  correlation identifier, the wait for its response, and the closing of the connection on errors. The
  operations of one goroutine are state transformers of the record \<open>Conn\<close>; the locks, which only order
  goroutines, have no counterpart here (the theory \<open>ConnSched\<close> models several goroutines on a connection).

  The network connection is what is outside of the program: the bytes it accepted, the error a write meets
  (if any), whether it was closed, the deadlines it was given. The bytes that the broker sends and the error
  after them are in the reader \<open>cn_rbuf\<close>. An operation that does not return has the value \<open>None\<close>.
\<close>

subsection \<open>The network and the deadlines\<close>

record network =
  nt_closed :: bool
  nt_werr :: "go_error option"
  nt_sent :: "byte list"
  nt_rdeadline :: gotime
  nt_wdeadline :: gotime

text \<open>\<open>rconn\<close> and \<open>wconn\<close> are either nil or the network connection of the \<open>Conn\<close>.\<close>

record connDeadline =
  dl_value :: gotime
  dl_rconn :: bool
  dl_wconn :: bool

definition connDeadline_setDeadline :: "gotime \<Rightarrow> connDeadline \<times> network \<Rightarrow> connDeadline \<times> network" where
  "connDeadline_setDeadline t dn =
     (let (d, net) = dn;
          d = d\<lparr>dl_value := t\<rparr>;
          net = (if dl_rconn d then net\<lparr>nt_rdeadline := t\<rparr> else net);
          net = (if dl_wconn d then net\<lparr>nt_wdeadline := t\<rparr> else net)
      in (d, net))"

definition connDeadline_setConnReadDeadline :: "connDeadline \<times> network \<Rightarrow> connDeadline \<times> network" where
  "connDeadline_setConnReadDeadline dn =
     (let (d, net) = dn in (d\<lparr>dl_rconn := True\<rparr>, net\<lparr>nt_rdeadline := dl_value d\<rparr>))"

definition connDeadline_setConnWriteDeadline :: "connDeadline \<times> network \<Rightarrow> connDeadline \<times> network" where
  "connDeadline_setConnWriteDeadline dn =
     (let (d, net) = dn in (d\<lparr>dl_wconn := True\<rparr>, net\<lparr>nt_wdeadline := dl_value d\<rparr>))"

definition connDeadline_unsetConnReadDeadline :: "connDeadline \<times> network \<Rightarrow> connDeadline \<times> network" where
  "connDeadline_unsetConnReadDeadline dn = (let (d, net) = dn in (d\<lparr>dl_rconn := False\<rparr>, net))"

definition connDeadline_unsetConnWriteDeadline :: "connDeadline \<times> network \<Rightarrow> connDeadline \<times> network" where
  "connDeadline_unsetConnWriteDeadline dn = (let (d, net) = dn in (d\<lparr>dl_wconn := False\<rparr>, net))"

subsection \<open>The connection\<close>

record ApiVersionRange =
  av_ApiKey :: int16
  av_MinVersion :: int16
  av_MaxVersion :: int16

record Conn =
  cn_net :: network
  cn_offset :: int64
  cn_rbuf :: bufio_reader
  cn_wdeadline :: connDeadline
  cn_rdeadline :: connDeadline
  cn_clientID :: gostring
  cn_topic :: gostring
  cn_partition :: int32
  cn_fetchMaxBytes :: int32
  cn_fetchMinSize :: int32
  cn_correlationID :: int32
  cn_requiredAcks :: int32
  cn_apiVersions :: "int16 \<rightharpoonup> ApiVersionRange"
  cn_fetchVersion :: int16

text \<open>Which of its two deadlines an operation of the connection is given a pointer to.\<close>

datatype which_deadline = RDeadline | WDeadline

definition onDeadline :: "which_deadline \<Rightarrow> (connDeadline \<times> network \<Rightarrow> connDeadline \<times> network) \<Rightarrow> Conn \<Rightarrow> Conn" where
  "onDeadline d f c =
     (case d of
        RDeadline \<Rightarrow> (let (x, net) = f (cn_rdeadline c, cn_net c) in c\<lparr>cn_rdeadline := x, cn_net := net\<rparr>)
      | WDeadline \<Rightarrow> (let (x, net) = f (cn_wdeadline c, cn_net c) in c\<lparr>cn_wdeadline := x, cn_net := net\<rparr>))"

definition deadlineOf :: "which_deadline \<Rightarrow> Conn \<Rightarrow> gotime" where
  "deadlineOf d c = dl_value (case d of RDeadline \<Rightarrow> cn_rdeadline c | WDeadline \<Rightarrow> cn_wdeadline c)"

definition Conn_Close :: "Conn \<Rightarrow> Conn" where
  "Conn_Close c = c\<lparr>cn_net := (cn_net c)\<lparr>nt_closed := True\<rparr>\<rparr>"

definition Conn_SetReadDeadline :: "gotime \<Rightarrow> Conn \<Rightarrow> Conn" where
  "Conn_SetReadDeadline t = onDeadline RDeadline (connDeadline_setDeadline t)"

definition Conn_SetWriteDeadline :: "gotime \<Rightarrow> Conn \<Rightarrow> Conn" where
  "Conn_SetWriteDeadline t = onDeadline WDeadline (connDeadline_setDeadline t)"

definition Conn_SetDeadline :: "gotime \<Rightarrow> Conn \<Rightarrow> Conn" where
  "Conn_SetDeadline t c =
     onDeadline WDeadline (connDeadline_setDeadline t) (onDeadline RDeadline (connDeadline_setDeadline t) c)"

subsection \<open>Operations\<close>

text \<open>An operation on a connection, and the sequence of two.\<close>

type_synonym 'a conn_op = "Conn \<Rightarrow> ((go_error, 'a) result \<times> Conn) option"

definition cret :: "'a \<Rightarrow> 'a conn_op" where
  "cret x c = Some (Ok x, c)"

definition cfail :: "go_error \<Rightarrow> 'a conn_op" where
  "cfail e c = Some (Err e, c)"

definition cbind :: "'a conn_op \<Rightarrow> ('a \<Rightarrow> 'b conn_op) \<Rightarrow> 'b conn_op" where
  "cbind m f c =
     (case m c of
        None \<Rightarrow> None
      | Some (Ok x, c) \<Rightarrow> f x c
      | Some (Err e, c) \<Rightarrow> Some (Err e, c)
      | Some (Panic p, c) \<Rightarrow> Some (Panic p, c))"

text \<open>
  \<open>wbuf.Flush\<close> after a request was written to the buffer. The buffer is empty between two requests: a
  request is flushed at its end, and the connection is closed when that fails. A write to a closed network
  connection fails with a \<open>net.Error\<close>.
\<close>

definition Conn_Flush :: "byte list \<Rightarrow> unit conn_op" where
  "Conn_Flush bs c =
     (let net = cn_net c in
      if nt_closed net then Some (Err (NetError False False), c)
      else (case nt_werr net of
          Some e \<Rightarrow> Some (Err e, c)
        | None \<Rightarrow> Some (Ok (), c\<lparr>cn_net := net\<lparr>nt_sent := nt_sent net @ bs\<rparr>\<rparr>)))"

text \<open>A decoder applied to the read buffer, within a response of which \<open>size\<close> bytes are left.\<close>

definition readRbuf :: "'a reader \<Rightarrow> int \<Rightarrow> 'a conn_op" where
  "readRbuf p sz c = (case p (cn_rbuf c, sz) of (res, r, _) \<Rightarrow> Some (res, c\<lparr>cn_rbuf := r\<rparr>))"

definition peekResponseSizeAndID :: "bufio_reader \<Rightarrow> (go_error, int32 \<times> int32) result" where
  "peekResponseSizeAndID r =
     (case Peek r 8 of
        (_, Some e) \<Rightarrow> Err e
      | (b, None) \<Rightarrow>
          (case (makeInt32 (take 4 b), makeInt32 (drop 4 b)) of
             (Ok rsz, Ok rid) \<Rightarrow> Ok (rsz, rid)
           | _ \<Rightarrow> Panic IndexOutOfRange))"

definition skipResponseSizeAndID :: "Conn \<Rightarrow> Conn" where
  "skipResponseSizeAndID c = (case Discard (cn_rbuf c) 8 of (_, _, r) \<Rightarrow> c\<lparr>cn_rbuf := r\<rparr>)"

definition doRequest :: "which_deadline \<Rightarrow> (gotime \<Rightarrow> int32 \<Rightarrow> unit conn_op) \<Rightarrow> int32 conn_op" where
  "doRequest d write c =
     (let c = c\<lparr>cn_correlationID := cn_correlationID c + 1\<rparr>;
          id = cn_correlationID c;
          c = onDeadline d connDeadline_setConnWriteDeadline c
      in (case write (deadlineOf d c) id c of
            None \<Rightarrow> None
          | Some (Panic p, c) \<Rightarrow> Some (Panic p, c)
          | Some (Ok _, c) \<Rightarrow> Some (Ok id, onDeadline d connDeadline_unsetConnWriteDeadline c)
          | Some (Err e, c) \<Rightarrow> Some (Err e, Conn_Close (onDeadline d connDeadline_unsetConnWriteDeadline c))))"

text \<open>The loop peeks at the identifier of the next response until it is the one of the request.\<close>

partial_function (option) waitResponse ::
  "which_deadline \<Rightarrow> int32 \<Rightarrow> Conn \<Rightarrow> ((go_error, gotime \<times> int) result \<times> Conn) option" where
  "waitResponse d corr c =
     (let c = onDeadline d connDeadline_setConnReadDeadline c in
      case peekResponseSizeAndID (cn_rbuf c) of
        Err e \<Rightarrow> Some (Err e, Conn_Close (onDeadline d connDeadline_unsetConnReadDeadline c))
      | Panic p \<Rightarrow> Some (Panic p, c)
      | Ok (rsz, rid) \<Rightarrow>
          (if corr = rid then Some (Ok (deadlineOf d c, sint (rsz - 4)), skipResponseSizeAndID c)
           else waitResponse d corr c))"

definition Conn_do ::
  "which_deadline \<Rightarrow> (gotime \<Rightarrow> int32 \<Rightarrow> unit conn_op) \<Rightarrow> (gotime \<Rightarrow> int \<Rightarrow> 'a conn_op) \<Rightarrow> 'a conn_op" where
  "Conn_do d write read =
     cbind (doRequest d write) (\<lambda>id.
     cbind (waitResponse d id) (\<lambda>(deadline, sz) c.
       case read deadline sz c of
         None \<Rightarrow> None
       | Some (Panic p, c) \<Rightarrow> Some (Panic p, c)
       | Some (Ok x, c) \<Rightarrow> Some (Ok x, onDeadline d connDeadline_unsetConnReadDeadline c)
       | Some (Err e, c) \<Rightarrow>
           let c = (if is_KafkaError e then c else Conn_Close c)
           in Some (Err e, onDeadline d connDeadline_unsetConnReadDeadline c)))"

definition readOperation ::
  "(gotime \<Rightarrow> int32 \<Rightarrow> unit conn_op) \<Rightarrow> (gotime \<Rightarrow> int \<Rightarrow> 'a conn_op) \<Rightarrow> 'a conn_op" where
  "readOperation = Conn_do RDeadline"

definition writeOperation ::
  "(gotime \<Rightarrow> int32 \<Rightarrow> unit conn_op) \<Rightarrow> (gotime \<Rightarrow> int \<Rightarrow> 'a conn_op) \<Rightarrow> 'a conn_op" where
  "writeOperation = Conn_do WDeadline"

definition Conn_writeRequest ::
  "('q \<Rightarrow> int32) \<Rightarrow> (bufio_writer \<Rightarrow> 'q \<Rightarrow> bufio_writer) \<Rightarrow> int16 \<Rightarrow> int16 \<Rightarrow> int32 \<Rightarrow> 'q \<Rightarrow> unit conn_op" where
  "Conn_writeRequest sz wr key ver corr req c = Conn_Flush (writeRequest sz wr [] (cn_clientID c) key ver corr req) c"

text \<open>An operation of the pattern most of them have: a request is written, its response is decoded to the end.\<close>

definition request ::
  "which_deadline \<Rightarrow> ('q \<Rightarrow> int32) \<Rightarrow> (bufio_writer \<Rightarrow> 'q \<Rightarrow> bufio_writer) \<Rightarrow> int16 \<Rightarrow> int16 \<Rightarrow> 'q \<Rightarrow> 'r reader \<Rightarrow> 'r conn_op" where
  "request d sz wr key ver req rd =
     Conn_do d (\<lambda>_ id. Conn_writeRequest sz wr key ver id req) (\<lambda>_ n. readRbuf (expectZeroSize rd) n)"

subsection \<open>One exchange\<close>

text \<open>The response to the request with a correlation identifier, as a broker sends it.\<close>

definition responseBytes :: "int32 \<Rightarrow> byte list \<Rightarrow> byte list" where
  "responseBytes corr body = PutUint32 (of_nat (4 + length body)) @ PutUint32 corr @ body"

definition usable :: "Conn \<Rightarrow> bool" where
  "usable c \<longleftrightarrow> \<not> nt_closed (cn_net c) \<and> nt_werr (cn_net c) = None"

text \<open>The fields of a connection that an exchange leaves alone, and what an exchange does to the others.\<close>

definition sameConfig :: "Conn \<Rightarrow> Conn \<Rightarrow> bool" where
  "sameConfig c c' \<longleftrightarrow>
     cn_offset c' = cn_offset c \<and> cn_clientID c' = cn_clientID c \<and> cn_topic c' = cn_topic c \<and>
     cn_partition c' = cn_partition c \<and> cn_fetchMaxBytes c' = cn_fetchMaxBytes c \<and>
     cn_fetchMinSize c' = cn_fetchMinSize c \<and> cn_requiredAcks c' = cn_requiredAcks c \<and>
     cn_apiVersions c' = cn_apiVersions c \<and> cn_fetchVersion c' = cn_fetchVersion c \<and>
     dl_value (cn_rdeadline c') = dl_value (cn_rdeadline c) \<and> dl_value (cn_wdeadline c') = dl_value (cn_wdeadline c) \<and>
     nt_werr (cn_net c') = nt_werr (cn_net c)"

definition exchanged :: "Conn \<Rightarrow> byte list \<Rightarrow> bufio_reader \<Rightarrow> bool \<Rightarrow> Conn \<Rightarrow> bool" where
  "exchanged c bs r closed c' \<longleftrightarrow>
     sameConfig c c' \<and> cn_correlationID c' = cn_correlationID c + 1 \<and> cn_rbuf c' = r \<and>
     nt_sent (cn_net c') = nt_sent (cn_net c) @ bs \<and> nt_closed (cn_net c') = closed"

lemmas deadline_defs = onDeadline_def connDeadline_setConnReadDeadline_def connDeadline_setConnWriteDeadline_def
  connDeadline_unsetConnReadDeadline_def connDeadline_unsetConnWriteDeadline_def

lemma onDeadline_rbuf [simp]: "cn_rbuf (onDeadline d f c) = cn_rbuf c"
  by (simp add: onDeadline_def split: which_deadline.split prod.split)

lemma makeInt32_PutUint32 [simp]: "makeInt32 (PutUint32 x) = Ok x"
  using Uint32_PutUint32 [of x "[]"] by (simp add: makeInt32_def)

lemma peek_response:
  assumes "rd_bytes r = responseBytes corr body @ rest"
  shows "peekResponseSizeAndID r = Ok (of_nat (4 + length body), corr)"
  using assms by (simp add: peekResponseSizeAndID_def Peek_def bufSize_def responseBytes_def)

lemma response_size: "length body < 2 ^ 31 - 4 \<Longrightarrow> sint (of_nat (4 + length body) - 4 :: int32) = int (length body)"
  using sint_of_nat_small [of "length body", where ?'a = 32] by simp

lemma waitResponse_found:
  assumes "cn_rbuf c = \<lparr>rd_bytes = responseBytes corr body @ rest, rd_err = e\<rparr>" "length body < 2 ^ 31 - 4"
  shows "waitResponse d corr c =
    Some (Ok (deadlineOf d c, int (length body)),
      (onDeadline d connDeadline_setConnReadDeadline c)\<lparr>cn_rbuf := \<lparr>rd_bytes = body @ rest, rd_err = e\<rparr>\<rparr>)"
proof -
  have "deadlineOf d (onDeadline d connDeadline_setConnReadDeadline c) = deadlineOf d c"
    by (cases d) (simp_all add: deadlineOf_def deadline_defs)
  then show ?thesis
    using assms response_size [OF assms(2)]
    by (subst waitResponse.simps)
      (simp add: peek_response [of _ corr body rest] Let_def skipResponseSizeAndID_def Discard_def responseBytes_def)
qed

text \<open>
  A response with another identifier is never consumed: the wait does not return, since in this model no other
  goroutine takes it.
\<close>

lemma waitResponse_sound:
  assumes "waitResponse d corr c = Some y" "peekResponseSizeAndID (cn_rbuf c) = Ok (rsz, rid)"
  shows "rid = corr"
proof -
  have "\<forall>rsz rid. peekResponseSizeAndID (cn_rbuf c) = Ok (rsz, rid) \<longrightarrow> rid = corr"
    by (rule waitResponse.raw_induct [OF _ assms(1)]) (auto simp: Let_def split: if_splits)
  then show ?thesis using assms(2) by blast
qed

lemma waitResponse_other:
  assumes "peekResponseSizeAndID (cn_rbuf c) = Ok (rsz, rid)" "rid \<noteq> corr"
  shows "waitResponse d corr c = None"
  using waitResponse_sound [OF _ assms(1)] assms(2) by (cases "waitResponse d corr c") auto

text \<open>The request of an exchange is written, and the reading of its response keeps what the writing did.\<close>

lemma doRequest_flush:
  assumes "usable c"
    and flush: "\<And>c1. sameConfig c c1 \<Longrightarrow> send (deadlineOf d c) (cn_correlationID c + 1) c1 = Conn_Flush bs c1"
  obtains c' where "doRequest d send c = Some (Ok (cn_correlationID c + 1), c')" "exchanged c bs (cn_rbuf c) False c'"
proof -
  define c1 where "c1 = onDeadline d connDeadline_setConnWriteDeadline (c\<lparr>cn_correlationID := cn_correlationID c + 1\<rparr>)"
  let ?c2 = "onDeadline d connDeadline_unsetConnWriteDeadline
    (c1\<lparr>cn_net := (cn_net c1)\<lparr>nt_sent := nt_sent (cn_net c1) @ bs\<rparr>\<rparr>)"
  have c1: "sameConfig c c1" "nt_closed (cn_net c1) = nt_closed (cn_net c)" "nt_werr (cn_net c1) = nt_werr (cn_net c)"
    "deadlineOf d c1 = deadlineOf d c"
    by (cases d; simp add: c1_def sameConfig_def deadline_defs deadlineOf_def)+
  then have "doRequest d send c = Some (Ok (cn_correlationID c + 1), ?c2)"
    using assms(1) flush [OF c1(1)]
    by (simp add: doRequest_def Let_def c1_def [symmetric] Conn_Flush_def usable_def c1_def [THEN arg_cong, of cn_correlationID])
  moreover have "exchanged c bs (cn_rbuf c) False ?c2"
    using assms(1) by (cases d) (simp_all add: c1_def exchanged_def sameConfig_def deadline_defs usable_def)
  ultimately show thesis by (rule that)
qed

lemma exchanged_read:
  assumes "exchanged c bs r0 closed c'"
  shows "exchanged c bs r closed (onDeadline d connDeadline_unsetConnReadDeadline
      ((onDeadline d connDeadline_setConnReadDeadline c')\<lparr>cn_rbuf := r\<rparr>))"
    and "exchanged c bs r True (onDeadline d connDeadline_unsetConnReadDeadline
      (Conn_Close ((onDeadline d connDeadline_setConnReadDeadline c')\<lparr>cn_rbuf := r\<rparr>)))"
  using assms by (cases d; simp add: exchanged_def sameConfig_def deadline_defs Conn_Close_def)+

lemma Conn_do_response:
  fixes read :: "gotime \<Rightarrow> int \<Rightarrow> 'a conn_op"
  assumes "usable c"
    and "\<And>c1. sameConfig c c1 \<Longrightarrow> send (deadlineOf d c) (cn_correlationID c + 1) c1 = Conn_Flush bs c1"
    and rbuf: "cn_rbuf c = \<lparr>rd_bytes = responseBytes (cn_correlationID c + 1) body @ rest, rd_err = e\<rparr>"
    and len: "length body < 2 ^ 31 - 4"
    and read: "\<And>dl c1. read dl (int (length body)) c1 = readRbuf p (int (length body)) c1"
    and p: "p (\<lparr>rd_bytes = body @ rest, rd_err = e\<rparr>, int (length body)) = (res, r, n)" "\<And>q. res \<noteq> Panic q"
  shows "\<exists>c'. Conn_do d send read c = Some (res, c') \<and>
    exchanged c bs r (\<exists>err. res = Err err \<and> \<not> is_KafkaError err) c'"
proof -
  obtain c' where c': "doRequest d send c = Some (Ok (cn_correlationID c + 1), c')" "exchanged c bs (cn_rbuf c) False c'"
    by (rule doRequest_flush [where send = send and d = d and bs = bs, OF assms(1)]) (use assms(2) in auto)
  let ?c = "(onDeadline d connDeadline_setConnReadDeadline c')\<lparr>cn_rbuf := r\<rparr>"
  have "Conn_do d send read c =
      (case res of Ok x \<Rightarrow> Some (Ok x, onDeadline d connDeadline_unsetConnReadDeadline ?c)
       | Err err \<Rightarrow> Some (Err err, onDeadline d connDeadline_unsetConnReadDeadline
           (if is_KafkaError err then ?c else Conn_Close ?c))
       | Panic q \<Rightarrow> Some (Panic q, ?c))"
    using waitResponse_found [of c' "cn_correlationID c + 1" body rest e d] c' rbuf len p(1)
    by (simp add: exchanged_def Conn_do_def cbind_def read readRbuf_def split: result.split)
  then show ?thesis
    using exchanged_read [OF c'(2), of r d] p(2) by (cases res) auto
qed

text \<open>An exchange whose request is written but whose response is preceded by other bytes does not return.\<close>

lemma Conn_do_stuck:
  assumes "usable c"
    and "\<And>c1. sameConfig c c1 \<Longrightarrow> send (deadlineOf d c) (cn_correlationID c + 1) c1 = Conn_Flush bs c1"
    and "peekResponseSizeAndID (cn_rbuf c) = Ok (rsz, rid)" "rid \<noteq> cn_correlationID c + 1"
  shows "Conn_do d send read c = None"
proof -
  obtain c' where "doRequest d send c = Some (Ok (cn_correlationID c + 1), c')" "exchanged c bs (cn_rbuf c) False c'"
    by (rule doRequest_flush [where send = send and d = d and bs = bs, OF assms(1)]) (use assms(2) in auto)
  then show ?thesis
    using waitResponse_other [of c' rsz rid "cn_correlationID c + 1" d] assms(3,4)
    by (simp add: exchanged_def Conn_do_def cbind_def)
qed

subsection \<open>Errors\<close>

lemma onDeadline_closed [simp]:
  "nt_closed (cn_net (onDeadline d connDeadline_unsetConnReadDeadline c)) = nt_closed (cn_net c)"
  "nt_closed (cn_net (onDeadline d connDeadline_unsetConnWriteDeadline c)) = nt_closed (cn_net c)"
  by (cases d; simp add: deadline_defs)+

lemma Conn_Close_closed [simp]: "nt_closed (cn_net (Conn_Close c))"
  by (simp add: Conn_Close_def)

lemma waitResponse_error: "waitResponse d corr c = Some (Err e, c') \<Longrightarrow> nt_closed (cn_net c')"
proof -
  have "\<forall>e c'. y = (Err e, c') \<longrightarrow> nt_closed (cn_net c')" if "waitResponse d corr c = Some y" for y
    by (rule waitResponse.raw_induct [OF _ that]) (auto simp: Let_def split: result.splits if_splits)
  then show "waitResponse d corr c = Some (Err e, c') \<Longrightarrow> nt_closed (cn_net c')" by blast
qed

lemma doRequest_error: "doRequest d send c = Some (Err e, c') \<Longrightarrow> nt_closed (cn_net c')"
  by (auto simp: doRequest_def Let_def split: option.splits result.splits prod.splits)

text \<open>An operation that fails with anything but an error code of the broker has closed the connection.\<close>

lemma Conn_do_error:
  assumes "Conn_do d send read c = Some (Err e, c')"
  shows "is_KafkaError e \<or> nt_closed (cn_net c')"
proof (cases "doRequest d send c")
  case (Some y)
  show ?thesis
  proof (cases y rule: prod.exhaust)
    case (Pair res c1)
    show ?thesis
    proof (cases res)
      case (Ok corr)
      obtain wres c2 where w: "waitResponse d corr c1 = Some (wres, c2)"
        using assms Some Pair Ok by (cases "waitResponse d corr c1") (auto simp: Conn_do_def cbind_def)
      then show ?thesis
        using assms Some Pair Ok waitResponse_error [of d corr c1]
        by (cases wres) (auto simp: Conn_do_def cbind_def Let_def split: option.splits result.splits if_splits)
    qed (use assms Some Pair doRequest_error [of d send c] in \<open>auto simp: Conn_do_def cbind_def\<close>)
  qed
qed (use assms in \<open>simp add: Conn_do_def cbind_def\<close>)

subsection \<open>The interface of a request and its response\<close>

text \<open>
  A client of the connection relies on the sizes and encodings of a request type and on the encoding and
  decoding of its response type. What follows from these laws for the exchange of one request is proved once.
\<close>

locale request_response = req: sized sz wr + res: decodable rwr rd ok
  for sz :: "'q \<Rightarrow> int32" and wr :: "bufio_writer \<Rightarrow> 'q \<Rightarrow> bufio_writer"
    and rwr :: "bufio_writer \<Rightarrow> 'r \<Rightarrow> bufio_writer" and rd :: "'r reader" and ok :: "'r \<Rightarrow> bool"
begin

lemma request_answered:
  assumes "usable c" "ok x" "length (rwr [] x) < 2 ^ 31 - 4"
    and "cn_rbuf c = \<lparr>rd_bytes = responseBytes (cn_correlationID c + 1) (rwr [] x) @ rest, rd_err = e\<rparr>"
  shows "\<exists>bs c'. request d sz wr key ver q rd c = Some (Ok x, c') \<and>
    bs = writeRequest sz wr [] (cn_clientID c) key ver (cn_correlationID c + 1) q \<and> framed bs \<and>
    exchanged c bs \<lparr>rd_bytes = rest, rd_err = e\<rparr> False c'"
proof -
  let ?bs = "writeRequest sz wr [] (cn_clientID c) key ver (cn_correlationID c + 1) q"
  have "Conn_writeRequest sz wr key ver (cn_correlationID c + 1) q c1 = Conn_Flush ?bs c1" if "sameConfig c c1" for c1
    using that by (simp add: Conn_writeRequest_def sameConfig_def)
  moreover have "framed ?bs"
    using req.writeRequest_framed [of "[]" "cn_clientID c" key ver "cn_correlationID c + 1" q] by simp
  ultimately show ?thesis
    using Conn_do_response [OF assms(1) _ assms(4,3), where p = "expectZeroSize rd" and res = "Ok x" and bs = ?bs and
        d = d and read = "\<lambda>_ n. readRbuf (expectZeroSize rd) n" and
        send = "\<lambda>_ id. Conn_writeRequest sz wr key ver id q"] res.read_response [OF assms(2), of rest e]
    by (simp add: request_def)
qed

end

subsection \<open>Properties\<close>

text \<open>A connection with given incoming bytes, for instances of the properties.\<close>

definition exampleConn :: "bool \<Rightarrow> byte list \<Rightarrow> Conn" where
  "exampleConn closed incoming =
     \<lparr>cn_net = \<lparr>nt_closed = closed, nt_werr = None, nt_sent = [], nt_rdeadline = 0, nt_wdeadline = 0\<rparr>,
      cn_offset = 0, cn_rbuf = \<lparr>rd_bytes = incoming, rd_err = EOF\<rparr>,
      cn_wdeadline = \<lparr>dl_value = 0, dl_rconn = False, dl_wconn = False\<rparr>,
      cn_rdeadline = \<lparr>dl_value = 0, dl_rconn = False, dl_wconn = False\<rparr>,
      cn_clientID = [99], cn_topic = [116], cn_partition = 0, cn_fetchMaxBytes = 1000, cn_fetchMinSize = 50,
      cn_correlationID = 0, cn_requiredAcks = - 1, cn_apiVersions = Map.empty, cn_fetchVersion = 2\<rparr>"

lemma usable_exampleConn: "usable (exampleConn False incoming)"
  by (simp add: usable_def exampleConn_def)

text \<open>C10. An operation of a connection, whatever request it writes and however it reads the response, that
  fails with anything but an error code of the broker has closed the network connection: no later operation
  reads the rest of a response that was not understood.\<close>

theorem Conn_do_error_closes:
  assumes "Conn_do d send read c = Some (Err e, c')" "\<not> is_KafkaError e"
  shows "nt_closed (cn_net c')"
  using Conn_do_error [OF assms(1)] assms(2) by simp

theorem Conn_do_error_closes_witness:
  "\<exists>c'. Conn_do RDeadline (\<lambda>_ _. Conn_Flush [1]) (\<lambda>_ _. cret ()) (exampleConn False [0, 0, 0]) = Some (Err EOF, c') \<and>
    nt_closed (cn_net c')"
proof -
  have "\<exists>c'. Conn_do RDeadline (\<lambda>_ _. Conn_Flush [1]) (\<lambda>_ _. cret ()) (exampleConn False [0, 0, 0]) = Some (Err EOF, c')"
    by (simp add: Conn_do_def cbind_def doRequest_def Let_def Conn_Flush_def exampleConn_def deadline_defs)
      (subst waitResponse.simps, simp add: Let_def deadline_defs peekResponseSizeAndID_def Peek_def bufSize_def)
  then show ?thesis using Conn_do_error_closes by fastforce
qed

text \<open>The wait for a response returns exactly when the next response of the stream is the awaited one or
  cannot be read: with one goroutine on the connection, a response to another request is never skipped.\<close>

theorem waitResponse_returns:
  "(\<exists>y. waitResponse d corr c = Some y) \<longleftrightarrow>
     (case peekResponseSizeAndID (cn_rbuf c) of Ok (rsz, rid) \<Rightarrow> rid = corr | _ \<Rightarrow> True)"
proof (cases "peekResponseSizeAndID (cn_rbuf c)")
  case (Ok x)
  then show ?thesis
    using waitResponse_other [of c "fst x" "snd x" corr d]
    by (cases "snd x = corr", subst waitResponse.simps) (auto simp: Let_def split: prod.splits)
qed (subst waitResponse.simps, simp add: Let_def)+

end
