(* ===== verification/SaslMessages.thy ===== *)
theory SaslMessages
  imports Decode
begin

section \<open>SASL handshake and authentication messages\<close>

text \<open>
  The structs of saslhandshake.go and saslauthenticate.go with their \<open>size\<close>, \<open>writeTo\<close> and
  \<open>readFrom\<close> methods. Each message is an interpretation of the \<open>message_codec\<close> interface: its size is the
  number of bytes it writes, and it is read back as it was written.
\<close>

subsection \<open>saslhandshake.go\<close>

record saslHandshakeRequestV0 =
  shReq_Mechanism :: gostring

definition saslHandshakeRequestV0_size :: "saslHandshakeRequestV0 \<Rightarrow> int32" where
  "saslHandshakeRequestV0_size t =
     sizeofString (shReq_Mechanism t)"

definition saslHandshakeRequestV0_writeTo :: "bufio_writer \<Rightarrow> saslHandshakeRequestV0 \<Rightarrow> bufio_writer" where
  "saslHandshakeRequestV0_writeTo w t = writeString w (shReq_Mechanism t)"

definition saslHandshakeRequestV0_readFrom :: "saslHandshakeRequestV0 reader" where
  "saslHandshakeRequestV0_readFrom =
     rbind readString (\<lambda>Mechanism.
     rret \<lparr>shReq_Mechanism = Mechanism\<rparr>)"

definition saslHandshakeRequestV0_ok :: "saslHandshakeRequestV0 \<Rightarrow> bool" where
  "saslHandshakeRequestV0_ok t \<longleftrightarrow> okString (shReq_Mechanism t)"

interpretation shReq: sized saslHandshakeRequestV0_size saslHandshakeRequestV0_writeTo
  by unfold_locales (simp_all add: saslHandshakeRequestV0_size_def saslHandshakeRequestV0_writeTo_def Let_def wire wire_size)

interpretation shReq: message_codec saslHandshakeRequestV0_size saslHandshakeRequestV0_writeTo saslHandshakeRequestV0_readFrom saslHandshakeRequestV0_ok
  by (rule codecI [OF shReq.sized_axioms];
      simp add: saslHandshakeRequestV0_writeTo_def saslHandshakeRequestV0_readFrom_def saslHandshakeRequestV0_ok_def Let_def frame)
    (rule parse parse_rules account | simp)+

lemmas [parse] = shReq.rd_parses shReq.array_parses
lemmas [account] = shReq.rd_accounts
lemmas [frame] = shReq.append shReq.array_nil
lemmas [wire] = shReq.append shReq.array_append
lemmas [wire_size] = shReq.size_length shReq.array_size

record saslHandshakeResponseV0 =
  shRes_ErrorCode :: int16
  shRes_EnabledMechanisms :: "gostring list"

definition saslHandshakeResponseV0_size :: "saslHandshakeResponseV0 \<Rightarrow> int32" where
  "saslHandshakeResponseV0_size t =
     sizeofInt16 (shRes_ErrorCode t) + sizeofStringArray (shRes_EnabledMechanisms t)"

definition saslHandshakeResponseV0_writeTo :: "bufio_writer \<Rightarrow> saslHandshakeResponseV0 \<Rightarrow> bufio_writer" where
  "saslHandshakeResponseV0_writeTo w t =
     (let w = writeInt16 w (shRes_ErrorCode t)
      in writeStringArray w (shRes_EnabledMechanisms t))"

definition saslHandshakeResponseV0_readFrom :: "saslHandshakeResponseV0 reader" where
  "saslHandshakeResponseV0_readFrom =
     rbind readInt16 (\<lambda>ErrorCode.
     rbind readStringArray (\<lambda>EnabledMechanisms.
     rret \<lparr>shRes_ErrorCode = ErrorCode, shRes_EnabledMechanisms = EnabledMechanisms\<rparr>))"

definition saslHandshakeResponseV0_ok :: "saslHandshakeResponseV0 \<Rightarrow> bool" where
  "saslHandshakeResponseV0_ok t \<longleftrightarrow> okArray okString (shRes_EnabledMechanisms t)"

interpretation shRes: sized saslHandshakeResponseV0_size saslHandshakeResponseV0_writeTo
  by unfold_locales (simp_all add: saslHandshakeResponseV0_size_def saslHandshakeResponseV0_writeTo_def Let_def wire wire_size)

interpretation shRes: message_codec saslHandshakeResponseV0_size saslHandshakeResponseV0_writeTo saslHandshakeResponseV0_readFrom saslHandshakeResponseV0_ok
  by (rule codecI [OF shRes.sized_axioms];
      simp add: saslHandshakeResponseV0_writeTo_def saslHandshakeResponseV0_readFrom_def saslHandshakeResponseV0_ok_def Let_def frame)
    (rule parse parse_rules account | simp)+

lemmas [parse] = shRes.rd_parses shRes.array_parses
lemmas [account] = shRes.rd_accounts
lemmas [frame] = shRes.append shRes.array_nil
lemmas [wire] = shRes.append shRes.array_append
lemmas [wire_size] = shRes.size_length shRes.array_size

subsection \<open>saslauthenticate.go\<close>

record saslAuthenticateRequestV0 =
  saReq_Data :: bytes

definition saslAuthenticateRequestV0_size :: "saslAuthenticateRequestV0 \<Rightarrow> int32" where
  "saslAuthenticateRequestV0_size t =
     sizeofBytes (saReq_Data t)"

definition saslAuthenticateRequestV0_writeTo :: "bufio_writer \<Rightarrow> saslAuthenticateRequestV0 \<Rightarrow> bufio_writer" where
  "saslAuthenticateRequestV0_writeTo w t = writeBytes w (saReq_Data t)"

definition saslAuthenticateRequestV0_readFrom :: "saslAuthenticateRequestV0 reader" where
  "saslAuthenticateRequestV0_readFrom =
     rbind readBytes (\<lambda>Data.
     rret \<lparr>saReq_Data = Data\<rparr>)"

definition saslAuthenticateRequestV0_ok :: "saslAuthenticateRequestV0 \<Rightarrow> bool" where
  "saslAuthenticateRequestV0_ok t \<longleftrightarrow> okBytes (saReq_Data t)"

interpretation saReq: sized saslAuthenticateRequestV0_size saslAuthenticateRequestV0_writeTo
  by unfold_locales (simp_all add: saslAuthenticateRequestV0_size_def saslAuthenticateRequestV0_writeTo_def Let_def wire wire_size)

interpretation saReq: message_codec saslAuthenticateRequestV0_size saslAuthenticateRequestV0_writeTo saslAuthenticateRequestV0_readFrom saslAuthenticateRequestV0_ok
  by (rule codecI [OF saReq.sized_axioms];
      simp add: saslAuthenticateRequestV0_writeTo_def saslAuthenticateRequestV0_readFrom_def saslAuthenticateRequestV0_ok_def Let_def frame)
    (rule parse parse_rules account | simp)+

lemmas [parse] = saReq.rd_parses saReq.array_parses
lemmas [account] = saReq.rd_accounts
lemmas [frame] = saReq.append saReq.array_nil
lemmas [wire] = saReq.append saReq.array_append
lemmas [wire_size] = saReq.size_length saReq.array_size

record saslAuthenticateResponseV0 =
  saRes_ErrorCode :: int16
  saRes_ErrorMessage :: gostring
  saRes_Data :: bytes

definition saslAuthenticateResponseV0_size :: "saslAuthenticateResponseV0 \<Rightarrow> int32" where
  "saslAuthenticateResponseV0_size t =
     sizeofInt16 (saRes_ErrorCode t) + sizeofString (saRes_ErrorMessage t) +
     sizeofBytes (saRes_Data t)"

definition saslAuthenticateResponseV0_writeTo :: "bufio_writer \<Rightarrow> saslAuthenticateResponseV0 \<Rightarrow> bufio_writer" where
  "saslAuthenticateResponseV0_writeTo w t =
     (let w = writeInt16 w (saRes_ErrorCode t);
          w = writeString w (saRes_ErrorMessage t)
      in writeBytes w (saRes_Data t))"

definition saslAuthenticateResponseV0_readFrom :: "saslAuthenticateResponseV0 reader" where
  "saslAuthenticateResponseV0_readFrom =
     rbind readInt16 (\<lambda>ErrorCode.
     rbind readString (\<lambda>ErrorMessage.
     rbind readBytes (\<lambda>Data.
     rret \<lparr>saRes_ErrorCode = ErrorCode, saRes_ErrorMessage = ErrorMessage, saRes_Data = Data\<rparr>)))"

definition saslAuthenticateResponseV0_ok :: "saslAuthenticateResponseV0 \<Rightarrow> bool" where
  "saslAuthenticateResponseV0_ok t \<longleftrightarrow> okString (saRes_ErrorMessage t) \<and> okBytes (saRes_Data t)"

interpretation saRes: sized saslAuthenticateResponseV0_size saslAuthenticateResponseV0_writeTo
  by unfold_locales (simp_all add: saslAuthenticateResponseV0_size_def saslAuthenticateResponseV0_writeTo_def Let_def wire wire_size)

interpretation saRes: message_codec saslAuthenticateResponseV0_size saslAuthenticateResponseV0_writeTo saslAuthenticateResponseV0_readFrom saslAuthenticateResponseV0_ok
  by (rule codecI [OF saRes.sized_axioms];
      simp add: saslAuthenticateResponseV0_writeTo_def saslAuthenticateResponseV0_readFrom_def saslAuthenticateResponseV0_ok_def Let_def frame)
    (rule parse parse_rules account | simp)+

lemmas [parse] = saRes.rd_parses saRes.array_parses
lemmas [account] = saRes.rd_accounts
lemmas [frame] = saRes.append saRes.array_nil
lemmas [wire] = saRes.append saRes.array_append
lemmas [wire_size] = saRes.size_length saRes.array_size

end
