(* ===== verification/OffsetMessages.thy ===== *)
theory OffsetMessages
  imports Decode
begin

section \<open>Offset commit and offset fetch messages\<close>

text \<open>
  The structs of offsetcommit.go and offsetfetch.go with their \<open>size\<close>, \<open>writeTo\<close> and \<open>readFrom\<close>
  methods, and \<open>findOffset\<close>.
\<close>

subsection \<open>offsetcommit.go\<close>

record offsetCommitRequestV2Partition =
  ocPReq_Partition :: int32
  ocPReq_Offset :: int64
  ocPReq_Metadata :: gostring

definition offsetCommitRequestV2Partition_size :: "offsetCommitRequestV2Partition \<Rightarrow> int32" where
  "offsetCommitRequestV2Partition_size t =
     sizeofInt32 (ocPReq_Partition t) + sizeofInt64 (ocPReq_Offset t) +
     sizeofString (ocPReq_Metadata t)"

definition offsetCommitRequestV2Partition_writeTo :: "bufio_writer \<Rightarrow> offsetCommitRequestV2Partition \<Rightarrow> bufio_writer" where
  "offsetCommitRequestV2Partition_writeTo w t =
     (let w = writeInt32 w (ocPReq_Partition t);
          w = writeInt64 w (ocPReq_Offset t)
      in writeString w (ocPReq_Metadata t))"

interpretation ocPReq: sized offsetCommitRequestV2Partition_size offsetCommitRequestV2Partition_writeTo
  by unfold_locales (simp_all add: offsetCommitRequestV2Partition_size_def offsetCommitRequestV2Partition_writeTo_def Let_def wire wire_size)

lemmas [frame] = ocPReq.append ocPReq.array_nil
lemmas [wire] = ocPReq.append ocPReq.array_append
lemmas [wire_size] = ocPReq.size_length ocPReq.array_size

record offsetCommitRequestV2Topic =
  ocTReq_Topic :: gostring
  ocTReq_Partitions :: "offsetCommitRequestV2Partition list"

definition offsetCommitRequestV2Topic_size :: "offsetCommitRequestV2Topic \<Rightarrow> int32" where
  "offsetCommitRequestV2Topic_size t =
     sizeofString (ocTReq_Topic t) +
     sizeofArray offsetCommitRequestV2Partition_size (ocTReq_Partitions t)"

definition offsetCommitRequestV2Topic_writeTo :: "bufio_writer \<Rightarrow> offsetCommitRequestV2Topic \<Rightarrow> bufio_writer" where
  "offsetCommitRequestV2Topic_writeTo w t =
     (let w = writeString w (ocTReq_Topic t)
      in writeArray w offsetCommitRequestV2Partition_writeTo (ocTReq_Partitions t))"

interpretation ocTReq: sized offsetCommitRequestV2Topic_size offsetCommitRequestV2Topic_writeTo
  by unfold_locales (simp_all add: offsetCommitRequestV2Topic_size_def offsetCommitRequestV2Topic_writeTo_def Let_def wire wire_size)

lemmas [frame] = ocTReq.append ocTReq.array_nil
lemmas [wire] = ocTReq.append ocTReq.array_append
lemmas [wire_size] = ocTReq.size_length ocTReq.array_size

record offsetCommitRequestV2 =
  ocReq_GroupID :: gostring
  ocReq_GenerationID :: int32
  ocReq_MemberID :: gostring
  ocReq_RetentionTime :: int64
  ocReq_Topics :: "offsetCommitRequestV2Topic list"

definition offsetCommitRequestV2_size :: "offsetCommitRequestV2 \<Rightarrow> int32" where
  "offsetCommitRequestV2_size t =
     sizeofString (ocReq_GroupID t) + sizeofInt32 (ocReq_GenerationID t) +
     sizeofString (ocReq_MemberID t) + sizeofInt64 (ocReq_RetentionTime t) +
     sizeofArray offsetCommitRequestV2Topic_size (ocReq_Topics t)"

definition offsetCommitRequestV2_writeTo :: "bufio_writer \<Rightarrow> offsetCommitRequestV2 \<Rightarrow> bufio_writer" where
  "offsetCommitRequestV2_writeTo w t =
     (let w = writeString w (ocReq_GroupID t);
          w = writeInt32 w (ocReq_GenerationID t);
          w = writeString w (ocReq_MemberID t);
          w = writeInt64 w (ocReq_RetentionTime t)
      in writeArray w offsetCommitRequestV2Topic_writeTo (ocReq_Topics t))"

interpretation ocReq: sized offsetCommitRequestV2_size offsetCommitRequestV2_writeTo
  by unfold_locales (simp_all add: offsetCommitRequestV2_size_def offsetCommitRequestV2_writeTo_def Let_def wire wire_size)

lemmas [frame] = ocReq.append ocReq.array_nil
lemmas [wire] = ocReq.append ocReq.array_append
lemmas [wire_size] = ocReq.size_length ocReq.array_size

record offsetCommitResponseV2PartitionResponse =
  ocPRes_Partition :: int32
  ocPRes_ErrorCode :: int16

definition offsetCommitResponseV2PartitionResponse_size :: "offsetCommitResponseV2PartitionResponse \<Rightarrow> int32" where
  "offsetCommitResponseV2PartitionResponse_size t =
     sizeofInt32 (ocPRes_Partition t) + sizeofInt16 (ocPRes_ErrorCode t)"

definition offsetCommitResponseV2PartitionResponse_writeTo :: "bufio_writer \<Rightarrow> offsetCommitResponseV2PartitionResponse \<Rightarrow> bufio_writer" where
  "offsetCommitResponseV2PartitionResponse_writeTo w t =
     (let w = writeInt32 w (ocPRes_Partition t)
      in writeInt16 w (ocPRes_ErrorCode t))"

definition offsetCommitResponseV2PartitionResponse_readFrom :: "offsetCommitResponseV2PartitionResponse reader" where
  "offsetCommitResponseV2PartitionResponse_readFrom =
     rbind readInt32 (\<lambda>Partition.
     rbind readInt16 (\<lambda>ErrorCode.
     rret \<lparr>ocPRes_Partition = Partition, ocPRes_ErrorCode = ErrorCode\<rparr>))"

definition offsetCommitResponseV2PartitionResponse_ok :: "offsetCommitResponseV2PartitionResponse \<Rightarrow> bool" where
  "offsetCommitResponseV2PartitionResponse_ok t \<longleftrightarrow> True"

interpretation ocPRes: sized offsetCommitResponseV2PartitionResponse_size offsetCommitResponseV2PartitionResponse_writeTo
  by unfold_locales (simp_all add: offsetCommitResponseV2PartitionResponse_size_def offsetCommitResponseV2PartitionResponse_writeTo_def Let_def wire wire_size)

interpretation ocPRes: message_codec offsetCommitResponseV2PartitionResponse_size offsetCommitResponseV2PartitionResponse_writeTo offsetCommitResponseV2PartitionResponse_readFrom offsetCommitResponseV2PartitionResponse_ok
  by (rule codecI [OF ocPRes.sized_axioms];
      simp add: offsetCommitResponseV2PartitionResponse_writeTo_def offsetCommitResponseV2PartitionResponse_readFrom_def offsetCommitResponseV2PartitionResponse_ok_def Let_def frame)
    (rule parse parse_rules account | simp)+

lemmas [parse] = ocPRes.rd_parses ocPRes.array_parses
lemmas [account] = ocPRes.rd_accounts
lemmas [frame] = ocPRes.append ocPRes.array_nil
lemmas [wire] = ocPRes.append ocPRes.array_append
lemmas [wire_size] = ocPRes.size_length ocPRes.array_size

record offsetCommitResponseV2Response =
  ocTRes_Topic :: gostring
  ocTRes_PartitionResponses :: "offsetCommitResponseV2PartitionResponse list"

definition offsetCommitResponseV2Response_size :: "offsetCommitResponseV2Response \<Rightarrow> int32" where
  "offsetCommitResponseV2Response_size t =
     sizeofString (ocTRes_Topic t) +
     sizeofArray offsetCommitResponseV2PartitionResponse_size (ocTRes_PartitionResponses t)"

definition offsetCommitResponseV2Response_writeTo :: "bufio_writer \<Rightarrow> offsetCommitResponseV2Response \<Rightarrow> bufio_writer" where
  "offsetCommitResponseV2Response_writeTo w t =
     (let w = writeString w (ocTRes_Topic t)
      in writeArray w offsetCommitResponseV2PartitionResponse_writeTo (ocTRes_PartitionResponses t))"

definition offsetCommitResponseV2Response_readFrom :: "offsetCommitResponseV2Response reader" where
  "offsetCommitResponseV2Response_readFrom =
     rbind readString (\<lambda>Topic.
     rbind (readArrayWith offsetCommitResponseV2PartitionResponse_readFrom) (\<lambda>PartitionResponses.
     rret \<lparr>ocTRes_Topic = Topic, ocTRes_PartitionResponses = PartitionResponses\<rparr>))"

definition offsetCommitResponseV2Response_ok :: "offsetCommitResponseV2Response \<Rightarrow> bool" where
  "offsetCommitResponseV2Response_ok t \<longleftrightarrow> okString (ocTRes_Topic t) \<and> okArray offsetCommitResponseV2PartitionResponse_ok (ocTRes_PartitionResponses t)"

interpretation ocTRes: sized offsetCommitResponseV2Response_size offsetCommitResponseV2Response_writeTo
  by unfold_locales (simp_all add: offsetCommitResponseV2Response_size_def offsetCommitResponseV2Response_writeTo_def Let_def wire wire_size)

interpretation ocTRes: message_codec offsetCommitResponseV2Response_size offsetCommitResponseV2Response_writeTo offsetCommitResponseV2Response_readFrom offsetCommitResponseV2Response_ok
  by (rule codecI [OF ocTRes.sized_axioms];
      simp add: offsetCommitResponseV2Response_writeTo_def offsetCommitResponseV2Response_readFrom_def offsetCommitResponseV2Response_ok_def Let_def frame)
    (rule parse parse_rules account | simp)+

lemmas [parse] = ocTRes.rd_parses ocTRes.array_parses
lemmas [account] = ocTRes.rd_accounts
lemmas [frame] = ocTRes.append ocTRes.array_nil
lemmas [wire] = ocTRes.append ocTRes.array_append
lemmas [wire_size] = ocTRes.size_length ocTRes.array_size

record offsetCommitResponseV2 =
  ocRes_Responses :: "offsetCommitResponseV2Response list"

definition offsetCommitResponseV2_size :: "offsetCommitResponseV2 \<Rightarrow> int32" where
  "offsetCommitResponseV2_size t =
     sizeofArray offsetCommitResponseV2Response_size (ocRes_Responses t)"

definition offsetCommitResponseV2_writeTo :: "bufio_writer \<Rightarrow> offsetCommitResponseV2 \<Rightarrow> bufio_writer" where
  "offsetCommitResponseV2_writeTo w t = writeArray w offsetCommitResponseV2Response_writeTo (ocRes_Responses t)"

definition offsetCommitResponseV2_readFrom :: "offsetCommitResponseV2 reader" where
  "offsetCommitResponseV2_readFrom =
     rbind (readArrayWith offsetCommitResponseV2Response_readFrom) (\<lambda>Responses.
     rret \<lparr>ocRes_Responses = Responses\<rparr>)"

definition offsetCommitResponseV2_ok :: "offsetCommitResponseV2 \<Rightarrow> bool" where
  "offsetCommitResponseV2_ok t \<longleftrightarrow> okArray offsetCommitResponseV2Response_ok (ocRes_Responses t)"

interpretation ocRes: sized offsetCommitResponseV2_size offsetCommitResponseV2_writeTo
  by unfold_locales (simp_all add: offsetCommitResponseV2_size_def offsetCommitResponseV2_writeTo_def Let_def wire wire_size)

interpretation ocRes: message_codec offsetCommitResponseV2_size offsetCommitResponseV2_writeTo offsetCommitResponseV2_readFrom offsetCommitResponseV2_ok
  by (rule codecI [OF ocRes.sized_axioms];
      simp add: offsetCommitResponseV2_writeTo_def offsetCommitResponseV2_readFrom_def offsetCommitResponseV2_ok_def Let_def frame)
    (rule parse parse_rules account | simp)+

lemmas [parse] = ocRes.rd_parses ocRes.array_parses
lemmas [account] = ocRes.rd_accounts
lemmas [frame] = ocRes.append ocRes.array_nil
lemmas [wire] = ocRes.append ocRes.array_append
lemmas [wire_size] = ocRes.size_length ocRes.array_size

subsection \<open>offsetfetch.go\<close>

record offsetFetchRequestV1Topic =
  ofTReq_Topic :: gostring
  ofTReq_Partitions :: "int32 list"

definition offsetFetchRequestV1Topic_size :: "offsetFetchRequestV1Topic \<Rightarrow> int32" where
  "offsetFetchRequestV1Topic_size t =
     sizeofString (ofTReq_Topic t) + sizeofInt32Array (ofTReq_Partitions t)"

definition offsetFetchRequestV1Topic_writeTo :: "bufio_writer \<Rightarrow> offsetFetchRequestV1Topic \<Rightarrow> bufio_writer" where
  "offsetFetchRequestV1Topic_writeTo w t =
     (let w = writeString w (ofTReq_Topic t)
      in writeInt32Array w (ofTReq_Partitions t))"

interpretation ofTReq: sized offsetFetchRequestV1Topic_size offsetFetchRequestV1Topic_writeTo
  by unfold_locales (simp_all add: offsetFetchRequestV1Topic_size_def offsetFetchRequestV1Topic_writeTo_def Let_def wire wire_size)

lemmas [frame] = ofTReq.append ofTReq.array_nil
lemmas [wire] = ofTReq.append ofTReq.array_append
lemmas [wire_size] = ofTReq.size_length ofTReq.array_size

record offsetFetchRequestV1 =
  ofReq_GroupID :: gostring
  ofReq_Topics :: "offsetFetchRequestV1Topic list"

definition offsetFetchRequestV1_size :: "offsetFetchRequestV1 \<Rightarrow> int32" where
  "offsetFetchRequestV1_size t =
     sizeofString (ofReq_GroupID t) +
     sizeofArray offsetFetchRequestV1Topic_size (ofReq_Topics t)"

definition offsetFetchRequestV1_writeTo :: "bufio_writer \<Rightarrow> offsetFetchRequestV1 \<Rightarrow> bufio_writer" where
  "offsetFetchRequestV1_writeTo w t =
     (let w = writeString w (ofReq_GroupID t)
      in writeArray w offsetFetchRequestV1Topic_writeTo (ofReq_Topics t))"

interpretation ofReq: sized offsetFetchRequestV1_size offsetFetchRequestV1_writeTo
  by unfold_locales (simp_all add: offsetFetchRequestV1_size_def offsetFetchRequestV1_writeTo_def Let_def wire wire_size)

lemmas [frame] = ofReq.append ofReq.array_nil
lemmas [wire] = ofReq.append ofReq.array_append
lemmas [wire_size] = ofReq.size_length ofReq.array_size

record offsetFetchResponseV1PartitionResponse =
  ofPRes_Partition :: int32
  ofPRes_Offset :: int64
  ofPRes_Metadata :: gostring
  ofPRes_ErrorCode :: int16

definition offsetFetchResponseV1PartitionResponse_size :: "offsetFetchResponseV1PartitionResponse \<Rightarrow> int32" where
  "offsetFetchResponseV1PartitionResponse_size t =
     sizeofInt32 (ofPRes_Partition t) + sizeofInt64 (ofPRes_Offset t) +
     sizeofString (ofPRes_Metadata t) + sizeofInt16 (ofPRes_ErrorCode t)"

definition offsetFetchResponseV1PartitionResponse_writeTo :: "bufio_writer \<Rightarrow> offsetFetchResponseV1PartitionResponse \<Rightarrow> bufio_writer" where
  "offsetFetchResponseV1PartitionResponse_writeTo w t =
     (let w = writeInt32 w (ofPRes_Partition t);
          w = writeInt64 w (ofPRes_Offset t);
          w = writeString w (ofPRes_Metadata t)
      in writeInt16 w (ofPRes_ErrorCode t))"

definition offsetFetchResponseV1PartitionResponse_readFrom :: "offsetFetchResponseV1PartitionResponse reader" where
  "offsetFetchResponseV1PartitionResponse_readFrom =
     rbind readInt32 (\<lambda>Partition.
     rbind readInt64 (\<lambda>Offset.
     rbind readString (\<lambda>Metadata.
     rbind readInt16 (\<lambda>ErrorCode.
     rret \<lparr>ofPRes_Partition = Partition, ofPRes_Offset = Offset, ofPRes_Metadata = Metadata, ofPRes_ErrorCode = ErrorCode\<rparr>))))"

definition offsetFetchResponseV1PartitionResponse_ok :: "offsetFetchResponseV1PartitionResponse \<Rightarrow> bool" where
  "offsetFetchResponseV1PartitionResponse_ok t \<longleftrightarrow> okString (ofPRes_Metadata t)"

interpretation ofPRes: sized offsetFetchResponseV1PartitionResponse_size offsetFetchResponseV1PartitionResponse_writeTo
  by unfold_locales (simp_all add: offsetFetchResponseV1PartitionResponse_size_def offsetFetchResponseV1PartitionResponse_writeTo_def Let_def wire wire_size)

interpretation ofPRes: message_codec offsetFetchResponseV1PartitionResponse_size offsetFetchResponseV1PartitionResponse_writeTo offsetFetchResponseV1PartitionResponse_readFrom offsetFetchResponseV1PartitionResponse_ok
  by (rule codecI [OF ofPRes.sized_axioms];
      simp add: offsetFetchResponseV1PartitionResponse_writeTo_def offsetFetchResponseV1PartitionResponse_readFrom_def offsetFetchResponseV1PartitionResponse_ok_def Let_def frame)
    (rule parse parse_rules account | simp)+

lemmas [parse] = ofPRes.rd_parses ofPRes.array_parses
lemmas [account] = ofPRes.rd_accounts
lemmas [frame] = ofPRes.append ofPRes.array_nil
lemmas [wire] = ofPRes.append ofPRes.array_append
lemmas [wire_size] = ofPRes.size_length ofPRes.array_size

record offsetFetchResponseV1Response =
  ofTRes_Topic :: gostring
  ofTRes_PartitionResponses :: "offsetFetchResponseV1PartitionResponse list"

definition offsetFetchResponseV1Response_size :: "offsetFetchResponseV1Response \<Rightarrow> int32" where
  "offsetFetchResponseV1Response_size t =
     sizeofString (ofTRes_Topic t) +
     sizeofArray offsetFetchResponseV1PartitionResponse_size (ofTRes_PartitionResponses t)"

definition offsetFetchResponseV1Response_writeTo :: "bufio_writer \<Rightarrow> offsetFetchResponseV1Response \<Rightarrow> bufio_writer" where
  "offsetFetchResponseV1Response_writeTo w t =
     (let w = writeString w (ofTRes_Topic t)
      in writeArray w offsetFetchResponseV1PartitionResponse_writeTo (ofTRes_PartitionResponses t))"

definition offsetFetchResponseV1Response_readFrom :: "offsetFetchResponseV1Response reader" where
  "offsetFetchResponseV1Response_readFrom =
     rbind readString (\<lambda>Topic.
     rbind (readArrayWith offsetFetchResponseV1PartitionResponse_readFrom) (\<lambda>PartitionResponses.
     rret \<lparr>ofTRes_Topic = Topic, ofTRes_PartitionResponses = PartitionResponses\<rparr>))"

definition offsetFetchResponseV1Response_ok :: "offsetFetchResponseV1Response \<Rightarrow> bool" where
  "offsetFetchResponseV1Response_ok t \<longleftrightarrow> okString (ofTRes_Topic t) \<and> okArray offsetFetchResponseV1PartitionResponse_ok (ofTRes_PartitionResponses t)"

interpretation ofTRes: sized offsetFetchResponseV1Response_size offsetFetchResponseV1Response_writeTo
  by unfold_locales (simp_all add: offsetFetchResponseV1Response_size_def offsetFetchResponseV1Response_writeTo_def Let_def wire wire_size)

interpretation ofTRes: message_codec offsetFetchResponseV1Response_size offsetFetchResponseV1Response_writeTo offsetFetchResponseV1Response_readFrom offsetFetchResponseV1Response_ok
  by (rule codecI [OF ofTRes.sized_axioms];
      simp add: offsetFetchResponseV1Response_writeTo_def offsetFetchResponseV1Response_readFrom_def offsetFetchResponseV1Response_ok_def Let_def frame)
    (rule parse parse_rules account | simp)+

lemmas [parse] = ofTRes.rd_parses ofTRes.array_parses
lemmas [account] = ofTRes.rd_accounts
lemmas [frame] = ofTRes.append ofTRes.array_nil
lemmas [wire] = ofTRes.append ofTRes.array_append
lemmas [wire_size] = ofTRes.size_length ofTRes.array_size

record offsetFetchResponseV1 =
  ofRes_Responses :: "offsetFetchResponseV1Response list"

definition offsetFetchResponseV1_size :: "offsetFetchResponseV1 \<Rightarrow> int32" where
  "offsetFetchResponseV1_size t =
     sizeofArray offsetFetchResponseV1Response_size (ofRes_Responses t)"

definition offsetFetchResponseV1_writeTo :: "bufio_writer \<Rightarrow> offsetFetchResponseV1 \<Rightarrow> bufio_writer" where
  "offsetFetchResponseV1_writeTo w t = writeArray w offsetFetchResponseV1Response_writeTo (ofRes_Responses t)"

definition offsetFetchResponseV1_readFrom :: "offsetFetchResponseV1 reader" where
  "offsetFetchResponseV1_readFrom =
     rbind (readArrayWith offsetFetchResponseV1Response_readFrom) (\<lambda>Responses.
     rret \<lparr>ofRes_Responses = Responses\<rparr>)"

definition offsetFetchResponseV1_ok :: "offsetFetchResponseV1 \<Rightarrow> bool" where
  "offsetFetchResponseV1_ok t \<longleftrightarrow> okArray offsetFetchResponseV1Response_ok (ofRes_Responses t)"

interpretation ofRes: sized offsetFetchResponseV1_size offsetFetchResponseV1_writeTo
  by unfold_locales (simp_all add: offsetFetchResponseV1_size_def offsetFetchResponseV1_writeTo_def Let_def wire wire_size)

interpretation ofRes: message_codec offsetFetchResponseV1_size offsetFetchResponseV1_writeTo offsetFetchResponseV1_readFrom offsetFetchResponseV1_ok
  by (rule codecI [OF ofRes.sized_axioms];
      simp add: offsetFetchResponseV1_writeTo_def offsetFetchResponseV1_readFrom_def offsetFetchResponseV1_ok_def Let_def frame)
    (rule parse parse_rules account | simp)+

lemmas [parse] = ofRes.rd_parses ofRes.array_parses
lemmas [account] = ofRes.rd_accounts
lemmas [frame] = ofRes.append ofRes.array_nil
lemmas [wire] = ofRes.append ofRes.array_append
lemmas [wire_size] = ofRes.size_length ofRes.array_size

subsection \<open>Looking up an offset in a response\<close>

fun findPartition :: "int32 \<Rightarrow> offsetFetchResponseV1PartitionResponse list \<Rightarrow> int64 option" where
  "findPartition part [] = None"
| "findPartition part (pr # prs) =
     (if ofPRes_Partition pr = part then Some (ofPRes_Offset pr) else findPartition part prs)"

fun findOffsetIn :: "gostring \<Rightarrow> int32 \<Rightarrow> offsetFetchResponseV1Response list \<Rightarrow> int64 \<times> bool" where
  "findOffsetIn topic part [] = (0, False)"
| "findOffsetIn topic part (r # rs) =
     (if ofTRes_Topic r \<noteq> topic then findOffsetIn topic part rs
      else case findPartition part (ofTRes_PartitionResponses r) of
          Some off \<Rightarrow> (off, True)
        | None \<Rightarrow> findOffsetIn topic part rs)"

definition findOffset :: "gostring \<Rightarrow> int32 \<Rightarrow> offsetFetchResponseV1 \<Rightarrow> int64 \<times> bool" where
  "findOffset topic part response = findOffsetIn topic part (ofRes_Responses response)"

text \<open>The offsets that a response holds for a topic and a partition, in the order of the response.\<close>

definition responseOffsets :: "gostring \<Rightarrow> int32 \<Rightarrow> offsetFetchResponseV1 \<Rightarrow> int64 list" where
  "responseOffsets topic part response =
     concat (map (\<lambda>r. map ofPRes_Offset (filter (\<lambda>pr. ofPRes_Partition pr = part) (ofTRes_PartitionResponses r)))
       (filter (\<lambda>r. ofTRes_Topic r = topic) (ofRes_Responses response)))"

lemma findPartition_filter:
  "findPartition p prs = (case map ofPRes_Offset (filter (\<lambda>pr. ofPRes_Partition pr = p) prs) of
     [] \<Rightarrow> None | off # _ \<Rightarrow> Some off)"
  by (induction prs) auto

lemma findOffset_eq:
  "findOffset topic part response =
     (case responseOffsets topic part response of [] \<Rightarrow> (0, False) | off # _ \<Rightarrow> (off, True))"
proof -
  have "findOffsetIn topic part rs =
      (case concat (map (\<lambda>r. map ofPRes_Offset (filter (\<lambda>pr. ofPRes_Partition pr = part) (ofTRes_PartitionResponses r)))
         (filter (\<lambda>r. ofTRes_Topic r = topic) rs)) of [] \<Rightarrow> (0, False) | off # _ \<Rightarrow> (off, True))" for rs
  proof (induction rs)
    case (Cons r rs)
    then show ?case
      by (cases "filter (\<lambda>pr. ofPRes_Partition pr = part) (ofTRes_PartitionResponses r)")
        (simp_all add: findPartition_filter)
  qed simp
  then show ?thesis by (simp add: findOffset_def responseOffsets_def)
qed


end
