(* ===== verification/TopicMessages.thy ===== *)
theory TopicMessages
  imports Decode
begin

section \<open>Topic creation, topic deletion and metadata messages\<close>

text \<open>
  The structs of createtopics.go, deletetopics.go and metadata.go with their methods. Metadata
  responses are read by the reflective \<open>read\<close> of read.go: \<open>T_read\<close> is \<open>readStruct\<close> at the struct \<open>T\<close>.

  The closures that \<open>createTopicsResponseV0\<close> and \<open>deleteTopicsResponseV0\<close> give to \<open>readArrayWith\<close> test
  the error of the enclosing function, which is nil at that time, so that an element that failed to
  decode is still appended to the slice; the slice of a failed response is not used.
\<close>

subsection \<open>createtopics.go\<close>

record createTopicsRequestV0ConfigEntry =
  ctCfg_ConfigName :: gostring
  ctCfg_ConfigValue :: gostring

definition createTopicsRequestV0ConfigEntry_size :: "createTopicsRequestV0ConfigEntry \<Rightarrow> int32" where
  "createTopicsRequestV0ConfigEntry_size t =
     sizeofString (ctCfg_ConfigName t) + sizeofString (ctCfg_ConfigValue t)"

definition createTopicsRequestV0ConfigEntry_writeTo :: "bufio_writer \<Rightarrow> createTopicsRequestV0ConfigEntry \<Rightarrow> bufio_writer" where
  "createTopicsRequestV0ConfigEntry_writeTo w t =
     (let w = writeString w (ctCfg_ConfigName t)
      in writeString w (ctCfg_ConfigValue t))"

interpretation ctCfg: sized createTopicsRequestV0ConfigEntry_size createTopicsRequestV0ConfigEntry_writeTo
  by unfold_locales (simp_all add: createTopicsRequestV0ConfigEntry_size_def createTopicsRequestV0ConfigEntry_writeTo_def Let_def wire wire_size)

lemmas [frame] = ctCfg.append ctCfg.array_nil
lemmas [wire] = ctCfg.append ctCfg.array_append
lemmas [wire_size] = ctCfg.size_length ctCfg.array_size

record createTopicsRequestV0ReplicaAssignment =
  ctRep_Partition :: int32
  ctRep_Replicas :: int32

definition createTopicsRequestV0ReplicaAssignment_size :: "createTopicsRequestV0ReplicaAssignment \<Rightarrow> int32" where
  "createTopicsRequestV0ReplicaAssignment_size t =
     sizeofInt32 (ctRep_Partition t) + sizeofInt32 (ctRep_Replicas t)"

definition createTopicsRequestV0ReplicaAssignment_writeTo :: "bufio_writer \<Rightarrow> createTopicsRequestV0ReplicaAssignment \<Rightarrow> bufio_writer" where
  "createTopicsRequestV0ReplicaAssignment_writeTo w t =
     (let w = writeInt32 w (ctRep_Partition t)
      in writeInt32 w (ctRep_Replicas t))"

interpretation ctRep: sized createTopicsRequestV0ReplicaAssignment_size createTopicsRequestV0ReplicaAssignment_writeTo
  by unfold_locales (simp_all add: createTopicsRequestV0ReplicaAssignment_size_def createTopicsRequestV0ReplicaAssignment_writeTo_def Let_def wire wire_size)

lemmas [frame] = ctRep.append ctRep.array_nil
lemmas [wire] = ctRep.append ctRep.array_append
lemmas [wire_size] = ctRep.size_length ctRep.array_size

record createTopicsRequestV0Topic =
  ctTop_Topic :: gostring
  ctTop_NumPartitions :: int32
  ctTop_ReplicationFactor :: int16
  ctTop_ReplicaAssignments :: "createTopicsRequestV0ReplicaAssignment list"
  ctTop_ConfigEntries :: "createTopicsRequestV0ConfigEntry list"

definition createTopicsRequestV0Topic_size :: "createTopicsRequestV0Topic \<Rightarrow> int32" where
  "createTopicsRequestV0Topic_size t =
     sizeofString (ctTop_Topic t) + sizeofInt32 (ctTop_NumPartitions t) +
     sizeofInt16 (ctTop_ReplicationFactor t) +
     sizeofArray createTopicsRequestV0ReplicaAssignment_size (ctTop_ReplicaAssignments t) +
     sizeofArray createTopicsRequestV0ConfigEntry_size (ctTop_ConfigEntries t)"

definition createTopicsRequestV0Topic_writeTo :: "bufio_writer \<Rightarrow> createTopicsRequestV0Topic \<Rightarrow> bufio_writer" where
  "createTopicsRequestV0Topic_writeTo w t =
     (let w = writeString w (ctTop_Topic t);
          w = writeInt32 w (ctTop_NumPartitions t);
          w = writeInt16 w (ctTop_ReplicationFactor t);
          w = writeArray w createTopicsRequestV0ReplicaAssignment_writeTo (ctTop_ReplicaAssignments t)
      in writeArray w createTopicsRequestV0ConfigEntry_writeTo (ctTop_ConfigEntries t))"

interpretation ctTop: sized createTopicsRequestV0Topic_size createTopicsRequestV0Topic_writeTo
  by unfold_locales (simp_all add: createTopicsRequestV0Topic_size_def createTopicsRequestV0Topic_writeTo_def Let_def wire wire_size)

lemmas [frame] = ctTop.append ctTop.array_nil
lemmas [wire] = ctTop.append ctTop.array_append
lemmas [wire_size] = ctTop.size_length ctTop.array_size

record createTopicsRequestV0 =
  ctReq_Topics :: "createTopicsRequestV0Topic list"
  ctReq_Timeout :: int32

definition createTopicsRequestV0_size :: "createTopicsRequestV0 \<Rightarrow> int32" where
  "createTopicsRequestV0_size t =
     sizeofArray createTopicsRequestV0Topic_size (ctReq_Topics t) +
     sizeofInt32 (ctReq_Timeout t)"

definition createTopicsRequestV0_writeTo :: "bufio_writer \<Rightarrow> createTopicsRequestV0 \<Rightarrow> bufio_writer" where
  "createTopicsRequestV0_writeTo w t =
     (let w = writeArray w createTopicsRequestV0Topic_writeTo (ctReq_Topics t)
      in writeInt32 w (ctReq_Timeout t))"

interpretation ctReq: sized createTopicsRequestV0_size createTopicsRequestV0_writeTo
  by unfold_locales (simp_all add: createTopicsRequestV0_size_def createTopicsRequestV0_writeTo_def Let_def wire wire_size)

lemmas [frame] = ctReq.append ctReq.array_nil
lemmas [wire] = ctReq.append ctReq.array_append
lemmas [wire_size] = ctReq.size_length ctReq.array_size

record createTopicsResponseV0TopicError =
  ctErr_Topic :: gostring
  ctErr_ErrorCode :: int16

definition createTopicsResponseV0TopicError_size :: "createTopicsResponseV0TopicError \<Rightarrow> int32" where
  "createTopicsResponseV0TopicError_size t =
     sizeofString (ctErr_Topic t) + sizeofInt16 (ctErr_ErrorCode t)"

definition createTopicsResponseV0TopicError_writeTo :: "bufio_writer \<Rightarrow> createTopicsResponseV0TopicError \<Rightarrow> bufio_writer" where
  "createTopicsResponseV0TopicError_writeTo w t =
     (let w = writeString w (ctErr_Topic t)
      in writeInt16 w (ctErr_ErrorCode t))"

definition createTopicsResponseV0TopicError_readFrom :: "createTopicsResponseV0TopicError reader" where
  "createTopicsResponseV0TopicError_readFrom =
     rbind readString (\<lambda>Topic.
     rbind readInt16 (\<lambda>ErrorCode.
     rret \<lparr>ctErr_Topic = Topic, ctErr_ErrorCode = ErrorCode\<rparr>))"

definition createTopicsResponseV0TopicError_ok :: "createTopicsResponseV0TopicError \<Rightarrow> bool" where
  "createTopicsResponseV0TopicError_ok t \<longleftrightarrow> okString (ctErr_Topic t)"

interpretation ctErr: sized createTopicsResponseV0TopicError_size createTopicsResponseV0TopicError_writeTo
  by unfold_locales (simp_all add: createTopicsResponseV0TopicError_size_def createTopicsResponseV0TopicError_writeTo_def Let_def wire wire_size)

interpretation ctErr: message_codec createTopicsResponseV0TopicError_size createTopicsResponseV0TopicError_writeTo createTopicsResponseV0TopicError_readFrom createTopicsResponseV0TopicError_ok
  by (rule codecI [OF ctErr.sized_axioms];
      simp add: createTopicsResponseV0TopicError_writeTo_def createTopicsResponseV0TopicError_readFrom_def createTopicsResponseV0TopicError_ok_def Let_def frame)
    (rule parse parse_rules account | simp)+

lemmas [parse] = ctErr.rd_parses ctErr.array_parses
lemmas [account] = ctErr.rd_accounts
lemmas [frame] = ctErr.append ctErr.array_nil
lemmas [wire] = ctErr.append ctErr.array_append
lemmas [wire_size] = ctErr.size_length ctErr.array_size

record createTopicsResponseV0 =
  ctRes_TopicErrors :: "createTopicsResponseV0TopicError list"

definition createTopicsResponseV0_size :: "createTopicsResponseV0 \<Rightarrow> int32" where
  "createTopicsResponseV0_size t =
     sizeofArray createTopicsResponseV0TopicError_size (ctRes_TopicErrors t)"

definition createTopicsResponseV0_writeTo :: "bufio_writer \<Rightarrow> createTopicsResponseV0 \<Rightarrow> bufio_writer" where
  "createTopicsResponseV0_writeTo w t = writeArray w createTopicsResponseV0TopicError_writeTo (ctRes_TopicErrors t)"

definition createTopicsResponseV0_readFrom :: "createTopicsResponseV0 reader" where
  "createTopicsResponseV0_readFrom =
     rbind (readArrayWith createTopicsResponseV0TopicError_readFrom) (\<lambda>TopicErrors.
     rret \<lparr>ctRes_TopicErrors = TopicErrors\<rparr>)"

definition createTopicsResponseV0_ok :: "createTopicsResponseV0 \<Rightarrow> bool" where
  "createTopicsResponseV0_ok t \<longleftrightarrow> okArray createTopicsResponseV0TopicError_ok (ctRes_TopicErrors t)"

interpretation ctRes: sized createTopicsResponseV0_size createTopicsResponseV0_writeTo
  by unfold_locales (simp_all add: createTopicsResponseV0_size_def createTopicsResponseV0_writeTo_def Let_def wire wire_size)

interpretation ctRes: message_codec createTopicsResponseV0_size createTopicsResponseV0_writeTo createTopicsResponseV0_readFrom createTopicsResponseV0_ok
  by (rule codecI [OF ctRes.sized_axioms];
      simp add: createTopicsResponseV0_writeTo_def createTopicsResponseV0_readFrom_def createTopicsResponseV0_ok_def Let_def frame)
    (rule parse parse_rules account | simp)+

lemmas [parse] = ctRes.rd_parses ctRes.array_parses
lemmas [account] = ctRes.rd_accounts
lemmas [frame] = ctRes.append ctRes.array_nil
lemmas [wire] = ctRes.append ctRes.array_append
lemmas [wire_size] = ctRes.size_length ctRes.array_size

subsection \<open>From the exported configuration to the request\<close>

record ConfigEntry =
  cfg_ConfigName :: gostring
  cfg_ConfigValue :: gostring

definition toCreateTopicsRequestV0ConfigEntry :: "ConfigEntry \<Rightarrow> createTopicsRequestV0ConfigEntry" where
  "toCreateTopicsRequestV0ConfigEntry c =
     \<lparr>ctCfg_ConfigName = cfg_ConfigName c, ctCfg_ConfigValue = cfg_ConfigValue c\<rparr>"

record ReplicaAssignment =
  ra_Partition :: int
  ra_Replicas :: int

definition toCreateTopicsRequestV0ReplicaAssignment :: "ReplicaAssignment \<Rightarrow> createTopicsRequestV0ReplicaAssignment" where
  "toCreateTopicsRequestV0ReplicaAssignment a =
     \<lparr>ctRep_Partition = word_of_int (ra_Partition a), ctRep_Replicas = word_of_int (ra_Replicas a)\<rparr>"

record TopicConfig =
  tc_Topic :: gostring
  tc_NumPartitions :: int
  tc_ReplicationFactor :: int
  tc_ReplicaAssignments :: "ReplicaAssignment list"
  tc_ConfigEntries :: "ConfigEntry list"

definition toCreateTopicsRequestV0Topic :: "TopicConfig \<Rightarrow> createTopicsRequestV0Topic" where
  "toCreateTopicsRequestV0Topic t =
     \<lparr>ctTop_Topic = tc_Topic t,
      ctTop_NumPartitions = word_of_int (tc_NumPartitions t),
      ctTop_ReplicationFactor = word_of_int (tc_ReplicationFactor t),
      ctTop_ReplicaAssignments = map toCreateTopicsRequestV0ReplicaAssignment (tc_ReplicaAssignments t),
      ctTop_ConfigEntries = map toCreateTopicsRequestV0ConfigEntry (tc_ConfigEntries t)\<rparr>"


subsection \<open>deletetopics.go\<close>

record deleteTopicsRequestV0 =
  dtReq_Topics :: "gostring list"
  dtReq_Timeout :: int32

definition deleteTopicsRequestV0_size :: "deleteTopicsRequestV0 \<Rightarrow> int32" where
  "deleteTopicsRequestV0_size t =
     sizeofStringArray (dtReq_Topics t) + sizeofInt32 (dtReq_Timeout t)"

definition deleteTopicsRequestV0_writeTo :: "bufio_writer \<Rightarrow> deleteTopicsRequestV0 \<Rightarrow> bufio_writer" where
  "deleteTopicsRequestV0_writeTo w t =
     (let w = writeStringArray w (dtReq_Topics t)
      in writeInt32 w (dtReq_Timeout t))"

interpretation dtReq: sized deleteTopicsRequestV0_size deleteTopicsRequestV0_writeTo
  by unfold_locales (simp_all add: deleteTopicsRequestV0_size_def deleteTopicsRequestV0_writeTo_def Let_def wire wire_size)

lemmas [frame] = dtReq.append dtReq.array_nil
lemmas [wire] = dtReq.append dtReq.array_append
lemmas [wire_size] = dtReq.size_length dtReq.array_size

record deleteTopicsResponseV0TopicErrorCode =
  dtErr_Topic :: gostring
  dtErr_ErrorCode :: int16

definition deleteTopicsResponseV0TopicErrorCode_size :: "deleteTopicsResponseV0TopicErrorCode \<Rightarrow> int32" where
  "deleteTopicsResponseV0TopicErrorCode_size t =
     sizeofString (dtErr_Topic t) + sizeofInt16 (dtErr_ErrorCode t)"

definition deleteTopicsResponseV0TopicErrorCode_writeTo :: "bufio_writer \<Rightarrow> deleteTopicsResponseV0TopicErrorCode \<Rightarrow> bufio_writer" where
  "deleteTopicsResponseV0TopicErrorCode_writeTo w t =
     (let w = writeString w (dtErr_Topic t)
      in writeInt16 w (dtErr_ErrorCode t))"

definition deleteTopicsResponseV0TopicErrorCode_readFrom :: "deleteTopicsResponseV0TopicErrorCode reader" where
  "deleteTopicsResponseV0TopicErrorCode_readFrom =
     rbind readString (\<lambda>Topic.
     rbind readInt16 (\<lambda>ErrorCode.
     rret \<lparr>dtErr_Topic = Topic, dtErr_ErrorCode = ErrorCode\<rparr>))"

definition deleteTopicsResponseV0TopicErrorCode_ok :: "deleteTopicsResponseV0TopicErrorCode \<Rightarrow> bool" where
  "deleteTopicsResponseV0TopicErrorCode_ok t \<longleftrightarrow> okString (dtErr_Topic t)"

interpretation dtErr: sized deleteTopicsResponseV0TopicErrorCode_size deleteTopicsResponseV0TopicErrorCode_writeTo
  by unfold_locales (simp_all add: deleteTopicsResponseV0TopicErrorCode_size_def deleteTopicsResponseV0TopicErrorCode_writeTo_def Let_def wire wire_size)

interpretation dtErr: message_codec deleteTopicsResponseV0TopicErrorCode_size deleteTopicsResponseV0TopicErrorCode_writeTo deleteTopicsResponseV0TopicErrorCode_readFrom deleteTopicsResponseV0TopicErrorCode_ok
  by (rule codecI [OF dtErr.sized_axioms];
      simp add: deleteTopicsResponseV0TopicErrorCode_writeTo_def deleteTopicsResponseV0TopicErrorCode_readFrom_def deleteTopicsResponseV0TopicErrorCode_ok_def Let_def frame)
    (rule parse parse_rules account | simp)+

lemmas [parse] = dtErr.rd_parses dtErr.array_parses
lemmas [account] = dtErr.rd_accounts
lemmas [frame] = dtErr.append dtErr.array_nil
lemmas [wire] = dtErr.append dtErr.array_append
lemmas [wire_size] = dtErr.size_length dtErr.array_size

record deleteTopicsResponseV0 =
  dtRes_TopicErrorCodes :: "deleteTopicsResponseV0TopicErrorCode list"

definition deleteTopicsResponseV0_size :: "deleteTopicsResponseV0 \<Rightarrow> int32" where
  "deleteTopicsResponseV0_size t =
     sizeofArray deleteTopicsResponseV0TopicErrorCode_size (dtRes_TopicErrorCodes t)"

definition deleteTopicsResponseV0_writeTo :: "bufio_writer \<Rightarrow> deleteTopicsResponseV0 \<Rightarrow> bufio_writer" where
  "deleteTopicsResponseV0_writeTo w t = writeArray w deleteTopicsResponseV0TopicErrorCode_writeTo (dtRes_TopicErrorCodes t)"

definition deleteTopicsResponseV0_readFrom :: "deleteTopicsResponseV0 reader" where
  "deleteTopicsResponseV0_readFrom =
     rbind (readArrayWith deleteTopicsResponseV0TopicErrorCode_readFrom) (\<lambda>TopicErrorCodes.
     rret \<lparr>dtRes_TopicErrorCodes = TopicErrorCodes\<rparr>)"

definition deleteTopicsResponseV0_ok :: "deleteTopicsResponseV0 \<Rightarrow> bool" where
  "deleteTopicsResponseV0_ok t \<longleftrightarrow> okArray deleteTopicsResponseV0TopicErrorCode_ok (dtRes_TopicErrorCodes t)"

interpretation dtRes: sized deleteTopicsResponseV0_size deleteTopicsResponseV0_writeTo
  by unfold_locales (simp_all add: deleteTopicsResponseV0_size_def deleteTopicsResponseV0_writeTo_def Let_def wire wire_size)

interpretation dtRes: message_codec deleteTopicsResponseV0_size deleteTopicsResponseV0_writeTo deleteTopicsResponseV0_readFrom deleteTopicsResponseV0_ok
  by (rule codecI [OF dtRes.sized_axioms];
      simp add: deleteTopicsResponseV0_writeTo_def deleteTopicsResponseV0_readFrom_def deleteTopicsResponseV0_ok_def Let_def frame)
    (rule parse parse_rules account | simp)+

lemmas [parse] = dtRes.rd_parses dtRes.array_parses
lemmas [account] = dtRes.rd_accounts
lemmas [frame] = dtRes.append dtRes.array_nil
lemmas [wire] = dtRes.append dtRes.array_append
lemmas [wire_size] = dtRes.size_length dtRes.array_size

subsection \<open>metadata.go\<close>

type_synonym topicMetadataRequestV1 = "gostring list"

definition topicMetadataRequestV1_size :: "topicMetadataRequestV1 \<Rightarrow> int32" where
  "topicMetadataRequestV1_size r = sizeofStringArray r"

definition topicMetadataRequestV1_writeTo :: "bufio_writer \<Rightarrow> topicMetadataRequestV1 \<Rightarrow> bufio_writer" where
  "topicMetadataRequestV1_writeTo w r = writeStringArray w r"

interpretation mdReq: sized topicMetadataRequestV1_size topicMetadataRequestV1_writeTo
  by unfold_locales (simp_all add: topicMetadataRequestV1_size_def topicMetadataRequestV1_writeTo_def wire wire_size)

lemmas [frame] = mdReq.append
lemmas [wire] = mdReq.append
lemmas [wire_size] = mdReq.size_length

record partitionMetadataV1 =
  mdPar_PartitionErrorCode :: int16
  mdPar_PartitionID :: int32
  mdPar_Leader :: int32
  mdPar_Replicas :: "int32 list"
  mdPar_Isr :: "int32 list"

definition partitionMetadataV1_size :: "partitionMetadataV1 \<Rightarrow> int32" where
  "partitionMetadataV1_size t =
     2 + 4 + 4 + sizeofInt32Array (mdPar_Replicas t) + sizeofInt32Array (mdPar_Isr t)"

definition partitionMetadataV1_writeTo :: "bufio_writer \<Rightarrow> partitionMetadataV1 \<Rightarrow> bufio_writer" where
  "partitionMetadataV1_writeTo w t =
     (let w = writeInt16 w (mdPar_PartitionErrorCode t);
          w = writeInt32 w (mdPar_PartitionID t);
          w = writeInt32 w (mdPar_Leader t);
          w = writeInt32Array w (mdPar_Replicas t)
      in writeInt32Array w (mdPar_Isr t))"

definition partitionMetadataV1_read :: "partitionMetadataV1 reader" where
  "partitionMetadataV1_read =
     rbind readInt16 (\<lambda>PartitionErrorCode.
     rbind readInt32 (\<lambda>PartitionID.
     rbind readInt32 (\<lambda>Leader.
     rbind (readSlice readInt32) (\<lambda>Replicas.
     rbind (readSlice readInt32) (\<lambda>Isr.
     rret \<lparr>mdPar_PartitionErrorCode = PartitionErrorCode, mdPar_PartitionID = PartitionID, mdPar_Leader = Leader, mdPar_Replicas = Replicas, mdPar_Isr = Isr\<rparr>)))))"

definition partitionMetadataV1_ok :: "partitionMetadataV1 \<Rightarrow> bool" where
  "partitionMetadataV1_ok t \<longleftrightarrow> length (mdPar_Replicas t) < 2 ^ 31 \<and> length (mdPar_Isr t) < 2 ^ 31"

interpretation mdPar: sized partitionMetadataV1_size partitionMetadataV1_writeTo
  by unfold_locales (simp_all add: partitionMetadataV1_size_def partitionMetadataV1_writeTo_def Let_def wire wire_size)

interpretation mdPar: message_codec partitionMetadataV1_size partitionMetadataV1_writeTo partitionMetadataV1_read partitionMetadataV1_ok
  by (rule codecI [OF mdPar.sized_axioms];
      simp add: partitionMetadataV1_writeTo_def partitionMetadataV1_read_def partitionMetadataV1_ok_def Let_def frame readSlice_eq)
    (rule parse parse_rules account | simp)+

lemmas [parse] = mdPar.rd_parses mdPar.array_parses
lemmas [account] = mdPar.rd_accounts
lemmas [frame] = mdPar.append mdPar.array_nil
lemmas [wire] = mdPar.append mdPar.array_append
lemmas [wire_size] = mdPar.size_length mdPar.array_size

record topicMetadataV1 =
  mdTop_TopicErrorCode :: int16
  mdTop_TopicName :: gostring
  mdTop_Internal :: bool
  mdTop_Partitions :: "partitionMetadataV1 list"

definition topicMetadataV1_size :: "topicMetadataV1 \<Rightarrow> int32" where
  "topicMetadataV1_size t =
     2 + 1 + sizeofString (mdTop_TopicName t) +
     sizeofArray partitionMetadataV1_size (mdTop_Partitions t)"

definition topicMetadataV1_writeTo :: "bufio_writer \<Rightarrow> topicMetadataV1 \<Rightarrow> bufio_writer" where
  "topicMetadataV1_writeTo w t =
     (let w = writeInt16 w (mdTop_TopicErrorCode t);
          w = writeString w (mdTop_TopicName t);
          w = writeBool w (mdTop_Internal t)
      in writeArray w partitionMetadataV1_writeTo (mdTop_Partitions t))"

definition topicMetadataV1_read :: "topicMetadataV1 reader" where
  "topicMetadataV1_read =
     rbind readInt16 (\<lambda>TopicErrorCode.
     rbind readString (\<lambda>TopicName.
     rbind readBool (\<lambda>Internal.
     rbind (readSlice partitionMetadataV1_read) (\<lambda>Partitions.
     rret \<lparr>mdTop_TopicErrorCode = TopicErrorCode, mdTop_TopicName = TopicName, mdTop_Internal = Internal, mdTop_Partitions = Partitions\<rparr>))))"

definition topicMetadataV1_ok :: "topicMetadataV1 \<Rightarrow> bool" where
  "topicMetadataV1_ok t \<longleftrightarrow> okString (mdTop_TopicName t) \<and> okArray partitionMetadataV1_ok (mdTop_Partitions t)"

interpretation mdTop: sized topicMetadataV1_size topicMetadataV1_writeTo
  by unfold_locales (simp_all add: topicMetadataV1_size_def topicMetadataV1_writeTo_def Let_def wire wire_size)

interpretation mdTop: message_codec topicMetadataV1_size topicMetadataV1_writeTo topicMetadataV1_read topicMetadataV1_ok
  by (rule codecI [OF mdTop.sized_axioms];
      simp add: topicMetadataV1_writeTo_def topicMetadataV1_read_def topicMetadataV1_ok_def Let_def frame readSlice_eq)
    (rule parse parse_rules account | simp)+

lemmas [parse] = mdTop.rd_parses mdTop.array_parses
lemmas [account] = mdTop.rd_accounts
lemmas [frame] = mdTop.append mdTop.array_nil
lemmas [wire] = mdTop.append mdTop.array_append
lemmas [wire_size] = mdTop.size_length mdTop.array_size

record brokerMetadataV1 =
  mdBro_NodeID :: int32
  mdBro_Host :: gostring
  mdBro_Port :: int32
  mdBro_Rack :: gostring

definition brokerMetadataV1_size :: "brokerMetadataV1 \<Rightarrow> int32" where
  "brokerMetadataV1_size t =
     4 + 4 + sizeofString (mdBro_Host t) + sizeofString (mdBro_Rack t)"

definition brokerMetadataV1_writeTo :: "bufio_writer \<Rightarrow> brokerMetadataV1 \<Rightarrow> bufio_writer" where
  "brokerMetadataV1_writeTo w t =
     (let w = writeInt32 w (mdBro_NodeID t);
          w = writeString w (mdBro_Host t);
          w = writeInt32 w (mdBro_Port t)
      in writeString w (mdBro_Rack t))"

definition brokerMetadataV1_read :: "brokerMetadataV1 reader" where
  "brokerMetadataV1_read =
     rbind readInt32 (\<lambda>NodeID.
     rbind readString (\<lambda>Host.
     rbind readInt32 (\<lambda>Port.
     rbind readString (\<lambda>Rack.
     rret \<lparr>mdBro_NodeID = NodeID, mdBro_Host = Host, mdBro_Port = Port, mdBro_Rack = Rack\<rparr>))))"

definition brokerMetadataV1_ok :: "brokerMetadataV1 \<Rightarrow> bool" where
  "brokerMetadataV1_ok t \<longleftrightarrow> okString (mdBro_Host t) \<and> okString (mdBro_Rack t)"

interpretation mdBro: sized brokerMetadataV1_size brokerMetadataV1_writeTo
  by unfold_locales (simp_all add: brokerMetadataV1_size_def brokerMetadataV1_writeTo_def Let_def wire wire_size)

interpretation mdBro: message_codec brokerMetadataV1_size brokerMetadataV1_writeTo brokerMetadataV1_read brokerMetadataV1_ok
  by (rule codecI [OF mdBro.sized_axioms];
      simp add: brokerMetadataV1_writeTo_def brokerMetadataV1_read_def brokerMetadataV1_ok_def Let_def frame readSlice_eq)
    (rule parse parse_rules account | simp)+

lemmas [parse] = mdBro.rd_parses mdBro.array_parses
lemmas [account] = mdBro.rd_accounts
lemmas [frame] = mdBro.append mdBro.array_nil
lemmas [wire] = mdBro.append mdBro.array_append
lemmas [wire_size] = mdBro.size_length mdBro.array_size

record metadataResponseV1 =
  mdRes_Brokers :: "brokerMetadataV1 list"
  mdRes_ControllerID :: int32
  mdRes_Topics :: "topicMetadataV1 list"

definition metadataResponseV1_size :: "metadataResponseV1 \<Rightarrow> int32" where
  "metadataResponseV1_size t =
     (let n1 = sizeofArray brokerMetadataV1_size (mdRes_Brokers t); n2 = sizeofArray topicMetadataV1_size (mdRes_Topics t) in 4 +
     n1 + n2)"

definition metadataResponseV1_writeTo :: "bufio_writer \<Rightarrow> metadataResponseV1 \<Rightarrow> bufio_writer" where
  "metadataResponseV1_writeTo w t =
     (let w = writeArray w brokerMetadataV1_writeTo (mdRes_Brokers t);
          w = writeInt32 w (mdRes_ControllerID t)
      in writeArray w topicMetadataV1_writeTo (mdRes_Topics t))"

definition metadataResponseV1_read :: "metadataResponseV1 reader" where
  "metadataResponseV1_read =
     rbind (readSlice brokerMetadataV1_read) (\<lambda>Brokers.
     rbind readInt32 (\<lambda>ControllerID.
     rbind (readSlice topicMetadataV1_read) (\<lambda>Topics.
     rret \<lparr>mdRes_Brokers = Brokers, mdRes_ControllerID = ControllerID, mdRes_Topics = Topics\<rparr>)))"

definition metadataResponseV1_ok :: "metadataResponseV1 \<Rightarrow> bool" where
  "metadataResponseV1_ok t \<longleftrightarrow> okArray brokerMetadataV1_ok (mdRes_Brokers t) \<and> okArray topicMetadataV1_ok (mdRes_Topics t)"

interpretation mdRes: sized metadataResponseV1_size metadataResponseV1_writeTo
  by unfold_locales (simp_all add: metadataResponseV1_size_def metadataResponseV1_writeTo_def Let_def wire wire_size)

interpretation mdRes: message_codec metadataResponseV1_size metadataResponseV1_writeTo metadataResponseV1_read metadataResponseV1_ok
  by (rule codecI [OF mdRes.sized_axioms];
      simp add: metadataResponseV1_writeTo_def metadataResponseV1_read_def metadataResponseV1_ok_def Let_def frame readSlice_eq)
    (rule parse parse_rules account | simp)+

lemmas [parse] = mdRes.rd_parses mdRes.array_parses
lemmas [account] = mdRes.rd_accounts
lemmas [frame] = mdRes.append mdRes.array_nil
lemmas [wire] = mdRes.append mdRes.array_append
lemmas [wire_size] = mdRes.size_length mdRes.array_size

end
