(* ===== verification/GroupMessages.thy ===== *)
theory GroupMessages
  imports Decode
begin

section \<open>Consumer group messages\<close>

text \<open>
  The structs of findcoordinator.go, heartbeat.go, leavegroup.go, listgroups.go, joingroup.go,
  syncgroup.go and describegroups.go with their \<open>size\<close>, \<open>writeTo\<close> and \<open>readFrom\<close> methods. The messages
  whose size is the number of bytes they write are interpretations of \<open>message_codec\<close>; the join response and
  the group assignment, whose size is not, of \<open>decodable\<close>.
\<close>

subsection \<open>findcoordinator.go\<close>

record findCoordinatorRequestV0 =
  fcReq_CoordinatorKey :: gostring

definition findCoordinatorRequestV0_size :: "findCoordinatorRequestV0 \<Rightarrow> int32" where
  "findCoordinatorRequestV0_size t =
     sizeofString (fcReq_CoordinatorKey t)"

definition findCoordinatorRequestV0_writeTo :: "bufio_writer \<Rightarrow> findCoordinatorRequestV0 \<Rightarrow> bufio_writer" where
  "findCoordinatorRequestV0_writeTo w t = writeString w (fcReq_CoordinatorKey t)"

interpretation fcReq: sized findCoordinatorRequestV0_size findCoordinatorRequestV0_writeTo
  by unfold_locales (simp_all add: findCoordinatorRequestV0_size_def findCoordinatorRequestV0_writeTo_def Let_def wire wire_size)

lemmas [frame] = fcReq.append fcReq.array_nil
lemmas [wire] = fcReq.append fcReq.array_append
lemmas [wire_size] = fcReq.size_length fcReq.array_size

record findCoordinatorResponseCoordinatorV0 =
  fcCoo_NodeID :: int32
  fcCoo_Host :: gostring
  fcCoo_Port :: int32

definition findCoordinatorResponseCoordinatorV0_size :: "findCoordinatorResponseCoordinatorV0 \<Rightarrow> int32" where
  "findCoordinatorResponseCoordinatorV0_size t =
     sizeofInt32 (fcCoo_NodeID t) + sizeofString (fcCoo_Host t) + sizeofInt32 (fcCoo_Port t)"

definition findCoordinatorResponseCoordinatorV0_writeTo :: "bufio_writer \<Rightarrow> findCoordinatorResponseCoordinatorV0 \<Rightarrow> bufio_writer" where
  "findCoordinatorResponseCoordinatorV0_writeTo w t =
     (let w = writeInt32 w (fcCoo_NodeID t);
          w = writeString w (fcCoo_Host t)
      in writeInt32 w (fcCoo_Port t))"

definition findCoordinatorResponseCoordinatorV0_readFrom :: "findCoordinatorResponseCoordinatorV0 reader" where
  "findCoordinatorResponseCoordinatorV0_readFrom =
     rbind readInt32 (\<lambda>NodeID.
     rbind readString (\<lambda>Host.
     rbind readInt32 (\<lambda>Port.
     rret \<lparr>fcCoo_NodeID = NodeID, fcCoo_Host = Host, fcCoo_Port = Port\<rparr>)))"

definition findCoordinatorResponseCoordinatorV0_ok :: "findCoordinatorResponseCoordinatorV0 \<Rightarrow> bool" where
  "findCoordinatorResponseCoordinatorV0_ok t \<longleftrightarrow> okString (fcCoo_Host t)"

interpretation fcCoo: sized findCoordinatorResponseCoordinatorV0_size findCoordinatorResponseCoordinatorV0_writeTo
  by unfold_locales (simp_all add: findCoordinatorResponseCoordinatorV0_size_def findCoordinatorResponseCoordinatorV0_writeTo_def Let_def wire wire_size)

interpretation fcCoo: message_codec findCoordinatorResponseCoordinatorV0_size findCoordinatorResponseCoordinatorV0_writeTo findCoordinatorResponseCoordinatorV0_readFrom findCoordinatorResponseCoordinatorV0_ok
  by (rule codecI [OF fcCoo.sized_axioms];
      simp add: findCoordinatorResponseCoordinatorV0_writeTo_def findCoordinatorResponseCoordinatorV0_readFrom_def findCoordinatorResponseCoordinatorV0_ok_def Let_def frame)
    (rule parse parse_rules account | simp)+

lemmas [parse] = fcCoo.rd_parses fcCoo.array_parses
lemmas [account] = fcCoo.rd_accounts
lemmas [frame] = fcCoo.append fcCoo.array_nil
lemmas [wire] = fcCoo.append fcCoo.array_append
lemmas [wire_size] = fcCoo.size_length fcCoo.array_size

record findCoordinatorResponseV0 =
  fcRes_ErrorCode :: int16
  fcRes_Coordinator :: findCoordinatorResponseCoordinatorV0

definition findCoordinatorResponseV0_size :: "findCoordinatorResponseV0 \<Rightarrow> int32" where
  "findCoordinatorResponseV0_size t =
     sizeofInt16 (fcRes_ErrorCode t) +
     findCoordinatorResponseCoordinatorV0_size (fcRes_Coordinator t)"

definition findCoordinatorResponseV0_writeTo :: "bufio_writer \<Rightarrow> findCoordinatorResponseV0 \<Rightarrow> bufio_writer" where
  "findCoordinatorResponseV0_writeTo w t =
     (let w = writeInt16 w (fcRes_ErrorCode t)
      in findCoordinatorResponseCoordinatorV0_writeTo w (fcRes_Coordinator t))"

definition findCoordinatorResponseV0_readFrom :: "findCoordinatorResponseV0 reader" where
  "findCoordinatorResponseV0_readFrom =
     rbind readInt16 (\<lambda>ErrorCode.
     rbind findCoordinatorResponseCoordinatorV0_readFrom (\<lambda>Coordinator.
     rret \<lparr>fcRes_ErrorCode = ErrorCode, fcRes_Coordinator = Coordinator\<rparr>))"

definition findCoordinatorResponseV0_ok :: "findCoordinatorResponseV0 \<Rightarrow> bool" where
  "findCoordinatorResponseV0_ok t \<longleftrightarrow> findCoordinatorResponseCoordinatorV0_ok (fcRes_Coordinator t)"

interpretation fcRes: sized findCoordinatorResponseV0_size findCoordinatorResponseV0_writeTo
  by unfold_locales (simp_all add: findCoordinatorResponseV0_size_def findCoordinatorResponseV0_writeTo_def Let_def wire wire_size)

interpretation fcRes: message_codec findCoordinatorResponseV0_size findCoordinatorResponseV0_writeTo findCoordinatorResponseV0_readFrom findCoordinatorResponseV0_ok
  by (rule codecI [OF fcRes.sized_axioms];
      simp add: findCoordinatorResponseV0_writeTo_def findCoordinatorResponseV0_readFrom_def findCoordinatorResponseV0_ok_def Let_def frame)
    (rule parse parse_rules account | simp)+

lemmas [parse] = fcRes.rd_parses fcRes.array_parses
lemmas [account] = fcRes.rd_accounts
lemmas [frame] = fcRes.append fcRes.array_nil
lemmas [wire] = fcRes.append fcRes.array_append
lemmas [wire_size] = fcRes.size_length fcRes.array_size

subsection \<open>heartbeat.go and leavegroup.go\<close>

record heartbeatRequestV0 =
  hbReq_GroupID :: gostring
  hbReq_GenerationID :: int32
  hbReq_MemberID :: gostring

definition heartbeatRequestV0_size :: "heartbeatRequestV0 \<Rightarrow> int32" where
  "heartbeatRequestV0_size t =
     sizeofString (hbReq_GroupID t) + sizeofInt32 (hbReq_GenerationID t) +
     sizeofString (hbReq_MemberID t)"

definition heartbeatRequestV0_writeTo :: "bufio_writer \<Rightarrow> heartbeatRequestV0 \<Rightarrow> bufio_writer" where
  "heartbeatRequestV0_writeTo w t =
     (let w = writeString w (hbReq_GroupID t);
          w = writeInt32 w (hbReq_GenerationID t)
      in writeString w (hbReq_MemberID t))"

interpretation hbReq: sized heartbeatRequestV0_size heartbeatRequestV0_writeTo
  by unfold_locales (simp_all add: heartbeatRequestV0_size_def heartbeatRequestV0_writeTo_def Let_def wire wire_size)

lemmas [frame] = hbReq.append hbReq.array_nil
lemmas [wire] = hbReq.append hbReq.array_append
lemmas [wire_size] = hbReq.size_length hbReq.array_size

record heartbeatResponseV0 =
  hbRes_ErrorCode :: int16

definition heartbeatResponseV0_size :: "heartbeatResponseV0 \<Rightarrow> int32" where
  "heartbeatResponseV0_size t =
     sizeofInt16 (hbRes_ErrorCode t)"

definition heartbeatResponseV0_writeTo :: "bufio_writer \<Rightarrow> heartbeatResponseV0 \<Rightarrow> bufio_writer" where
  "heartbeatResponseV0_writeTo w t = writeInt16 w (hbRes_ErrorCode t)"

definition heartbeatResponseV0_readFrom :: "heartbeatResponseV0 reader" where
  "heartbeatResponseV0_readFrom =
     rbind readInt16 (\<lambda>ErrorCode.
     rret \<lparr>hbRes_ErrorCode = ErrorCode\<rparr>)"

definition heartbeatResponseV0_ok :: "heartbeatResponseV0 \<Rightarrow> bool" where
  "heartbeatResponseV0_ok t \<longleftrightarrow> True"

interpretation hbRes: sized heartbeatResponseV0_size heartbeatResponseV0_writeTo
  by unfold_locales (simp_all add: heartbeatResponseV0_size_def heartbeatResponseV0_writeTo_def Let_def wire wire_size)

interpretation hbRes: message_codec heartbeatResponseV0_size heartbeatResponseV0_writeTo heartbeatResponseV0_readFrom heartbeatResponseV0_ok
  by (rule codecI [OF hbRes.sized_axioms];
      simp add: heartbeatResponseV0_writeTo_def heartbeatResponseV0_readFrom_def heartbeatResponseV0_ok_def Let_def frame)
    (rule parse parse_rules account | simp)+

lemmas [parse] = hbRes.rd_parses hbRes.array_parses
lemmas [account] = hbRes.rd_accounts
lemmas [frame] = hbRes.append hbRes.array_nil
lemmas [wire] = hbRes.append hbRes.array_append
lemmas [wire_size] = hbRes.size_length hbRes.array_size

record leaveGroupRequestV0 =
  lvReq_GroupID :: gostring
  lvReq_MemberID :: gostring

definition leaveGroupRequestV0_size :: "leaveGroupRequestV0 \<Rightarrow> int32" where
  "leaveGroupRequestV0_size t =
     sizeofString (lvReq_GroupID t) + sizeofString (lvReq_MemberID t)"

definition leaveGroupRequestV0_writeTo :: "bufio_writer \<Rightarrow> leaveGroupRequestV0 \<Rightarrow> bufio_writer" where
  "leaveGroupRequestV0_writeTo w t =
     (let w = writeString w (lvReq_GroupID t)
      in writeString w (lvReq_MemberID t))"

interpretation lvReq: sized leaveGroupRequestV0_size leaveGroupRequestV0_writeTo
  by unfold_locales (simp_all add: leaveGroupRequestV0_size_def leaveGroupRequestV0_writeTo_def Let_def wire wire_size)

lemmas [frame] = lvReq.append lvReq.array_nil
lemmas [wire] = lvReq.append lvReq.array_append
lemmas [wire_size] = lvReq.size_length lvReq.array_size

record leaveGroupResponseV0 =
  lvRes_ErrorCode :: int16

definition leaveGroupResponseV0_size :: "leaveGroupResponseV0 \<Rightarrow> int32" where
  "leaveGroupResponseV0_size t =
     sizeofInt16 (lvRes_ErrorCode t)"

definition leaveGroupResponseV0_writeTo :: "bufio_writer \<Rightarrow> leaveGroupResponseV0 \<Rightarrow> bufio_writer" where
  "leaveGroupResponseV0_writeTo w t = writeInt16 w (lvRes_ErrorCode t)"

definition leaveGroupResponseV0_readFrom :: "leaveGroupResponseV0 reader" where
  "leaveGroupResponseV0_readFrom =
     rbind readInt16 (\<lambda>ErrorCode.
     rret \<lparr>lvRes_ErrorCode = ErrorCode\<rparr>)"

definition leaveGroupResponseV0_ok :: "leaveGroupResponseV0 \<Rightarrow> bool" where
  "leaveGroupResponseV0_ok t \<longleftrightarrow> True"

interpretation lvRes: sized leaveGroupResponseV0_size leaveGroupResponseV0_writeTo
  by unfold_locales (simp_all add: leaveGroupResponseV0_size_def leaveGroupResponseV0_writeTo_def Let_def wire wire_size)

interpretation lvRes: message_codec leaveGroupResponseV0_size leaveGroupResponseV0_writeTo leaveGroupResponseV0_readFrom leaveGroupResponseV0_ok
  by (rule codecI [OF lvRes.sized_axioms];
      simp add: leaveGroupResponseV0_writeTo_def leaveGroupResponseV0_readFrom_def leaveGroupResponseV0_ok_def Let_def frame)
    (rule parse parse_rules account | simp)+

lemmas [parse] = lvRes.rd_parses lvRes.array_parses
lemmas [account] = lvRes.rd_accounts
lemmas [frame] = lvRes.append lvRes.array_nil
lemmas [wire] = lvRes.append lvRes.array_append
lemmas [wire_size] = lvRes.size_length lvRes.array_size

subsection \<open>listgroups.go\<close>

text \<open>The request is an empty struct.\<close>

type_synonym listGroupsRequestV1 = unit

definition listGroupsRequestV1_size :: "listGroupsRequestV1 \<Rightarrow> int32" where
  "listGroupsRequestV1_size t = 0"

definition listGroupsRequestV1_writeTo :: "bufio_writer \<Rightarrow> listGroupsRequestV1 \<Rightarrow> bufio_writer" where
  "listGroupsRequestV1_writeTo w t = w"

interpretation lgReq: sized listGroupsRequestV1_size listGroupsRequestV1_writeTo
  by unfold_locales (simp_all add: listGroupsRequestV1_size_def listGroupsRequestV1_writeTo_def)

record ListGroupsResponseGroupV1 =
  lgGrp_GroupID :: gostring
  lgGrp_ProtocolType :: gostring

definition ListGroupsResponseGroupV1_size :: "ListGroupsResponseGroupV1 \<Rightarrow> int32" where
  "ListGroupsResponseGroupV1_size t =
     sizeofString (lgGrp_GroupID t) + sizeofString (lgGrp_ProtocolType t)"

definition ListGroupsResponseGroupV1_writeTo :: "bufio_writer \<Rightarrow> ListGroupsResponseGroupV1 \<Rightarrow> bufio_writer" where
  "ListGroupsResponseGroupV1_writeTo w t =
     (let w = writeString w (lgGrp_GroupID t)
      in writeString w (lgGrp_ProtocolType t))"

definition ListGroupsResponseGroupV1_readFrom :: "ListGroupsResponseGroupV1 reader" where
  "ListGroupsResponseGroupV1_readFrom =
     rbind readString (\<lambda>GroupID.
     rbind readString (\<lambda>ProtocolType.
     rret \<lparr>lgGrp_GroupID = GroupID, lgGrp_ProtocolType = ProtocolType\<rparr>))"

definition ListGroupsResponseGroupV1_ok :: "ListGroupsResponseGroupV1 \<Rightarrow> bool" where
  "ListGroupsResponseGroupV1_ok t \<longleftrightarrow> okString (lgGrp_GroupID t) \<and> okString (lgGrp_ProtocolType t)"

interpretation lgGrp: sized ListGroupsResponseGroupV1_size ListGroupsResponseGroupV1_writeTo
  by unfold_locales (simp_all add: ListGroupsResponseGroupV1_size_def ListGroupsResponseGroupV1_writeTo_def Let_def wire wire_size)

interpretation lgGrp: message_codec ListGroupsResponseGroupV1_size ListGroupsResponseGroupV1_writeTo ListGroupsResponseGroupV1_readFrom ListGroupsResponseGroupV1_ok
  by (rule codecI [OF lgGrp.sized_axioms];
      simp add: ListGroupsResponseGroupV1_writeTo_def ListGroupsResponseGroupV1_readFrom_def ListGroupsResponseGroupV1_ok_def Let_def frame)
    (rule parse parse_rules account | simp)+

lemmas [parse] = lgGrp.rd_parses lgGrp.array_parses
lemmas [account] = lgGrp.rd_accounts
lemmas [frame] = lgGrp.append lgGrp.array_nil
lemmas [wire] = lgGrp.append lgGrp.array_append
lemmas [wire_size] = lgGrp.size_length lgGrp.array_size

record listGroupsResponseV1 =
  lgRes_ThrottleTimeMS :: int32
  lgRes_ErrorCode :: int16
  lgRes_Groups :: "ListGroupsResponseGroupV1 list"

definition listGroupsResponseV1_size :: "listGroupsResponseV1 \<Rightarrow> int32" where
  "listGroupsResponseV1_size t =
     sizeofInt32 (lgRes_ThrottleTimeMS t) + sizeofInt16 (lgRes_ErrorCode t) +
     sizeofArray ListGroupsResponseGroupV1_size (lgRes_Groups t)"

definition listGroupsResponseV1_writeTo :: "bufio_writer \<Rightarrow> listGroupsResponseV1 \<Rightarrow> bufio_writer" where
  "listGroupsResponseV1_writeTo w t =
     (let w = writeInt32 w (lgRes_ThrottleTimeMS t);
          w = writeInt16 w (lgRes_ErrorCode t)
      in writeArray w ListGroupsResponseGroupV1_writeTo (lgRes_Groups t))"

definition listGroupsResponseV1_readFrom :: "listGroupsResponseV1 reader" where
  "listGroupsResponseV1_readFrom =
     rbind readInt32 (\<lambda>ThrottleTimeMS.
     rbind readInt16 (\<lambda>ErrorCode.
     rbind (readArrayWith ListGroupsResponseGroupV1_readFrom) (\<lambda>Groups.
     rret \<lparr>lgRes_ThrottleTimeMS = ThrottleTimeMS, lgRes_ErrorCode = ErrorCode, lgRes_Groups = Groups\<rparr>)))"

definition listGroupsResponseV1_ok :: "listGroupsResponseV1 \<Rightarrow> bool" where
  "listGroupsResponseV1_ok t \<longleftrightarrow> okArray ListGroupsResponseGroupV1_ok (lgRes_Groups t)"

interpretation lgRes: sized listGroupsResponseV1_size listGroupsResponseV1_writeTo
  by unfold_locales (simp_all add: listGroupsResponseV1_size_def listGroupsResponseV1_writeTo_def Let_def wire wire_size)

interpretation lgRes: message_codec listGroupsResponseV1_size listGroupsResponseV1_writeTo listGroupsResponseV1_readFrom listGroupsResponseV1_ok
  by (rule codecI [OF lgRes.sized_axioms];
      simp add: listGroupsResponseV1_writeTo_def listGroupsResponseV1_readFrom_def listGroupsResponseV1_ok_def Let_def frame)
    (rule parse parse_rules account | simp)+

lemmas [parse] = lgRes.rd_parses lgRes.array_parses
lemmas [account] = lgRes.rd_accounts
lemmas [frame] = lgRes.append lgRes.array_nil
lemmas [wire] = lgRes.append lgRes.array_append
lemmas [wire_size] = lgRes.size_length lgRes.array_size

subsection \<open>joingroup.go\<close>

record groupMetadata =
  gm_Version :: int16
  gm_Topics :: "gostring list"
  gm_UserData :: bytes

definition groupMetadata_size :: "groupMetadata \<Rightarrow> int32" where
  "groupMetadata_size t =
     sizeofInt16 (gm_Version t) + sizeofStringArray (gm_Topics t) + sizeofBytes (gm_UserData t)"

definition groupMetadata_writeTo :: "bufio_writer \<Rightarrow> groupMetadata \<Rightarrow> bufio_writer" where
  "groupMetadata_writeTo w t =
     (let w = writeInt16 w (gm_Version t);
          w = writeStringArray w (gm_Topics t)
      in writeBytes w (gm_UserData t))"

definition groupMetadata_readFrom :: "groupMetadata reader" where
  "groupMetadata_readFrom =
     rbind readInt16 (\<lambda>Version.
     rbind readStringArray (\<lambda>Topics.
     rbind readBytes (\<lambda>UserData.
     rret \<lparr>gm_Version = Version, gm_Topics = Topics, gm_UserData = UserData\<rparr>)))"

definition groupMetadata_ok :: "groupMetadata \<Rightarrow> bool" where
  "groupMetadata_ok t \<longleftrightarrow> okArray okString (gm_Topics t) \<and> okBytes (gm_UserData t)"

interpretation gm: sized groupMetadata_size groupMetadata_writeTo
  by unfold_locales (simp_all add: groupMetadata_size_def groupMetadata_writeTo_def Let_def wire wire_size)

interpretation gm: message_codec groupMetadata_size groupMetadata_writeTo groupMetadata_readFrom groupMetadata_ok
  by (rule codecI [OF gm.sized_axioms];
      simp add: groupMetadata_writeTo_def groupMetadata_readFrom_def groupMetadata_ok_def Let_def frame)
    (rule parse parse_rules account | simp)+

lemmas [parse] = gm.rd_parses gm.array_parses
lemmas [account] = gm.rd_accounts
lemmas [frame] = gm.append gm.array_nil
lemmas [wire] = gm.append gm.array_append
lemmas [wire_size] = gm.size_length gm.array_size

definition groupMetadata_bytes :: "groupMetadata \<Rightarrow> byte list" where
  "groupMetadata_bytes t = groupMetadata_writeTo [] t"

record joinGroupRequestGroupProtocolV1 =
  jgPro_ProtocolName :: gostring
  jgPro_ProtocolMetadata :: bytes

definition joinGroupRequestGroupProtocolV1_size :: "joinGroupRequestGroupProtocolV1 \<Rightarrow> int32" where
  "joinGroupRequestGroupProtocolV1_size t =
     sizeofString (jgPro_ProtocolName t) + sizeofBytes (jgPro_ProtocolMetadata t)"

definition joinGroupRequestGroupProtocolV1_writeTo :: "bufio_writer \<Rightarrow> joinGroupRequestGroupProtocolV1 \<Rightarrow> bufio_writer" where
  "joinGroupRequestGroupProtocolV1_writeTo w t =
     (let w = writeString w (jgPro_ProtocolName t)
      in writeBytes w (jgPro_ProtocolMetadata t))"

interpretation jgPro: sized joinGroupRequestGroupProtocolV1_size joinGroupRequestGroupProtocolV1_writeTo
  by unfold_locales (simp_all add: joinGroupRequestGroupProtocolV1_size_def joinGroupRequestGroupProtocolV1_writeTo_def Let_def wire wire_size)

lemmas [frame] = jgPro.append jgPro.array_nil
lemmas [wire] = jgPro.append jgPro.array_append
lemmas [wire_size] = jgPro.size_length jgPro.array_size

record joinGroupRequestV1 =
  jgReq_GroupID :: gostring
  jgReq_SessionTimeout :: int32
  jgReq_RebalanceTimeout :: int32
  jgReq_MemberID :: gostring
  jgReq_ProtocolType :: gostring
  jgReq_GroupProtocols :: "joinGroupRequestGroupProtocolV1 list"

definition joinGroupRequestV1_size :: "joinGroupRequestV1 \<Rightarrow> int32" where
  "joinGroupRequestV1_size t =
     sizeofString (jgReq_GroupID t) + sizeofInt32 (jgReq_SessionTimeout t) +
     sizeofInt32 (jgReq_RebalanceTimeout t) + sizeofString (jgReq_MemberID t) +
     sizeofString (jgReq_ProtocolType t) +
     sizeofArray joinGroupRequestGroupProtocolV1_size (jgReq_GroupProtocols t)"

definition joinGroupRequestV1_writeTo :: "bufio_writer \<Rightarrow> joinGroupRequestV1 \<Rightarrow> bufio_writer" where
  "joinGroupRequestV1_writeTo w t =
     (let w = writeString w (jgReq_GroupID t);
          w = writeInt32 w (jgReq_SessionTimeout t);
          w = writeInt32 w (jgReq_RebalanceTimeout t);
          w = writeString w (jgReq_MemberID t);
          w = writeString w (jgReq_ProtocolType t)
      in writeArray w joinGroupRequestGroupProtocolV1_writeTo (jgReq_GroupProtocols t))"

interpretation jgReq: sized joinGroupRequestV1_size joinGroupRequestV1_writeTo
  by unfold_locales (simp_all add: joinGroupRequestV1_size_def joinGroupRequestV1_writeTo_def Let_def wire wire_size)

lemmas [frame] = jgReq.append jgReq.array_nil
lemmas [wire] = jgReq.append jgReq.array_append
lemmas [wire_size] = jgReq.size_length jgReq.array_size

record joinGroupResponseMemberV1 =
  jgMem_MemberID :: gostring
  jgMem_MemberMetadata :: bytes

definition joinGroupResponseMemberV1_size :: "joinGroupResponseMemberV1 \<Rightarrow> int32" where
  "joinGroupResponseMemberV1_size t =
     sizeofString (jgMem_MemberID t) + sizeofBytes (jgMem_MemberMetadata t)"

definition joinGroupResponseMemberV1_writeTo :: "bufio_writer \<Rightarrow> joinGroupResponseMemberV1 \<Rightarrow> bufio_writer" where
  "joinGroupResponseMemberV1_writeTo w t =
     (let w = writeString w (jgMem_MemberID t)
      in writeBytes w (jgMem_MemberMetadata t))"

definition joinGroupResponseMemberV1_readFrom :: "joinGroupResponseMemberV1 reader" where
  "joinGroupResponseMemberV1_readFrom =
     rbind readString (\<lambda>MemberID.
     rbind readBytes (\<lambda>MemberMetadata.
     rret \<lparr>jgMem_MemberID = MemberID, jgMem_MemberMetadata = MemberMetadata\<rparr>))"

definition joinGroupResponseMemberV1_ok :: "joinGroupResponseMemberV1 \<Rightarrow> bool" where
  "joinGroupResponseMemberV1_ok t \<longleftrightarrow> okString (jgMem_MemberID t) \<and> okBytes (jgMem_MemberMetadata t)"

interpretation jgMem: sized joinGroupResponseMemberV1_size joinGroupResponseMemberV1_writeTo
  by unfold_locales (simp_all add: joinGroupResponseMemberV1_size_def joinGroupResponseMemberV1_writeTo_def Let_def wire wire_size)

interpretation jgMem: message_codec joinGroupResponseMemberV1_size joinGroupResponseMemberV1_writeTo joinGroupResponseMemberV1_readFrom joinGroupResponseMemberV1_ok
  by (rule codecI [OF jgMem.sized_axioms];
      simp add: joinGroupResponseMemberV1_writeTo_def joinGroupResponseMemberV1_readFrom_def joinGroupResponseMemberV1_ok_def Let_def frame)
    (rule parse parse_rules account | simp)+

lemmas [parse] = jgMem.rd_parses jgMem.array_parses
lemmas [account] = jgMem.rd_accounts
lemmas [frame] = jgMem.append jgMem.array_nil
lemmas [wire] = jgMem.append jgMem.array_append
lemmas [wire_size] = jgMem.size_length jgMem.array_size

record joinGroupResponseV1 =
  jgRes_ErrorCode :: int16
  jgRes_GenerationID :: int32
  jgRes_GroupProtocol :: gostring
  jgRes_LeaderID :: gostring
  jgRes_MemberID :: gostring
  jgRes_Members :: "joinGroupResponseMemberV1 list"

definition joinGroupResponseV1_writeTo :: "bufio_writer \<Rightarrow> joinGroupResponseV1 \<Rightarrow> bufio_writer" where
  "joinGroupResponseV1_writeTo w t =
     (let w = writeInt16 w (jgRes_ErrorCode t);
          w = writeInt32 w (jgRes_GenerationID t);
          w = writeString w (jgRes_GroupProtocol t);
          w = writeString w (jgRes_LeaderID t);
          w = writeString w (jgRes_MemberID t)
      in writeArray w joinGroupResponseMemberV1_writeTo (jgRes_Members t))"

definition joinGroupResponseV1_readFrom :: "joinGroupResponseV1 reader" where
  "joinGroupResponseV1_readFrom =
     rbind readInt16 (\<lambda>ErrorCode.
     rbind readInt32 (\<lambda>GenerationID.
     rbind readString (\<lambda>GroupProtocol.
     rbind readString (\<lambda>LeaderID.
     rbind readString (\<lambda>MemberID.
     rbind (readArrayWith joinGroupResponseMemberV1_readFrom) (\<lambda>Members.
     rret \<lparr>jgRes_ErrorCode = ErrorCode, jgRes_GenerationID = GenerationID, jgRes_GroupProtocol = GroupProtocol, jgRes_LeaderID = LeaderID, jgRes_MemberID = MemberID, jgRes_Members = Members\<rparr>))))))"

definition joinGroupResponseV1_ok :: "joinGroupResponseV1 \<Rightarrow> bool" where
  "joinGroupResponseV1_ok t \<longleftrightarrow> okString (jgRes_GroupProtocol t) \<and> okString (jgRes_LeaderID t) \<and> okString (jgRes_MemberID t) \<and> okArray joinGroupResponseMemberV1_ok (jgRes_Members t)"

text \<open>
  The size of a join response counts \<open>len(t.MemberID)\<close> members, the length of a string, instead of
  \<open>len(t.Members)\<close>: the call panics when the string is longer than the slice. The client only reads
  this message.
\<close>

definition joinGroupResponseV1_size :: "joinGroupResponseV1 \<Rightarrow> (go_error, int32) result" where
  "joinGroupResponseV1_size t =
     (if length (jgRes_MemberID t) > length (jgRes_Members t) then Panic IndexOutOfRange
      else Ok (sizeofInt16 (jgRes_ErrorCode t) + sizeofInt32 (jgRes_GenerationID t) +
        sizeofString (jgRes_GroupProtocol t) + sizeofString (jgRes_LeaderID t) + sizeofString (jgRes_MemberID t) +
        sizeofArray joinGroupResponseMemberV1_size (take (length (jgRes_MemberID t)) (jgRes_Members t))))"


lemma joinGroupResponseV1_append: "joinGroupResponseV1_writeTo w x = w @ joinGroupResponseV1_writeTo [] x"
  by (simp add: joinGroupResponseV1_writeTo_def Let_def frame)

interpretation jgRes: decodable joinGroupResponseV1_writeTo joinGroupResponseV1_readFrom joinGroupResponseV1_ok
  by (rule decodable.intro [OF joinGroupResponseV1_append];
      simp add: joinGroupResponseV1_writeTo_def joinGroupResponseV1_readFrom_def joinGroupResponseV1_ok_def Let_def frame)
    (rule parse parse_rules account | simp)+


subsection \<open>syncgroup.go\<close>

text \<open>
  The map \<open>Topics\<close> of a \<open>groupAssignment\<close> is the list of its entries in the order in which \<open>range\<close>
  visits them. The size counts two bytes for the number of topics, for which \<open>writeTo\<close> writes four.
\<close>

record groupAssignment =
  ga_Version :: int16
  ga_Topics :: "(gostring \<times> int32 list) list"
  ga_UserData :: bytes

definition groupAssignment_size :: "groupAssignment \<Rightarrow> int32" where
  "groupAssignment_size t =
     (let sz = sizeofInt16 (ga_Version t) + sizeofInt16 (of_nat (length (ga_Topics t)));
          sz = fold (\<lambda>(topic, partitions) sz. sz + (sizeofString topic + sizeofInt32Array partitions)) (ga_Topics t) sz
      in sz + sizeofBytes (ga_UserData t))"

definition writeTopicPartitions :: "bufio_writer \<Rightarrow> gostring \<times> int32 list \<Rightarrow> bufio_writer" where
  "writeTopicPartitions w e = (let (topic, partitions) = e; w = writeString w topic in writeInt32Array w partitions)"

definition groupAssignment_writeTo :: "bufio_writer \<Rightarrow> groupAssignment \<Rightarrow> bufio_writer" where
  "groupAssignment_writeTo w t =
     (let w = writeInt16 w (ga_Version t);
          w = writeInt32 w (of_nat (length (ga_Topics t)));
          w = fold (\<lambda>e w. writeTopicPartitions w e) (ga_Topics t) w
      in writeBytes w (ga_UserData t))"

definition groupAssignment_readFrom :: "groupAssignment reader" where
  "groupAssignment_readFrom =
     rbind remaining (\<lambda>size.
       if size = 0 then rret \<lparr>ga_Version = 0, ga_Topics = [], ga_UserData = None\<rparr>
       else
         rbind readInt16 (\<lambda>Version.
         rbind readMapStringInt32 (\<lambda>Topics.
         rbind readBytes (\<lambda>UserData.
         rret \<lparr>ga_Version = Version, ga_Topics = Topics, ga_UserData = UserData\<rparr>))))"

definition groupAssignment_bytes :: "groupAssignment \<Rightarrow> byte list" where
  "groupAssignment_bytes t = groupAssignment_writeTo [] t"

definition groupAssignment_ok :: "groupAssignment \<Rightarrow> bool" where
  "groupAssignment_ok t \<longleftrightarrow>
     okArray (\<lambda>(topic, partitions). okString topic \<and> length partitions < 2 ^ 31) (ga_Topics t) \<and>
     okBytes (ga_UserData t)"

lemma writeTopicPartitions_append: "writeTopicPartitions w e = w @ writeTopicPartitions [] e"
  by (cases e) (simp add: writeTopicPartitions_def frame)

interpretation tps: decodable writeTopicPartitions
  "rbind readString (\<lambda>key. rbind (readArrayWith readInt32) (\<lambda>values. rret (key, values)))"
  "\<lambda>(topic, partitions). okString topic \<and> length partitions < 2 ^ 31"
  by (rule decodable.intro [OF writeTopicPartitions_append];
      (simp add: writeTopicPartitions_def frame split: prod.splits)?)
    (rule parse parse_rules account | simp | clarsimp simp: frame)+

lemma groupAssignment_writeTo_eq:
  "groupAssignment_writeTo w t =
     w @ writeInt16 [] (ga_Version t) @ writeArray [] writeTopicPartitions (ga_Topics t) @ writeBytes [] (ga_UserData t)"
proof -
  have "fold (\<lambda>e w. writeTopicPartitions w e) es w = w @ concat (map (writeTopicPartitions []) es)" for es w
  proof (induction es arbitrary: w)
    case (Cons e es)
    then show ?case using writeTopicPartitions_append [of w e] by simp
  qed simp
  then show ?thesis
    by (simp add: groupAssignment_writeTo_def Let_def writeArray_def wire)
qed

lemma readMapStringInt32_eq:
  "readMapStringInt32 =
     readArrayWith (rbind readString (\<lambda>key. rbind (readArrayWith readInt32) (\<lambda>values. rret (key, values))))"
  by (simp add: readMapStringInt32_def readArrayWith_def)

interpretation ga: decodable groupAssignment_writeTo groupAssignment_readFrom groupAssignment_ok
proof unfold_locales
  fix w x
  show "groupAssignment_writeTo w x = w @ groupAssignment_writeTo [] x"
    by (simp add: groupAssignment_writeTo_eq)
  have "length (groupAssignment_writeTo [] x) \<ge> 2"
    by (simp add: groupAssignment_writeTo_eq wire)
  then show "parses groupAssignment_readFrom (groupAssignment_writeTo [] x) x" if "groupAssignment_ok x"
    using that unfolding groupAssignment_readFrom_def readMapStringInt32_eq groupAssignment_ok_def
    by (intro parses_remaining) (auto simp: groupAssignment_writeTo_eq
        intro!: parses_rbind [OF parse_prims(2)] parses_rbind [OF tps.array_parses] parses_rbind_ret [OF parse_prims(7)])
next
  show "accounts groupAssignment_readFrom"
    unfolding groupAssignment_readFrom_def by (intro account accounts_if)
qed


record syncGroupRequestGroupAssignmentV0 =
  sgAsg_MemberID :: gostring
  sgAsg_MemberAssignments :: bytes

definition syncGroupRequestGroupAssignmentV0_size :: "syncGroupRequestGroupAssignmentV0 \<Rightarrow> int32" where
  "syncGroupRequestGroupAssignmentV0_size t =
     sizeofString (sgAsg_MemberID t) + sizeofBytes (sgAsg_MemberAssignments t)"

definition syncGroupRequestGroupAssignmentV0_writeTo :: "bufio_writer \<Rightarrow> syncGroupRequestGroupAssignmentV0 \<Rightarrow> bufio_writer" where
  "syncGroupRequestGroupAssignmentV0_writeTo w t =
     (let w = writeString w (sgAsg_MemberID t)
      in writeBytes w (sgAsg_MemberAssignments t))"

interpretation sgAsg: sized syncGroupRequestGroupAssignmentV0_size syncGroupRequestGroupAssignmentV0_writeTo
  by unfold_locales (simp_all add: syncGroupRequestGroupAssignmentV0_size_def syncGroupRequestGroupAssignmentV0_writeTo_def Let_def wire wire_size)

lemmas [frame] = sgAsg.append sgAsg.array_nil
lemmas [wire] = sgAsg.append sgAsg.array_append
lemmas [wire_size] = sgAsg.size_length sgAsg.array_size

record syncGroupRequestV0 =
  sgReq_GroupID :: gostring
  sgReq_GenerationID :: int32
  sgReq_MemberID :: gostring
  sgReq_GroupAssignments :: "syncGroupRequestGroupAssignmentV0 list"

definition syncGroupRequestV0_size :: "syncGroupRequestV0 \<Rightarrow> int32" where
  "syncGroupRequestV0_size t =
     sizeofString (sgReq_GroupID t) + sizeofInt32 (sgReq_GenerationID t) +
     sizeofString (sgReq_MemberID t) +
     sizeofArray syncGroupRequestGroupAssignmentV0_size (sgReq_GroupAssignments t)"

definition syncGroupRequestV0_writeTo :: "bufio_writer \<Rightarrow> syncGroupRequestV0 \<Rightarrow> bufio_writer" where
  "syncGroupRequestV0_writeTo w t =
     (let w = writeString w (sgReq_GroupID t);
          w = writeInt32 w (sgReq_GenerationID t);
          w = writeString w (sgReq_MemberID t)
      in writeArray w syncGroupRequestGroupAssignmentV0_writeTo (sgReq_GroupAssignments t))"

interpretation sgReq: sized syncGroupRequestV0_size syncGroupRequestV0_writeTo
  by unfold_locales (simp_all add: syncGroupRequestV0_size_def syncGroupRequestV0_writeTo_def Let_def wire wire_size)

lemmas [frame] = sgReq.append sgReq.array_nil
lemmas [wire] = sgReq.append sgReq.array_append
lemmas [wire_size] = sgReq.size_length sgReq.array_size

record syncGroupResponseV0 =
  sgRes_ErrorCode :: int16
  sgRes_MemberAssignments :: bytes

definition syncGroupResponseV0_size :: "syncGroupResponseV0 \<Rightarrow> int32" where
  "syncGroupResponseV0_size t =
     sizeofInt16 (sgRes_ErrorCode t) + sizeofBytes (sgRes_MemberAssignments t)"

definition syncGroupResponseV0_writeTo :: "bufio_writer \<Rightarrow> syncGroupResponseV0 \<Rightarrow> bufio_writer" where
  "syncGroupResponseV0_writeTo w t =
     (let w = writeInt16 w (sgRes_ErrorCode t)
      in writeBytes w (sgRes_MemberAssignments t))"

definition syncGroupResponseV0_readFrom :: "syncGroupResponseV0 reader" where
  "syncGroupResponseV0_readFrom =
     rbind readInt16 (\<lambda>ErrorCode.
     rbind readBytes (\<lambda>MemberAssignments.
     rret \<lparr>sgRes_ErrorCode = ErrorCode, sgRes_MemberAssignments = MemberAssignments\<rparr>))"

definition syncGroupResponseV0_ok :: "syncGroupResponseV0 \<Rightarrow> bool" where
  "syncGroupResponseV0_ok t \<longleftrightarrow> okBytes (sgRes_MemberAssignments t)"

interpretation sgRes: sized syncGroupResponseV0_size syncGroupResponseV0_writeTo
  by unfold_locales (simp_all add: syncGroupResponseV0_size_def syncGroupResponseV0_writeTo_def Let_def wire wire_size)

interpretation sgRes: message_codec syncGroupResponseV0_size syncGroupResponseV0_writeTo syncGroupResponseV0_readFrom syncGroupResponseV0_ok
  by (rule codecI [OF sgRes.sized_axioms];
      simp add: syncGroupResponseV0_writeTo_def syncGroupResponseV0_readFrom_def syncGroupResponseV0_ok_def Let_def frame)
    (rule parse parse_rules account | simp)+

lemmas [parse] = sgRes.rd_parses sgRes.array_parses
lemmas [account] = sgRes.rd_accounts
lemmas [frame] = sgRes.append sgRes.array_nil
lemmas [wire] = sgRes.append sgRes.array_append
lemmas [wire_size] = sgRes.size_length sgRes.array_size

subsection \<open>describegroups.go\<close>

record describeGroupsRequestV0 =
  dgReq_GroupIDs :: "gostring list"

definition describeGroupsRequestV0_size :: "describeGroupsRequestV0 \<Rightarrow> int32" where
  "describeGroupsRequestV0_size t =
     sizeofStringArray (dgReq_GroupIDs t)"

definition describeGroupsRequestV0_writeTo :: "bufio_writer \<Rightarrow> describeGroupsRequestV0 \<Rightarrow> bufio_writer" where
  "describeGroupsRequestV0_writeTo w t = writeStringArray w (dgReq_GroupIDs t)"

interpretation dgReq: sized describeGroupsRequestV0_size describeGroupsRequestV0_writeTo
  by unfold_locales (simp_all add: describeGroupsRequestV0_size_def describeGroupsRequestV0_writeTo_def Let_def wire wire_size)

lemmas [frame] = dgReq.append dgReq.array_nil
lemmas [wire] = dgReq.append dgReq.array_append
lemmas [wire_size] = dgReq.size_length dgReq.array_size

record describeGroupsResponseMemberV0 =
  dgMem_MemberID :: gostring
  dgMem_ClientID :: gostring
  dgMem_ClientHost :: gostring
  dgMem_MemberMetadata :: bytes
  dgMem_MemberAssignments :: bytes

definition describeGroupsResponseMemberV0_size :: "describeGroupsResponseMemberV0 \<Rightarrow> int32" where
  "describeGroupsResponseMemberV0_size t =
     sizeofString (dgMem_MemberID t) + sizeofString (dgMem_ClientID t) +
     sizeofString (dgMem_ClientHost t) + sizeofBytes (dgMem_MemberMetadata t) +
     sizeofBytes (dgMem_MemberAssignments t)"

definition describeGroupsResponseMemberV0_writeTo :: "bufio_writer \<Rightarrow> describeGroupsResponseMemberV0 \<Rightarrow> bufio_writer" where
  "describeGroupsResponseMemberV0_writeTo w t =
     (let w = writeString w (dgMem_MemberID t);
          w = writeString w (dgMem_ClientID t);
          w = writeString w (dgMem_ClientHost t);
          w = writeBytes w (dgMem_MemberMetadata t)
      in writeBytes w (dgMem_MemberAssignments t))"

definition describeGroupsResponseMemberV0_readFrom :: "describeGroupsResponseMemberV0 reader" where
  "describeGroupsResponseMemberV0_readFrom =
     rbind readString (\<lambda>MemberID.
     rbind readString (\<lambda>ClientID.
     rbind readString (\<lambda>ClientHost.
     rbind readBytes (\<lambda>MemberMetadata.
     rbind readBytes (\<lambda>MemberAssignments.
     rret \<lparr>dgMem_MemberID = MemberID, dgMem_ClientID = ClientID, dgMem_ClientHost = ClientHost, dgMem_MemberMetadata = MemberMetadata, dgMem_MemberAssignments = MemberAssignments\<rparr>)))))"

definition describeGroupsResponseMemberV0_ok :: "describeGroupsResponseMemberV0 \<Rightarrow> bool" where
  "describeGroupsResponseMemberV0_ok t \<longleftrightarrow> okString (dgMem_MemberID t) \<and> okString (dgMem_ClientID t) \<and> okString (dgMem_ClientHost t) \<and> okBytes (dgMem_MemberMetadata t) \<and> okBytes (dgMem_MemberAssignments t)"

interpretation dgMem: sized describeGroupsResponseMemberV0_size describeGroupsResponseMemberV0_writeTo
  by unfold_locales (simp_all add: describeGroupsResponseMemberV0_size_def describeGroupsResponseMemberV0_writeTo_def Let_def wire wire_size)

interpretation dgMem: message_codec describeGroupsResponseMemberV0_size describeGroupsResponseMemberV0_writeTo describeGroupsResponseMemberV0_readFrom describeGroupsResponseMemberV0_ok
  by (rule codecI [OF dgMem.sized_axioms];
      simp add: describeGroupsResponseMemberV0_writeTo_def describeGroupsResponseMemberV0_readFrom_def describeGroupsResponseMemberV0_ok_def Let_def frame)
    (rule parse parse_rules account | simp)+

lemmas [parse] = dgMem.rd_parses dgMem.array_parses
lemmas [account] = dgMem.rd_accounts
lemmas [frame] = dgMem.append dgMem.array_nil
lemmas [wire] = dgMem.append dgMem.array_append
lemmas [wire_size] = dgMem.size_length dgMem.array_size

record describeGroupsResponseGroupV0 =
  dgGrp_ErrorCode :: int16
  dgGrp_GroupID :: gostring
  dgGrp_State :: gostring
  dgGrp_ProtocolType :: gostring
  dgGrp_Protocol :: gostring
  dgGrp_Members :: "describeGroupsResponseMemberV0 list"

definition describeGroupsResponseGroupV0_size :: "describeGroupsResponseGroupV0 \<Rightarrow> int32" where
  "describeGroupsResponseGroupV0_size t =
     sizeofInt16 (dgGrp_ErrorCode t) + sizeofString (dgGrp_GroupID t) +
     sizeofString (dgGrp_State t) + sizeofString (dgGrp_ProtocolType t) +
     sizeofString (dgGrp_Protocol t) +
     sizeofArray describeGroupsResponseMemberV0_size (dgGrp_Members t)"

definition describeGroupsResponseGroupV0_writeTo :: "bufio_writer \<Rightarrow> describeGroupsResponseGroupV0 \<Rightarrow> bufio_writer" where
  "describeGroupsResponseGroupV0_writeTo w t =
     (let w = writeInt16 w (dgGrp_ErrorCode t);
          w = writeString w (dgGrp_GroupID t);
          w = writeString w (dgGrp_State t);
          w = writeString w (dgGrp_ProtocolType t);
          w = writeString w (dgGrp_Protocol t)
      in writeArray w describeGroupsResponseMemberV0_writeTo (dgGrp_Members t))"

definition describeGroupsResponseGroupV0_readFrom :: "describeGroupsResponseGroupV0 reader" where
  "describeGroupsResponseGroupV0_readFrom =
     rbind readInt16 (\<lambda>ErrorCode.
     rbind readString (\<lambda>GroupID.
     rbind readString (\<lambda>State.
     rbind readString (\<lambda>ProtocolType.
     rbind readString (\<lambda>Protocol.
     rbind (readArrayWith describeGroupsResponseMemberV0_readFrom) (\<lambda>Members.
     rret \<lparr>dgGrp_ErrorCode = ErrorCode, dgGrp_GroupID = GroupID, dgGrp_State = State, dgGrp_ProtocolType = ProtocolType, dgGrp_Protocol = Protocol, dgGrp_Members = Members\<rparr>))))))"

definition describeGroupsResponseGroupV0_ok :: "describeGroupsResponseGroupV0 \<Rightarrow> bool" where
  "describeGroupsResponseGroupV0_ok t \<longleftrightarrow> okString (dgGrp_GroupID t) \<and> okString (dgGrp_State t) \<and> okString (dgGrp_ProtocolType t) \<and> okString (dgGrp_Protocol t) \<and> okArray describeGroupsResponseMemberV0_ok (dgGrp_Members t)"

interpretation dgGrp: sized describeGroupsResponseGroupV0_size describeGroupsResponseGroupV0_writeTo
  by unfold_locales (simp_all add: describeGroupsResponseGroupV0_size_def describeGroupsResponseGroupV0_writeTo_def Let_def wire wire_size)

interpretation dgGrp: message_codec describeGroupsResponseGroupV0_size describeGroupsResponseGroupV0_writeTo describeGroupsResponseGroupV0_readFrom describeGroupsResponseGroupV0_ok
  by (rule codecI [OF dgGrp.sized_axioms];
      simp add: describeGroupsResponseGroupV0_writeTo_def describeGroupsResponseGroupV0_readFrom_def describeGroupsResponseGroupV0_ok_def Let_def frame)
    (rule parse parse_rules account | simp)+

lemmas [parse] = dgGrp.rd_parses dgGrp.array_parses
lemmas [account] = dgGrp.rd_accounts
lemmas [frame] = dgGrp.append dgGrp.array_nil
lemmas [wire] = dgGrp.append dgGrp.array_append
lemmas [wire_size] = dgGrp.size_length dgGrp.array_size

record describeGroupsResponseV0 =
  dgRes_Groups :: "describeGroupsResponseGroupV0 list"

definition describeGroupsResponseV0_size :: "describeGroupsResponseV0 \<Rightarrow> int32" where
  "describeGroupsResponseV0_size t =
     sizeofArray describeGroupsResponseGroupV0_size (dgRes_Groups t)"

definition describeGroupsResponseV0_writeTo :: "bufio_writer \<Rightarrow> describeGroupsResponseV0 \<Rightarrow> bufio_writer" where
  "describeGroupsResponseV0_writeTo w t = writeArray w describeGroupsResponseGroupV0_writeTo (dgRes_Groups t)"

definition describeGroupsResponseV0_readFrom :: "describeGroupsResponseV0 reader" where
  "describeGroupsResponseV0_readFrom =
     rbind (readArrayWith describeGroupsResponseGroupV0_readFrom) (\<lambda>Groups.
     rret \<lparr>dgRes_Groups = Groups\<rparr>)"

definition describeGroupsResponseV0_ok :: "describeGroupsResponseV0 \<Rightarrow> bool" where
  "describeGroupsResponseV0_ok t \<longleftrightarrow> okArray describeGroupsResponseGroupV0_ok (dgRes_Groups t)"

interpretation dgRes: sized describeGroupsResponseV0_size describeGroupsResponseV0_writeTo
  by unfold_locales (simp_all add: describeGroupsResponseV0_size_def describeGroupsResponseV0_writeTo_def Let_def wire wire_size)

interpretation dgRes: message_codec describeGroupsResponseV0_size describeGroupsResponseV0_writeTo describeGroupsResponseV0_readFrom describeGroupsResponseV0_ok
  by (rule codecI [OF dgRes.sized_axioms];
      simp add: describeGroupsResponseV0_writeTo_def describeGroupsResponseV0_readFrom_def describeGroupsResponseV0_ok_def Let_def frame)
    (rule parse parse_rules account | simp)+

lemmas [parse] = dgRes.rd_parses dgRes.array_parses
lemmas [account] = dgRes.rd_accounts
lemmas [frame] = dgRes.append dgRes.array_nil
lemmas [wire] = dgRes.append dgRes.array_append
lemmas [wire_size] = dgRes.size_length dgRes.array_size

end
