(* ===== verification/Varint.thy ===== *)
theory Varint
  imports Decode
begin

section \<open>Variable length integers (write.go, read.go)\<close>

text \<open>
  Records of the second message format hold signed integers as zigzag encoded base 128 numbers. The
  loops of \<open>writeVarInt\<close> and \<open>varIntLen\<close> shift the zigzag value right by seven as an \<open>int64\<close>, that is
  arithmetically, until it fits seven bits. They do not end when the value is negative, so they are
  partial functions whose value is \<open>None\<close> when the loop runs forever; for which inputs that happens is
  a theorem. The loop of \<open>readVarInt\<close> takes one byte of the response per round, so it always ends.
\<close>

subsection \<open>The code\<close>

definition zigzag :: "int64 \<Rightarrow> int64" where
  "zigzag i = push_bit 1 i XOR signed_drop_bit 63 i"

partial_function (option) writeVarIntLoop :: "bufio_writer \<Rightarrow> int64 \<Rightarrow> bufio_writer option" where
  "writeVarIntLoop w i =
     (if i AND 0x7f \<noteq> i then
        writeVarIntLoop (WriteByte w (ucast (i AND 0x7f OR 0x80))) (signed_drop_bit 7 i)
      else Some (WriteByte w (ucast i)))"

definition writeVarInt :: "bufio_writer \<Rightarrow> int64 \<Rightarrow> bufio_writer option" where
  "writeVarInt w i = writeVarIntLoop w (zigzag i)"

partial_function (option) varIntLenLoop :: "int \<Rightarrow> int64 \<Rightarrow> int option" where
  "varIntLenLoop l i =
     (if i AND 0x7f \<noteq> i then varIntLenLoop (l + 1) (signed_drop_bit 7 i) else Some (l + 1))"

definition varIntLen :: "int64 \<Rightarrow> int option" where
  "varIntLen i = varIntLenLoop 0 (zigzag i)"

text \<open>The accumulator \<open>v\<close> is the variable the caller passes by reference, \<open>l\<close> the number of bytes read.\<close>

definition firstByte :: "byte list \<Rightarrow> (go_error, byte) result" where
  "firstByte b = (case b of [] \<Rightarrow> Panic IndexOutOfRange | x # _ \<Rightarrow> Ok x)"

function readVarIntLoop :: "int64 \<Rightarrow> nat \<Rightarrow> int64 reader" where
  "readVarIntLoop v l st =
     (case peekRead 1 firstByte st of
        (Ok b, st') \<Rightarrow>
          let v = v OR push_bit (l * 7) (ucast (b AND 0x7f)) in
          if b AND 0x80 = 0 then (Ok v, st') else readVarIntLoop v (l + 1) st'
      | (Err e, st') \<Rightarrow> (Err e, st')
      | (Panic c, st') \<Rightarrow> (Panic c, st'))"
  by pat_completeness auto

lemma peekRead_1_decreases:
  assumes "peekRead 1 f st = (Ok b, st')"
  shows "nat (snd st') < nat (snd st)"
  using assms
  by (cases st; cases "fst st")
    (auto simp: peekRead_def Peek_def Discard_def discardN_def rbind_def rlift_def rret_def
      split: if_splits result.splits prod.splits)

termination readVarIntLoop
  by (relation "measure (\<lambda>(v, l, st). nat (snd st))") (auto dest!: peekRead_1_decreases [OF sym])

declare readVarIntLoop.simps [simp del]

definition readVarInt :: "int64 reader" where
  "readVarInt = rbind (readVarIntLoop 0 0) (\<lambda>v. rret (signed_drop_bit 1 v XOR - (v AND 1)))"

subsection \<open>The base 128 encoding of a natural number\<close>

fun uvarint :: "nat \<Rightarrow> byte list" where
  "uvarint n = (if n < 128 then [of_nat n] else of_nat (128 + n mod 128) # uvarint (n div 128))"

declare uvarint.simps [simp del]

lemma uvarint_not_Nil [simp]: "uvarint n \<noteq> []"
  by (subst uvarint.simps) simp

lemma length_uvarint_le: "n < 128 ^ k \<Longrightarrow> 0 < k \<Longrightarrow> length (uvarint n) \<le> k"
proof (induction k arbitrary: n)
  case (Suc k)
  show ?case
  proof (cases "n < 128")
    case False
    then have "0 < k" using Suc.prems by (cases k) auto
    moreover have "n div 128 < 128 ^ k" using Suc.prems by (simp add: less_mult_imp_div_less mult.commute)
    ultimately have "length (uvarint (n div 128)) \<le> k" by (intro Suc.IH)
    then show ?thesis using False by (subst uvarint.simps) simp
  qed (subst uvarint.simps, simp)
qed simp

subsection \<open>Which integers the loops end for\<close>

lemma mask7: "i AND 0x7f = take_bit 7 i" for i :: int64
  using take_bit_eq_mask [of 7 i] by (simp add: mask_eq_exp_minus_1)

lemma unat_take7: "unat (take_bit 7 i) = unat i mod 128" for i :: int64
  using unsigned_take_bit_eq [of 7 i] by (simp add: take_bit_eq_mod unat_mod)

lemma small_iff: "i AND 0x7f = i \<longleftrightarrow> unat i < 128" for i :: int64
  unfolding mask7 by (metis mod_less mod_less_divisor unat_take7 unsigned_word_eqI zero_less_numeral)

lemma sint_signed_drop: "sint (signed_drop_bit n i) = sint i div 2 ^ n" for i :: int64
  by (simp add: sint_signed_drop_bit_eq drop_bit_eq_div)

lemma nonneg_unat: "0 \<le> sint i \<Longrightarrow> int (unat i) = sint i" for i :: int64
  using sint_range_64 [of i] uint_sint [of i] by (simp add: take_bit_int_eq_self)

lemma unat_signed_drop: "0 \<le> sint i \<Longrightarrow> unat (signed_drop_bit 7 i) = unat i div 128" for i :: int64
proof -
  assume "0 \<le> sint i"
  then have "0 \<le> sint (signed_drop_bit 7 i)" by (simp add: sint_signed_drop)
  then have "int (unat (signed_drop_bit 7 i)) = sint i div 128"
    using nonneg_unat sint_signed_drop [of 7 i] by simp
  then have "int (unat (signed_drop_bit 7 i)) = int (unat i div 128)"
    using nonneg_unat [OF \<open>0 \<le> sint i\<close>] by (simp add: zdiv_int)
  then show ?thesis by linarith
qed

lemma bit_zigzag: "bit (zigzag i) n \<longleftrightarrow> n < 64 \<and> ((0 < n \<and> bit i (n - 1)) \<noteq> bit i 63)"
  unfolding zigzag_def bit_xor_iff bit_push_bit_iff bit_signed_drop_bit_iff
  using bit_imp_le_length [of i "63 + n"] by (cases n) (auto simp: bit_imp_le_length dest: bit_imp_le_length)

lemma bit_63: "bit i 63 \<longleftrightarrow> sint i < 0" for i :: int64
  by (simp add: sint_uint not_le signed_take_bit_eq_if_negative bit_uint_iff)

lemma bit_62: "bit i 62 \<longleftrightarrow> odd (sint i div 2 ^ 62)" for i :: int64
  using bit_sint_iff [of i 62] bit_iff_odd [of "sint i" 62] by simp

lemma zigzag_nonneg: "0 \<le> sint (zigzag i) \<longleftrightarrow> - (2 ^ 62) \<le> sint i \<and> sint i < 2 ^ 62"
proof -
  have *: "0 \<le> sint (zigzag i) \<longleftrightarrow> (odd (sint i div 2 ^ 62) \<longleftrightarrow> sint i < 0)"
    using bit_63 [of "zigzag i"] bit_zigzag [of i 63] bit_62 [of i] bit_63 [of i] by auto
  define d r where "d = sint i div 2 ^ 62" and "r = sint i mod 2 ^ 62"
  then have i: "sint i = 2 ^ 62 * d + r" and r: "0 \<le> r" "r < 2 ^ 62"
    by simp_all
  with sint_range_64 [of i] have "- 2 \<le> d" "d \<le> 1" by simp_all
  then have "d = - 2 \<or> d = - 1 \<or> d = 0 \<or> d = 1" by linarith
  then show ?thesis
    unfolding * d_def [symmetric] i using r by auto
qed

lemma zigzag_inverse:
  assumes "- (2 ^ 62) \<le> sint i" "sint i < 2 ^ 62"
  shows "signed_drop_bit 1 (zigzag i) XOR - (zigzag i AND 1) = i"
proof (rule bit_word_eqI)
  fix n assume n: "n < LENGTH(64)"
  have "bit i 62 = bit i 63"
    using assms zigzag_nonneg [of i] bit_63 [of "zigzag i"] bit_zigzag [of i 63] by auto
  moreover have "- (zigzag i AND 1) = (if bit i 63 then - 1 else 0)"
    using bit_zigzag [of i 0] by (auto simp: and_one_eq bit_0 even_iff_mod_2_eq_zero odd_iff_mod_2_eq_one)
  ultimately show "bit (signed_drop_bit 1 (zigzag i) XOR - (zigzag i AND 1)) n = bit i n"
    using n by (cases "n = 63") (auto simp: bit_xor_iff bit_signed_drop_bit_iff bit_zigzag)
qed

lemma small_nonneg: "i AND 0x7f = i \<Longrightarrow> 0 \<le> sint i" for i :: int64
  using bit_take_bit_iff [of 7 i 63] bit_63 [of i] by (simp add: mask7)

text \<open>The continuation byte of a number: its low seven bits below a set eighth bit.\<close>

lemma bit_of_nat_8: "bit (of_nat m :: byte) k \<longleftrightarrow> k < 8 \<and> bit m k"
  by (simp add: bit_simps)

lemma bit_of_nat_64: "bit (of_nat m :: int64) k \<longleftrightarrow> k < 64 \<and> bit m k"
  by (simp add: bit_simps)

lemma bit_128: "bit (128 :: 'a::semiring_bit_operations) k \<longleftrightarrow> possible_bit TYPE('a) k \<and> k = 7"
  using bit_exp_iff [of 7 k, where ?'a = 'a] by auto

lemma bit_cont: "bit (128 + m mod 128) k \<longleftrightarrow> k = 7 \<or> k < 7 \<and> bit m k" for m :: nat
proof -
  have "m mod 128 = take_bit 7 m"
    by (simp add: take_bit_eq_mod)
  moreover have "128 + take_bit 7 m = 128 OR take_bit 7 m"
    by (rule disjunctive_add) (auto simp: bit_128 bit_take_bit_iff)
  ultimately show ?thesis by (auto simp: bit_or_iff bit_128 bit_take_bit_iff)
qed

lemmas nat_bits = bit_of_nat_64 bit_of_nat_8 bit_cont bit_or_iff bit_and_iff bit_take_bit_iff bit_unsigned_iff bit_128

lemma cont_byte: "ucast (i AND 0x7f OR 0x80) = (of_nat (128 + unat i mod 128) :: byte)" for i :: int64
proof (rule bit_word_eqI)
  fix k assume "k < LENGTH(8)"
  then show "bit (ucast (i AND 0x7f OR 0x80) :: byte) k = bit (of_nat (128 + unat i mod 128) :: byte) k"
    unfolding mask7 nat_bits by auto
qed

lemma mask7_byte: "b AND 0x7f = take_bit 7 b" for b :: byte
  using take_bit_eq_mask [of 7 b] by (simp add: mask_eq_exp_minus_1)

lemma msb_byte: "b AND 0x80 = 0 \<longleftrightarrow> \<not> bit b 7" for b :: byte
proof
  assume "b AND 0x80 = 0"
  then have "\<not> bit (b AND 0x80) 7" by simp
  then show "\<not> bit b 7" unfolding nat_bits by simp
next
  assume "\<not> bit b 7"
  then show "b AND 0x80 = 0" by (intro bit_word_eqI) (auto simp: bit_and_iff bit_128)
qed

lemma low7_cont: "ucast (of_nat (128 + n mod 128) AND 0x7f :: byte) = (of_nat (take_bit 7 n) :: int64)"
proof (rule bit_word_eqI)
  fix k assume "k < LENGTH(64)"
  then show "bit (ucast (of_nat (128 + n mod 128) AND 0x7f :: byte) :: int64) k = bit (of_nat (take_bit 7 n) :: int64) k"
    unfolding mask7_byte nat_bits by auto
qed

lemma low7_last: "n < 128 \<Longrightarrow> ucast (of_nat n AND 0x7f :: byte) = (of_nat n :: int64)"
proof (rule bit_word_eqI)
  fix k assume "n < 128" "k < LENGTH(64)"
  moreover from this have "bit n k = (k < 7 \<and> bit n k)"
    using bit_take_bit_iff [of 7 n k] by (simp add: take_bit_nat_eq_self)
  ultimately show "bit (ucast (of_nat n AND 0x7f :: byte) :: int64) k = bit (of_nat n :: int64) k"
    unfolding mask7_byte nat_bits by auto
qed

lemma split7: "(of_nat n :: int64) = of_nat (take_bit 7 n) OR push_bit 7 (of_nat (n div 128))"
proof -
  have n: "n div 128 = drop_bit 7 n" by (simp add: drop_bit_eq_div)
  show ?thesis
    unfolding n
  proof (rule bit_word_eqI)
    fix k assume "k < LENGTH(64)"
    then show "bit (of_nat n :: int64) k = bit (of_nat (take_bit 7 n) OR push_bit 7 (of_nat (drop_bit 7 n)) :: int64) k"
      unfolding bit_push_bit_iff nat_bits bit_drop_bit_eq comp_def
      by (cases "k < 7") auto
  qed
qed

subsection \<open>What the loops compute\<close>

lemma writeVarIntLoop_eq:
  "0 \<le> sint i \<Longrightarrow> writeVarIntLoop w i = Some (w @ uvarint (unat i))"
proof (induction "unat i" arbitrary: w i rule: less_induct)
  case less
  show ?case
  proof (cases "unat i < 128")
    case True
    then show ?thesis
      by (simp add: writeVarIntLoop.simps [of w] small_iff uvarint.simps [of "unat i"] WriteByte_def)
  next
    case False
    have "writeVarIntLoop v (signed_drop_bit 7 i) = Some (v @ uvarint (unat i div 128))" for v
      using less.hyps [of "signed_drop_bit 7 i" v] less.prems False
      by (simp add: unat_signed_drop sint_signed_drop)
    then show ?thesis
      using False
      by (simp add: writeVarIntLoop.simps [of w] small_iff uvarint.simps [of "unat i"] WriteByte_def cont_byte
          del: of_nat_add)
  qed
qed

lemma writeVarIntLoop_Some:
  assumes "writeVarIntLoop w i = Some w'"
  shows "0 \<le> sint i"
proof (rule writeVarIntLoop.raw_induct [OF _ assms, where P = "\<lambda>_ i _. 0 \<le> sint i"])
  fix loop w i w'
  assume IH: "\<And>w i w'. loop w i = Some w' \<Longrightarrow> 0 \<le> sint (i :: int64)"
    and run: "(if i AND 0x7f \<noteq> i then loop (WriteByte w (ucast (i AND 0x7f OR 0x80))) (signed_drop_bit 7 i)
      else Some (WriteByte w (ucast i))) = Some w'"
  show "0 \<le> sint i"
  proof (cases "i AND 0x7f = i")
    case False
    then have "0 \<le> sint (signed_drop_bit 7 i)" using run by (intro IH) simp
    then show ?thesis by (simp add: sint_signed_drop)
  qed (rule small_nonneg)
qed

lemma varIntLenLoop_eq:
  "0 \<le> sint i \<Longrightarrow> varIntLenLoop l i = Some (l + int (length (uvarint (unat i))))"
proof (induction "unat i" arbitrary: l i rule: less_induct)
  case less
  show ?case
  proof (cases "unat i < 128")
    case True
    then show ?thesis
      by (simp add: varIntLenLoop.simps [of l] small_iff uvarint.simps [of "unat i"])
  next
    case False
    have "varIntLenLoop m (signed_drop_bit 7 i) = Some (m + int (length (uvarint (unat i div 128))))" for m
      using less.hyps [of "signed_drop_bit 7 i" m] less.prems False
      by (simp add: unat_signed_drop sint_signed_drop)
    then show ?thesis
      using False by (simp add: varIntLenLoop.simps [of l] small_iff uvarint.simps [of "unat i"])
  qed
qed

lemma varIntLenLoop_Some:
  assumes "varIntLenLoop l i = Some n"
  shows "0 \<le> sint i"
proof (rule varIntLenLoop.raw_induct [OF _ assms, where P = "\<lambda>_ i _. 0 \<le> sint i"])
  fix loop l i n
  assume IH: "\<And>l i n. loop l i = Some n \<Longrightarrow> 0 \<le> sint (i :: int64)"
    and run: "(if i AND 0x7f \<noteq> i then loop (l + 1) (signed_drop_bit 7 i) else Some (l + 1)) = Some n"
  show "0 \<le> sint i"
  proof (cases "i AND 0x7f = i")
    case False
    then have "0 \<le> sint (signed_drop_bit 7 i)" using run by (intro IH) simp
    then show ?thesis by (simp add: sint_signed_drop)
  qed (rule small_nonneg)
qed

text \<open>The integers that both functions treat, and the bytes of one.\<close>

definition varIntOk :: "int64 \<Rightarrow> bool" where
  "varIntOk i \<longleftrightarrow> - (2 ^ 62) \<le> sint i \<and> sint i < 2 ^ 62"

definition varIntBytes :: "int64 \<Rightarrow> byte list" where
  "varIntBytes i = uvarint (unat (zigzag i))"

lemma varIntOk_zigzag: "varIntOk i \<longleftrightarrow> 0 \<le> sint (zigzag i)"
  by (simp add: varIntOk_def zigzag_nonneg)

lemma varIntOk_nat: "n < 2 ^ 62 \<Longrightarrow> varIntOk (of_nat n)"
  using sint_of_nat_small [of n, where ?'a = 64] by (simp add: varIntOk_def)

lemma writeVarInt_eq: "writeVarInt w i = (if varIntOk i then Some (w @ varIntBytes i) else None)"
  using writeVarIntLoop_Some [of w "zigzag i"]
  by (cases "writeVarIntLoop w (zigzag i)")
    (auto simp: writeVarInt_def varIntOk_zigzag varIntBytes_def writeVarIntLoop_eq)

lemma varIntLen_eq: "varIntLen i = (if varIntOk i then Some (int (length (varIntBytes i))) else None)"
  using varIntLenLoop_Some [of 0 "zigzag i"]
  by (cases "varIntLenLoop 0 (zigzag i)")
    (auto simp: varIntLen_def varIntOk_zigzag varIntBytes_def varIntLenLoop_eq)

lemma length_varIntBytes: "1 \<le> length (varIntBytes i)" "length (varIntBytes i) \<le> 10"
proof -
  show "1 \<le> length (varIntBytes i)" by (simp add: varIntBytes_def Suc_le_eq)
  have "unat (zigzag i) < 2 ^ 64" using unsigned_less [of "zigzag i"] by simp
  also have "\<dots> < 128 ^ 10" by simp
  finally show "length (varIntBytes i) \<le> 10" by (simp add: varIntBytes_def length_uvarint_le)
qed

subsection \<open>Reading a variable length integer\<close>

lemma parses_firstByte: "parses (peekRead 1 firstByte) [b] b"
  by (rule parses_peekRead) (simp_all add: firstByte_def bufSize_def)

lemma readVarIntLoop_rbind:
  "readVarIntLoop v l =
     rbind (peekRead 1 firstByte) (\<lambda>b.
       let v = v OR push_bit (l * 7) (ucast (b AND 0x7f))
       in if b AND 0x80 = 0 then rret v else readVarIntLoop v (l + 1))"
  by (rule ext, subst readVarIntLoop.simps)
    (auto simp: rbind_def rret_def Let_def split: prod.splits result.splits)

lemma parses_readVarIntLoop:
  "parses (readVarIntLoop v l) (uvarint n) (v OR push_bit (l * 7) (of_nat n))"
proof (induction n arbitrary: v l rule: uvarint.induct)
  case (1 n)
  show ?case
  proof (cases "n < 128")
    case True
    have "\<not> bit (of_nat n :: byte) 7"
      using True bit_take_bit_iff [of 7 n 7] unfolding bit_of_nat_8 by (simp add: take_bit_nat_eq_self)
    then have "parses (readVarIntLoop v l) ([of_nat n] @ []) (v OR push_bit (l * 7) (of_nat n))"
      by (subst readVarIntLoop_rbind, intro parses_rbind [OF parses_firstByte])
        (simp add: msb_byte low7_last [OF True])
    then show ?thesis using True by (simp add: uvarint.simps [of n])
  next
    case False
    let ?b = "of_nat (128 + n mod 128) :: byte"
    have b: "bit ?b 7" unfolding nat_bits by simp
    have "v OR push_bit (l * 7) (of_nat n) =
        (v OR push_bit (l * 7) (ucast (?b AND 0x7f))) OR push_bit ((l + 1) * 7) (of_nat (n div 128))"
      unfolding low7_cont by (subst split7) (simp only: push_bit_or push_bit_push_bit or.assoc add_mult_distrib mult_1 add.commute)
    then have "parses (readVarIntLoop (v OR push_bit (l * 7) (ucast (?b AND 0x7f))) (l + 1)) (uvarint (n div 128))
        (v OR push_bit (l * 7) (of_nat n))"
      using 1 [OF False, of "v OR push_bit (l * 7) (ucast (?b AND 0x7f))" "l + 1"] by (simp only:)
    then have "parses (readVarIntLoop v l) ([?b] @ uvarint (n div 128)) (v OR push_bit (l * 7) (of_nat n))"
      using b by (subst readVarIntLoop_rbind, intro parses_rbind [OF parses_firstByte])
        (simp add: msb_byte del: of_nat_add)
    then show ?thesis using False by (simp add: uvarint.simps [of n])
  qed
qed

lemma parse_readVarInt [parse]: "varIntOk i \<Longrightarrow> parses readVarInt (varIntBytes i) i"
  unfolding readVarInt_def varIntBytes_def
  by (rule parses_rbind_ret [OF parses_readVarIntLoop])
    (use zigzag_inverse [of i] in \<open>simp add: varIntOk_def\<close>)

lemma took_readVarIntLoop: "0 \<le> snd st \<Longrightarrow> took st (snd (readVarIntLoop v l st))"
proof (induction "nat (snd st)" arbitrary: st v l rule: less_induct)
  case less
  let ?step = "\<lambda>b. let v = v OR push_bit (l * 7) (ucast (b AND 0x7f))
      in if b AND 0x80 = 0 then rret v else readVarIntLoop v (l + 1)"
  have p: "took st (snd (peekRead 1 firstByte st))"
    using less.prems by (intro accountsD accounts_peekRead)
  have "took st' (snd (?step b st'))" if "peekRead 1 firstByte st = (Ok b, st')" for b st'
  proof -
    have "nat (snd st') < nat (snd st)" "0 \<le> snd st'"
      using peekRead_1_decreases [OF that] took_nonneg [OF p] that by simp_all
    then show ?thesis
      using less.hyps by (simp add: Let_def rret_def took_refl)
  qed
  then show ?case
    by (subst readVarIntLoop_rbind) (rule took_rbind, rule p)
qed

lemma accounts_readVarInt [account]: "accounts readVarInt"
proof -
  have "accounts (readVarIntLoop 0 0)"
    unfolding accounts_def using took_readVarIntLoop by blast
  then show ?thesis unfolding readVarInt_def by (intro account)
qed

subsection \<open>Properties\<close>

text \<open>C30. The loops of \<open>writeVarInt\<close> and \<open>varIntLen\<close> end exactly for the integers from \<open>-2^62\<close> to
  \<open>2^62 - 1\<close>: the shift of the loops is arithmetic, so a zigzag encoding with its highest bit set never
  becomes small.\<close>

theorem writeVarInt_terminates:
  "((\<exists>w'. writeVarInt w i = Some w') \<longleftrightarrow> - (2 ^ 62) \<le> sint i \<and> sint i < 2 ^ 62) \<and>
   ((\<exists>n. varIntLen i = Some n) \<longleftrightarrow> - (2 ^ 62) \<le> sint i \<and> sint i < 2 ^ 62)"
  by (simp add: writeVarInt_eq varIntLen_eq varIntOk_def)

text \<open>C31. Where they end, \<open>varIntLen\<close> is the number of bytes \<open>writeVarInt\<close> appends, one to ten, and
  \<open>readVarInt\<close> returns the integer from these bytes and takes exactly them from the response.\<close>

theorem readVarInt_writeVarInt:
  assumes "writeVarInt w i = Some w'" "0 \<le> n"
  shows "\<exists>bs. w' = w @ bs \<and> varIntLen i = Some (int (length bs)) \<and> 1 \<le> length bs \<and> length bs \<le> 10 \<and>
    readVarInt (\<lparr>rd_bytes = bs @ rest, rd_err = e\<rparr>, int (length bs) + n) = (Ok i, \<lparr>rd_bytes = rest, rd_err = e\<rparr>, n)"
proof -
  have ok: "varIntOk i" and w': "w' = w @ varIntBytes i"
    using assms(1) by (simp_all add: writeVarInt_eq split: if_splits)
  then show ?thesis
    using parsesD [OF parse_readVarInt [OF ok] assms(2), of _ rest e] length_varIntBytes [of i]
    by (auto simp: varIntLen_eq)
qed

theorem readVarInt_writeVarInt_witness:
  "\<exists>bs. writeVarInt [] (- 300) = Some ([] @ bs) \<and> varIntLen (- 300) = Some (int (length bs)) \<and>
    1 \<le> length bs \<and> length bs \<le> 10 \<and>
    readVarInt (\<lparr>rd_bytes = bs @ [7], rd_err = EOF\<rparr>, int (length bs) + 1) = (Ok (- 300), \<lparr>rd_bytes = [7], rd_err = EOF\<rparr>, 1)"
proof -
  have "varIntOk (- 300)" by (simp add: varIntOk_def)
  then have w: "writeVarInt [] (- 300) = Some (varIntBytes (- 300))" by (simp add: writeVarInt_eq)
  from readVarInt_writeVarInt [OF this, of 1 "[7]" EOF] show ?thesis using w by auto
qed

end
