(* ===== verification/DataMessages.thy ===== *)
theory DataMessages
  imports MessageSet
begin

section \<open>Produce, fetch and list offset messages\<close>

text \<open>
  The structs of produce.go, fetch.go and listoffset.go, which the tests of the program use as the
  reference for the direct encoders of write.go, and these encoders. The lemmas at the end say that
  the encoders write what \<open>writeRequest\<close> writes for the struct.
\<close>

subsection \<open>produce.go\<close>

record produceRequestPartitionV2 =
  prPReq_Partition :: int32
  prPReq_MessageSetSize :: int32
  prPReq_MessageSet :: messageSet

definition produceRequestPartitionV2_size :: "produceRequestPartitionV2 \<Rightarrow> int32" where
  "produceRequestPartitionV2_size t =
     4 + 4 + messageSet_size (prPReq_MessageSet t)"

definition produceRequestPartitionV2_writeTo :: "bufio_writer \<Rightarrow> produceRequestPartitionV2 \<Rightarrow> bufio_writer" where
  "produceRequestPartitionV2_writeTo w t =
     (let w = writeInt32 w (prPReq_Partition t);
          w = writeInt32 w (prPReq_MessageSetSize t)
      in messageSet_writeTo w (prPReq_MessageSet t))"

interpretation prPReq: sized produceRequestPartitionV2_size produceRequestPartitionV2_writeTo
  by unfold_locales (simp_all add: produceRequestPartitionV2_size_def produceRequestPartitionV2_writeTo_def Let_def wire wire_size)

lemmas [frame] = prPReq.append prPReq.array_nil
lemmas [wire] = prPReq.append prPReq.array_append
lemmas [wire_size] = prPReq.size_length prPReq.array_size

record produceRequestTopicV2 =
  prTReq_TopicName :: gostring
  prTReq_Partitions :: "produceRequestPartitionV2 list"

definition produceRequestTopicV2_size :: "produceRequestTopicV2 \<Rightarrow> int32" where
  "produceRequestTopicV2_size t =
     sizeofString (prTReq_TopicName t) +
     sizeofArray produceRequestPartitionV2_size (prTReq_Partitions t)"

definition produceRequestTopicV2_writeTo :: "bufio_writer \<Rightarrow> produceRequestTopicV2 \<Rightarrow> bufio_writer" where
  "produceRequestTopicV2_writeTo w t =
     (let w = writeString w (prTReq_TopicName t)
      in writeArray w produceRequestPartitionV2_writeTo (prTReq_Partitions t))"

interpretation prTReq: sized produceRequestTopicV2_size produceRequestTopicV2_writeTo
  by unfold_locales (simp_all add: produceRequestTopicV2_size_def produceRequestTopicV2_writeTo_def Let_def wire wire_size)

lemmas [frame] = prTReq.append prTReq.array_nil
lemmas [wire] = prTReq.append prTReq.array_append
lemmas [wire_size] = prTReq.size_length prTReq.array_size

record produceRequestV2 =
  prReq_RequiredAcks :: int16
  prReq_Timeout :: int32
  prReq_Topics :: "produceRequestTopicV2 list"

definition produceRequestV2_size :: "produceRequestV2 \<Rightarrow> int32" where
  "produceRequestV2_size t =
     2 + 4 + sizeofArray produceRequestTopicV2_size (prReq_Topics t)"

definition produceRequestV2_writeTo :: "bufio_writer \<Rightarrow> produceRequestV2 \<Rightarrow> bufio_writer" where
  "produceRequestV2_writeTo w t =
     (let w = writeInt16 w (prReq_RequiredAcks t);
          w = writeInt32 w (prReq_Timeout t)
      in writeArray w produceRequestTopicV2_writeTo (prReq_Topics t))"

interpretation prReq: sized produceRequestV2_size produceRequestV2_writeTo
  by unfold_locales (simp_all add: produceRequestV2_size_def produceRequestV2_writeTo_def Let_def wire wire_size)

lemmas [frame] = prReq.append prReq.array_nil
lemmas [wire] = prReq.append prReq.array_append
lemmas [wire_size] = prReq.size_length prReq.array_size

record produceResponsePartitionV2 =
  prPRes_Partition :: int32
  prPRes_ErrorCode :: int16
  prPRes_Offset :: int64
  prPRes_Timestamp :: int64

definition produceResponsePartitionV2_size :: "produceResponsePartitionV2 \<Rightarrow> int32" where
  "produceResponsePartitionV2_size t =
     4 + 2 + 8 + 8"

definition produceResponsePartitionV2_writeTo :: "bufio_writer \<Rightarrow> produceResponsePartitionV2 \<Rightarrow> bufio_writer" where
  "produceResponsePartitionV2_writeTo w t =
     (let w = writeInt32 w (prPRes_Partition t);
          w = writeInt16 w (prPRes_ErrorCode t);
          w = writeInt64 w (prPRes_Offset t)
      in writeInt64 w (prPRes_Timestamp t))"

definition produceResponsePartitionV2_readFrom :: "produceResponsePartitionV2 reader" where
  "produceResponsePartitionV2_readFrom =
     rbind readInt32 (\<lambda>Partition.
     rbind readInt16 (\<lambda>ErrorCode.
     rbind readInt64 (\<lambda>Offset.
     rbind readInt64 (\<lambda>Timestamp.
     rret \<lparr>prPRes_Partition = Partition, prPRes_ErrorCode = ErrorCode, prPRes_Offset = Offset, prPRes_Timestamp = Timestamp\<rparr>))))"

definition produceResponsePartitionV2_ok :: "produceResponsePartitionV2 \<Rightarrow> bool" where
  "produceResponsePartitionV2_ok t \<longleftrightarrow> True"

interpretation prPRes: sized produceResponsePartitionV2_size produceResponsePartitionV2_writeTo
  by unfold_locales (simp_all add: produceResponsePartitionV2_size_def produceResponsePartitionV2_writeTo_def Let_def wire wire_size)

interpretation prPRes: message_codec produceResponsePartitionV2_size produceResponsePartitionV2_writeTo produceResponsePartitionV2_readFrom produceResponsePartitionV2_ok
  by (rule codecI [OF prPRes.sized_axioms];
      simp add: produceResponsePartitionV2_writeTo_def produceResponsePartitionV2_readFrom_def produceResponsePartitionV2_ok_def Let_def frame)
    (rule parse parse_rules account | simp)+

lemmas [parse] = prPRes.rd_parses prPRes.array_parses
lemmas [account] = prPRes.rd_accounts
lemmas [frame] = prPRes.append prPRes.array_nil
lemmas [wire] = prPRes.append prPRes.array_append
lemmas [wire_size] = prPRes.size_length prPRes.array_size

record produceResponseTopicV2 =
  prTRes_TopicName :: gostring
  prTRes_Partitions :: "produceResponsePartitionV2 list"

definition produceResponseTopicV2_size :: "produceResponseTopicV2 \<Rightarrow> int32" where
  "produceResponseTopicV2_size t =
     sizeofString (prTRes_TopicName t) +
     sizeofArray produceResponsePartitionV2_size (prTRes_Partitions t)"

definition produceResponseTopicV2_writeTo :: "bufio_writer \<Rightarrow> produceResponseTopicV2 \<Rightarrow> bufio_writer" where
  "produceResponseTopicV2_writeTo w t =
     (let w = writeString w (prTRes_TopicName t)
      in writeArray w produceResponsePartitionV2_writeTo (prTRes_Partitions t))"

interpretation prTRes: sized produceResponseTopicV2_size produceResponseTopicV2_writeTo
  by unfold_locales (simp_all add: produceResponseTopicV2_size_def produceResponseTopicV2_writeTo_def Let_def wire wire_size)

lemmas [frame] = prTRes.append prTRes.array_nil
lemmas [wire] = prTRes.append prTRes.array_append
lemmas [wire_size] = prTRes.size_length prTRes.array_size

record produceResponseV2 =
  prRes_ThrottleTime :: int32
  prRes_Topics :: "produceResponseTopicV2 list"

definition produceResponseV2_size :: "produceResponseV2 \<Rightarrow> int32" where
  "produceResponseV2_size t =
     4 + sizeofArray produceResponseTopicV2_size (prRes_Topics t)"

definition produceResponseV2_writeTo :: "bufio_writer \<Rightarrow> produceResponseV2 \<Rightarrow> bufio_writer" where
  "produceResponseV2_writeTo w t =
     (let w = writeInt32 w (prRes_ThrottleTime t)
      in writeArray w produceResponseTopicV2_writeTo (prRes_Topics t))"

interpretation prRes: sized produceResponseV2_size produceResponseV2_writeTo
  by unfold_locales (simp_all add: produceResponseV2_size_def produceResponseV2_writeTo_def Let_def wire wire_size)

lemmas [frame] = prRes.append prRes.array_nil
lemmas [wire] = prRes.append prRes.array_append
lemmas [wire_size] = prRes.size_length prRes.array_size

subsection \<open>fetch.go\<close>

record fetchRequestPartitionV2 =
  ftPReq_Partition :: int32
  ftPReq_FetchOffset :: int64
  ftPReq_MaxBytes :: int32

definition fetchRequestPartitionV2_size :: "fetchRequestPartitionV2 \<Rightarrow> int32" where
  "fetchRequestPartitionV2_size t =
     4 + 8 + 4"

definition fetchRequestPartitionV2_writeTo :: "bufio_writer \<Rightarrow> fetchRequestPartitionV2 \<Rightarrow> bufio_writer" where
  "fetchRequestPartitionV2_writeTo w t =
     (let w = writeInt32 w (ftPReq_Partition t);
          w = writeInt64 w (ftPReq_FetchOffset t)
      in writeInt32 w (ftPReq_MaxBytes t))"

interpretation ftPReq: sized fetchRequestPartitionV2_size fetchRequestPartitionV2_writeTo
  by unfold_locales (simp_all add: fetchRequestPartitionV2_size_def fetchRequestPartitionV2_writeTo_def Let_def wire wire_size)

lemmas [frame] = ftPReq.append ftPReq.array_nil
lemmas [wire] = ftPReq.append ftPReq.array_append
lemmas [wire_size] = ftPReq.size_length ftPReq.array_size

record fetchRequestTopicV2 =
  ftTReq_TopicName :: gostring
  ftTReq_Partitions :: "fetchRequestPartitionV2 list"

definition fetchRequestTopicV2_size :: "fetchRequestTopicV2 \<Rightarrow> int32" where
  "fetchRequestTopicV2_size t =
     sizeofString (ftTReq_TopicName t) +
     sizeofArray fetchRequestPartitionV2_size (ftTReq_Partitions t)"

definition fetchRequestTopicV2_writeTo :: "bufio_writer \<Rightarrow> fetchRequestTopicV2 \<Rightarrow> bufio_writer" where
  "fetchRequestTopicV2_writeTo w t =
     (let w = writeString w (ftTReq_TopicName t)
      in writeArray w fetchRequestPartitionV2_writeTo (ftTReq_Partitions t))"

interpretation ftTReq: sized fetchRequestTopicV2_size fetchRequestTopicV2_writeTo
  by unfold_locales (simp_all add: fetchRequestTopicV2_size_def fetchRequestTopicV2_writeTo_def Let_def wire wire_size)

lemmas [frame] = ftTReq.append ftTReq.array_nil
lemmas [wire] = ftTReq.append ftTReq.array_append
lemmas [wire_size] = ftTReq.size_length ftTReq.array_size

record fetchRequestV2 =
  ftReq_ReplicaID :: int32
  ftReq_MaxWaitTime :: int32
  ftReq_MinBytes :: int32
  ftReq_Topics :: "fetchRequestTopicV2 list"

definition fetchRequestV2_size :: "fetchRequestV2 \<Rightarrow> int32" where
  "fetchRequestV2_size t =
     4 + 4 + 4 + sizeofArray fetchRequestTopicV2_size (ftReq_Topics t)"

definition fetchRequestV2_writeTo :: "bufio_writer \<Rightarrow> fetchRequestV2 \<Rightarrow> bufio_writer" where
  "fetchRequestV2_writeTo w t =
     (let w = writeInt32 w (ftReq_ReplicaID t);
          w = writeInt32 w (ftReq_MaxWaitTime t);
          w = writeInt32 w (ftReq_MinBytes t)
      in writeArray w fetchRequestTopicV2_writeTo (ftReq_Topics t))"

interpretation ftReq: sized fetchRequestV2_size fetchRequestV2_writeTo
  by unfold_locales (simp_all add: fetchRequestV2_size_def fetchRequestV2_writeTo_def Let_def wire wire_size)

lemmas [frame] = ftReq.append ftReq.array_nil
lemmas [wire] = ftReq.append ftReq.array_append
lemmas [wire_size] = ftReq.size_length ftReq.array_size

record fetchResponsePartitionV2 =
  ftPRes_Partition :: int32
  ftPRes_ErrorCode :: int16
  ftPRes_HighwaterMarkOffset :: int64
  ftPRes_MessageSetSize :: int32
  ftPRes_MessageSet :: messageSet

definition fetchResponsePartitionV2_size :: "fetchResponsePartitionV2 \<Rightarrow> int32" where
  "fetchResponsePartitionV2_size t =
     4 + 2 + 8 + 4 + messageSet_size (ftPRes_MessageSet t)"

definition fetchResponsePartitionV2_writeTo :: "bufio_writer \<Rightarrow> fetchResponsePartitionV2 \<Rightarrow> bufio_writer" where
  "fetchResponsePartitionV2_writeTo w t =
     (let w = writeInt32 w (ftPRes_Partition t);
          w = writeInt16 w (ftPRes_ErrorCode t);
          w = writeInt64 w (ftPRes_HighwaterMarkOffset t);
          w = writeInt32 w (ftPRes_MessageSetSize t)
      in messageSet_writeTo w (ftPRes_MessageSet t))"

interpretation ftPRes: sized fetchResponsePartitionV2_size fetchResponsePartitionV2_writeTo
  by unfold_locales (simp_all add: fetchResponsePartitionV2_size_def fetchResponsePartitionV2_writeTo_def Let_def wire wire_size)

lemmas [frame] = ftPRes.append ftPRes.array_nil
lemmas [wire] = ftPRes.append ftPRes.array_append
lemmas [wire_size] = ftPRes.size_length ftPRes.array_size

record fetchResponseTopicV2 =
  ftTRes_TopicName :: gostring
  ftTRes_Partitions :: "fetchResponsePartitionV2 list"

definition fetchResponseTopicV2_size :: "fetchResponseTopicV2 \<Rightarrow> int32" where
  "fetchResponseTopicV2_size t =
     sizeofString (ftTRes_TopicName t) +
     sizeofArray fetchResponsePartitionV2_size (ftTRes_Partitions t)"

definition fetchResponseTopicV2_writeTo :: "bufio_writer \<Rightarrow> fetchResponseTopicV2 \<Rightarrow> bufio_writer" where
  "fetchResponseTopicV2_writeTo w t =
     (let w = writeString w (ftTRes_TopicName t)
      in writeArray w fetchResponsePartitionV2_writeTo (ftTRes_Partitions t))"

interpretation ftTRes: sized fetchResponseTopicV2_size fetchResponseTopicV2_writeTo
  by unfold_locales (simp_all add: fetchResponseTopicV2_size_def fetchResponseTopicV2_writeTo_def Let_def wire wire_size)

lemmas [frame] = ftTRes.append ftTRes.array_nil
lemmas [wire] = ftTRes.append ftTRes.array_append
lemmas [wire_size] = ftTRes.size_length ftTRes.array_size

record fetchResponseV2 =
  ftRes_ThrottleTime :: int32
  ftRes_Topics :: "fetchResponseTopicV2 list"

definition fetchResponseV2_size :: "fetchResponseV2 \<Rightarrow> int32" where
  "fetchResponseV2_size t =
     4 + sizeofArray fetchResponseTopicV2_size (ftRes_Topics t)"

definition fetchResponseV2_writeTo :: "bufio_writer \<Rightarrow> fetchResponseV2 \<Rightarrow> bufio_writer" where
  "fetchResponseV2_writeTo w t =
     (let w = writeInt32 w (ftRes_ThrottleTime t)
      in writeArray w fetchResponseTopicV2_writeTo (ftRes_Topics t))"

interpretation ftRes: sized fetchResponseV2_size fetchResponseV2_writeTo
  by unfold_locales (simp_all add: fetchResponseV2_size_def fetchResponseV2_writeTo_def Let_def wire wire_size)

lemmas [frame] = ftRes.append ftRes.array_nil
lemmas [wire] = ftRes.append ftRes.array_append
lemmas [wire_size] = ftRes.size_length ftRes.array_size

subsection \<open>listoffset.go\<close>

record listOffsetRequestPartitionV1 =
  loPReq_Partition :: int32
  loPReq_Time :: int64

definition listOffsetRequestPartitionV1_size :: "listOffsetRequestPartitionV1 \<Rightarrow> int32" where
  "listOffsetRequestPartitionV1_size t =
     4 + 8"

definition listOffsetRequestPartitionV1_writeTo :: "bufio_writer \<Rightarrow> listOffsetRequestPartitionV1 \<Rightarrow> bufio_writer" where
  "listOffsetRequestPartitionV1_writeTo w t =
     (let w = writeInt32 w (loPReq_Partition t)
      in writeInt64 w (loPReq_Time t))"

interpretation loPReq: sized listOffsetRequestPartitionV1_size listOffsetRequestPartitionV1_writeTo
  by unfold_locales (simp_all add: listOffsetRequestPartitionV1_size_def listOffsetRequestPartitionV1_writeTo_def Let_def wire wire_size)

lemmas [frame] = loPReq.append loPReq.array_nil
lemmas [wire] = loPReq.append loPReq.array_append
lemmas [wire_size] = loPReq.size_length loPReq.array_size

record listOffsetRequestTopicV1 =
  loTReq_TopicName :: gostring
  loTReq_Partitions :: "listOffsetRequestPartitionV1 list"

definition listOffsetRequestTopicV1_size :: "listOffsetRequestTopicV1 \<Rightarrow> int32" where
  "listOffsetRequestTopicV1_size t =
     sizeofString (loTReq_TopicName t) +
     sizeofArray listOffsetRequestPartitionV1_size (loTReq_Partitions t)"

definition listOffsetRequestTopicV1_writeTo :: "bufio_writer \<Rightarrow> listOffsetRequestTopicV1 \<Rightarrow> bufio_writer" where
  "listOffsetRequestTopicV1_writeTo w t =
     (let w = writeString w (loTReq_TopicName t)
      in writeArray w listOffsetRequestPartitionV1_writeTo (loTReq_Partitions t))"

interpretation loTReq: sized listOffsetRequestTopicV1_size listOffsetRequestTopicV1_writeTo
  by unfold_locales (simp_all add: listOffsetRequestTopicV1_size_def listOffsetRequestTopicV1_writeTo_def Let_def wire wire_size)

lemmas [frame] = loTReq.append loTReq.array_nil
lemmas [wire] = loTReq.append loTReq.array_append
lemmas [wire_size] = loTReq.size_length loTReq.array_size

record listOffsetRequestV1 =
  loReq_ReplicaID :: int32
  loReq_Topics :: "listOffsetRequestTopicV1 list"

definition listOffsetRequestV1_size :: "listOffsetRequestV1 \<Rightarrow> int32" where
  "listOffsetRequestV1_size t =
     4 + sizeofArray listOffsetRequestTopicV1_size (loReq_Topics t)"

definition listOffsetRequestV1_writeTo :: "bufio_writer \<Rightarrow> listOffsetRequestV1 \<Rightarrow> bufio_writer" where
  "listOffsetRequestV1_writeTo w t =
     (let w = writeInt32 w (loReq_ReplicaID t)
      in writeArray w listOffsetRequestTopicV1_writeTo (loReq_Topics t))"

interpretation loReq: sized listOffsetRequestV1_size listOffsetRequestV1_writeTo
  by unfold_locales (simp_all add: listOffsetRequestV1_size_def listOffsetRequestV1_writeTo_def Let_def wire wire_size)

lemmas [frame] = loReq.append loReq.array_nil
lemmas [wire] = loReq.append loReq.array_append
lemmas [wire_size] = loReq.size_length loReq.array_size

record partitionOffsetV1 =
  loOff_Partition :: int32
  loOff_ErrorCode :: int16
  loOff_Timestamp :: int64
  loOff_Offset :: int64

definition partitionOffsetV1_size :: "partitionOffsetV1 \<Rightarrow> int32" where
  "partitionOffsetV1_size t =
     4 + 2 + 8 + 8"

definition partitionOffsetV1_writeTo :: "bufio_writer \<Rightarrow> partitionOffsetV1 \<Rightarrow> bufio_writer" where
  "partitionOffsetV1_writeTo w t =
     (let w = writeInt32 w (loOff_Partition t);
          w = writeInt16 w (loOff_ErrorCode t);
          w = writeInt64 w (loOff_Timestamp t)
      in writeInt64 w (loOff_Offset t))"

definition partitionOffsetV1_readFrom :: "partitionOffsetV1 reader" where
  "partitionOffsetV1_readFrom =
     rbind readInt32 (\<lambda>Partition.
     rbind readInt16 (\<lambda>ErrorCode.
     rbind readInt64 (\<lambda>Timestamp.
     rbind readInt64 (\<lambda>Offset.
     rret \<lparr>loOff_Partition = Partition, loOff_ErrorCode = ErrorCode, loOff_Timestamp = Timestamp, loOff_Offset = Offset\<rparr>))))"

definition partitionOffsetV1_ok :: "partitionOffsetV1 \<Rightarrow> bool" where
  "partitionOffsetV1_ok t \<longleftrightarrow> True"

interpretation loOff: sized partitionOffsetV1_size partitionOffsetV1_writeTo
  by unfold_locales (simp_all add: partitionOffsetV1_size_def partitionOffsetV1_writeTo_def Let_def wire wire_size)

interpretation loOff: message_codec partitionOffsetV1_size partitionOffsetV1_writeTo partitionOffsetV1_readFrom partitionOffsetV1_ok
  by (rule codecI [OF loOff.sized_axioms];
      simp add: partitionOffsetV1_writeTo_def partitionOffsetV1_readFrom_def partitionOffsetV1_ok_def Let_def frame)
    (rule parse parse_rules account | simp)+

lemmas [parse] = loOff.rd_parses loOff.array_parses
lemmas [account] = loOff.rd_accounts
lemmas [frame] = loOff.append loOff.array_nil
lemmas [wire] = loOff.append loOff.array_append
lemmas [wire_size] = loOff.size_length loOff.array_size

record listOffsetResponseTopicV1 =
  loTRes_TopicName :: gostring
  loTRes_PartitionOffsets :: "partitionOffsetV1 list"

definition listOffsetResponseTopicV1_size :: "listOffsetResponseTopicV1 \<Rightarrow> int32" where
  "listOffsetResponseTopicV1_size t =
     sizeofString (loTRes_TopicName t) +
     sizeofArray partitionOffsetV1_size (loTRes_PartitionOffsets t)"

definition listOffsetResponseTopicV1_writeTo :: "bufio_writer \<Rightarrow> listOffsetResponseTopicV1 \<Rightarrow> bufio_writer" where
  "listOffsetResponseTopicV1_writeTo w t =
     (let w = writeString w (loTRes_TopicName t)
      in writeArray w partitionOffsetV1_writeTo (loTRes_PartitionOffsets t))"

interpretation loTRes: sized listOffsetResponseTopicV1_size listOffsetResponseTopicV1_writeTo
  by unfold_locales (simp_all add: listOffsetResponseTopicV1_size_def listOffsetResponseTopicV1_writeTo_def Let_def wire wire_size)

lemmas [frame] = loTRes.append loTRes.array_nil
lemmas [wire] = loTRes.append loTRes.array_append
lemmas [wire_size] = loTRes.size_length loTRes.array_size

type_synonym listOffsetResponseV1 = "listOffsetResponseTopicV1 list"

definition listOffsetResponseV1_size :: "listOffsetResponseV1 \<Rightarrow> int32" where
  "listOffsetResponseV1_size r = sizeofArray listOffsetResponseTopicV1_size r"

definition listOffsetResponseV1_writeTo :: "bufio_writer \<Rightarrow> listOffsetResponseV1 \<Rightarrow> bufio_writer" where
  "listOffsetResponseV1_writeTo w r = writeArray w listOffsetResponseTopicV1_writeTo r"

interpretation loRes: sized listOffsetResponseV1_size listOffsetResponseV1_writeTo
  by unfold_locales (simp_all add: listOffsetResponseV1_size_def listOffsetResponseV1_writeTo_def wire wire_size)


subsection \<open>Direct encoders of requests (write.go)\<close>

text \<open>
  write.go encodes the frequent requests without building their structs. The functions end with a
  \<open>Flush\<close> of the writer, which is a step of the connection that calls them.
\<close>

definition fetchRequest :: int16 where "fetchRequest = 1"
definition listOffsetRequest :: int16 where "listOffsetRequest = 2"
definition produceRequest :: int16 where "produceRequest = 0"

definition writeFetchRequestV2 ::
  "bufio_writer \<Rightarrow> int32 \<Rightarrow> gostring \<Rightarrow> gostring \<Rightarrow> int32 \<Rightarrow> int64 \<Rightarrow> int \<Rightarrow> int \<Rightarrow> duration \<Rightarrow> bufio_writer" where
  "writeFetchRequestV2 w correlationID clientID topic part offset minBytes maxBytes maxWait =
     (let h = \<lparr>Size = 0, ApiKey = fetchRequest, ApiVersion = 2, CorrelationID = correlationID, ClientID = clientID\<rparr>;
          h = h\<lparr>Size := (requestHeader_size h - 4) + 4 + 4 + 4 + 4 + sizeofString topic + 4 + 4 + 8 + 4\<rparr>;
          w = requestHeader_writeTo w h;
          w = writeInt32 w (- 1);
          w = writeInt32 w (milliseconds maxWait);
          w = writeInt32 w (word_of_int minBytes);
          w = writeArrayLen w 1;
          w = writeString w topic;
          w = writeArrayLen w 1;
          w = writeInt32 w part;
          w = writeInt64 w offset
      in writeInt32 w (word_of_int maxBytes))"

definition writeFetchRequestV5 ::
  "bufio_writer \<Rightarrow> int32 \<Rightarrow> gostring \<Rightarrow> gostring \<Rightarrow> int32 \<Rightarrow> int64 \<Rightarrow> int \<Rightarrow> int \<Rightarrow> duration \<Rightarrow> int8 \<Rightarrow> bufio_writer" where
  "writeFetchRequestV5 w correlationID clientID topic part offset minBytes maxBytes maxWait isolationLevel =
     (let h = \<lparr>Size = 0, ApiKey = fetchRequest, ApiVersion = 5, CorrelationID = correlationID, ClientID = clientID\<rparr>;
          h = h\<lparr>Size := (requestHeader_size h - 4) + 4 + 4 + 4 + 4 + 1 + 4 + sizeofString topic + 4 + 4 + 8 + 8 + 4\<rparr>;
          w = requestHeader_writeTo w h;
          w = writeInt32 w (- 1);
          w = writeInt32 w (milliseconds maxWait);
          w = writeInt32 w (word_of_int minBytes);
          w = writeInt32 w (word_of_int maxBytes);
          w = writeInt8 w isolationLevel;
          w = writeArrayLen w 1;
          w = writeString w topic;
          w = writeArrayLen w 1;
          w = writeInt32 w part;
          w = writeInt64 w offset;
          w = writeInt64 w 0
      in writeInt32 w (word_of_int maxBytes))"

definition writeListOffsetRequestV1 ::
  "bufio_writer \<Rightarrow> int32 \<Rightarrow> gostring \<Rightarrow> gostring \<Rightarrow> int32 \<Rightarrow> int64 \<Rightarrow> bufio_writer" where
  "writeListOffsetRequestV1 w correlationID clientID topic part time =
     (let h = \<lparr>Size = 0, ApiKey = listOffsetRequest, ApiVersion = 1, CorrelationID = correlationID, ClientID = clientID\<rparr>;
          h = h\<lparr>Size := (requestHeader_size h - 4) + 4 + 4 + sizeofString topic + 4 + 4 + 8\<rparr>;
          w = requestHeader_writeTo w h;
          w = writeInt32 w (- 1);
          w = writeArrayLen w 1;
          w = writeString w topic;
          w = writeArrayLen w 1;
          w = writeInt32 w part
      in writeInt64 w time)"

definition writeProduceRequestV2 ::
  "bufio_writer \<Rightarrow> CompressionCodec option \<Rightarrow> int32 \<Rightarrow> gostring \<Rightarrow> gostring \<Rightarrow> int32 \<Rightarrow> duration \<Rightarrow> int16 \<Rightarrow>
   Message list \<Rightarrow> (go_error, bufio_writer) result" where
  "writeProduceRequestV2 w codec correlationID clientID topic part timeout requiredAcks msgs =
     (case (case codec of
              None \<Rightarrow> Ok (msgs, CompressionNoneCode)
            | Some c \<Rightarrow> (case compress c msgs of
                 Ok msgs \<Rightarrow> Ok (msgs, codec_Code c) | Err e \<Rightarrow> Err e | Panic p \<Rightarrow> Panic p)) of
        Err e \<Rightarrow> Err e
      | Panic p \<Rightarrow> Panic p
      | Ok (msgs, attributes) \<Rightarrow>
          let sz = messageSetSize msgs;
              h = \<lparr>Size = 0, ApiKey = produceRequest, ApiVersion = 2, CorrelationID = correlationID, ClientID = clientID\<rparr>;
              h = h\<lparr>Size := (requestHeader_size h - 4) + 2 + 4 + 4 + sizeofString topic + 4 + 4 + 4 + sz\<rparr>;
              w = requestHeader_writeTo w h;
              w = writeInt16 w requiredAcks;
              w = writeInt32 w (milliseconds timeout);
              w = writeArrayLen w 1;
              w = writeString w topic;
              w = writeArrayLen w 1;
              w = writeInt32 w part;
              w = writeInt32 w sz
          in Ok (fold (\<lambda>msg w. writeMessage w (msg_Offset msg) attributes (msg_Time msg) (msg_Key msg) (msg_Value msg)) msgs w))"

subsection \<open>The direct encoders agree with the structs\<close>

lemma writeFetchRequestV2_eq:
  "writeFetchRequestV2 w corr client topic part offset minBytes maxBytes maxWait =
     writeRequest fetchRequestV2_size fetchRequestV2_writeTo w client 1 2 corr
       \<lparr>ftReq_ReplicaID = - 1, ftReq_MaxWaitTime = milliseconds maxWait, ftReq_MinBytes = word_of_int minBytes,
        ftReq_Topics = [\<lparr>ftTReq_TopicName = topic,
          ftTReq_Partitions = [\<lparr>ftPReq_Partition = part, ftPReq_FetchOffset = offset,
            ftPReq_MaxBytes = word_of_int maxBytes\<rparr>]\<rparr>]\<rparr>"
  by (simp add: writeFetchRequestV2_def writeRequest_def Let_def fetchRequest_def requestHeader_size_def
      requestHeader_writeTo_def fetchRequestV2_size_def fetchRequestV2_writeTo_def fetchRequestTopicV2_size_def
      fetchRequestTopicV2_writeTo_def fetchRequestPartitionV2_size_def fetchRequestPartitionV2_writeTo_def
      sizeofArray_def writeArray_def algebra_simps)

lemma writeListOffsetRequestV1_eq:
  "writeListOffsetRequestV1 w corr client topic part time =
     writeRequest listOffsetRequestV1_size listOffsetRequestV1_writeTo w client 2 1 corr
       \<lparr>loReq_ReplicaID = - 1,
        loReq_Topics = [\<lparr>loTReq_TopicName = topic,
          loTReq_Partitions = [\<lparr>loPReq_Partition = part, loPReq_Time = time\<rparr>]\<rparr>]\<rparr>"
  by (simp add: writeListOffsetRequestV1_def writeRequest_def Let_def listOffsetRequest_def requestHeader_size_def
      requestHeader_writeTo_def listOffsetRequestV1_size_def listOffsetRequestV1_writeTo_def
      listOffsetRequestTopicV1_size_def listOffsetRequestTopicV1_writeTo_def listOffsetRequestPartitionV1_size_def
      listOffsetRequestPartitionV1_writeTo_def sizeofArray_def writeArray_def algebra_simps)

text \<open>The produce request for a message set.\<close>

definition produceRequestOf ::
  "int16 \<Rightarrow> duration \<Rightarrow> gostring \<Rightarrow> int32 \<Rightarrow> messageSet \<Rightarrow> produceRequestV2" where
  "produceRequestOf acks timeout topic part items =
     \<lparr>prReq_RequiredAcks = acks, prReq_Timeout = milliseconds timeout,
      prReq_Topics = [\<lparr>prTReq_TopicName = topic,
        prTReq_Partitions = [\<lparr>prPReq_Partition = part, prPReq_MessageSetSize = messageSet_size items,
          prPReq_MessageSet = items\<rparr>]\<rparr>]\<rparr>"

lemma writeProduceRequestV2_body:
  assumes "(case codec of None \<Rightarrow> Ok (msgs, CompressionNoneCode)
      | Some c \<Rightarrow> (case compress c msgs of
          Ok msgs \<Rightarrow> Ok (msgs, codec_Code c) | Err e \<Rightarrow> Err e | Panic p \<Rightarrow> Panic p)) = Ok (msgs', attributes)"
  shows "writeProduceRequestV2 w codec corr client topic part timeout acks msgs =
    Ok (writeRequest produceRequestV2_size produceRequestV2_writeTo w client 0 2 corr
      (produceRequestOf acks timeout topic part (itemsOf attributes msgs')))"
  unfolding writeProduceRequestV2_def assms
  by (simp add: writeRequest_def Let_def produceRequest_def requestHeader_size_def fold_writeMessage
      requestHeader_writeTo_def produceRequestOf_def produceRequestV2_size_def produceRequestV2_writeTo_def
      produceRequestTopicV2_size_def produceRequestTopicV2_writeTo_def produceRequestPartitionV2_size_def
      produceRequestPartitionV2_writeTo_def sizeofArray_def writeArray_def algebra_simps messageSetSize_eq [of msgs' attributes])

lemma writeFetchRequestV5_framed:
  "\<exists>bs. writeFetchRequestV5 w corr client topic part offset minBytes maxBytes maxWait isolation = w @ bs \<and> framed bs"
proof -
  define body where
    "body = PutUint16 1 @ PutUint16 5 @ PutUint32 corr @ writeString [] client @ PutUint32 (- 1) @
      PutUint32 (milliseconds maxWait) @ PutUint32 (word_of_int minBytes) @ PutUint32 (word_of_int maxBytes) @
      [isolation] @ PutUint32 1 @ writeString [] topic @ PutUint32 1 @ PutUint32 part @ PutUint64 offset @
      PutUint64 0 @ PutUint32 (word_of_int maxBytes)"
  have "writeFetchRequestV5 w corr client topic part offset minBytes maxBytes maxWait isolation =
      w @ PutUint32 (of_nat (length body)) @ body"
    by (simp add: writeFetchRequestV5_def Let_def fetchRequest_def requestHeader_size_def
        requestHeader_writeTo_def body_def wire wire_size)
  then show ?thesis unfolding framed_def by blast
qed

subsection \<open>Properties\<close>

text \<open>C22. \<open>writeProduceRequestV2\<close>, which encodes the request without building it, writes the bytes that
  \<open>writeRequest\<close> writes for the structs of produce.go and message.go: the size in the header, the checksums and
  the sizes of the messages included. With a codec the message set holds the one message that \<open>compress\<close>
  returned, and an error of the codec is returned before anything is written.\<close>

theorem writeProduceRequestV2_struct:
  "writeProduceRequestV2 w codec corr client topic part timeout acks msgs =
     (case (case codec of None \<Rightarrow> Ok (msgs, CompressionNoneCode)
        | Some c \<Rightarrow> (case compress c msgs of
            Ok msgs \<Rightarrow> Ok (msgs, codec_Code c) | Err e \<Rightarrow> Err e | Panic p \<Rightarrow> Panic p)) of
        Ok (msgs', attributes) \<Rightarrow>
          Ok (writeRequest produceRequestV2_size produceRequestV2_writeTo w client 0 2 corr
            (produceRequestOf acks timeout topic part (itemsOf attributes msgs')))
      | Err e \<Rightarrow> Err e
      | Panic p \<Rightarrow> Panic p)"
proof (cases codec)
  case None
  then show ?thesis using writeProduceRequestV2_body [where codec = None and msgs = msgs] by simp
next
  case (Some c)
  then show ?thesis
    using writeProduceRequestV2_body [where codec = codec and msgs = msgs] by (cases "compress c msgs") (simp_all add: writeProduceRequestV2_def)
qed

text \<open>The same for \<open>writeFetchRequestV2\<close> and \<open>writeListOffsetRequestV1\<close> and the structs of fetch.go
  and listoffset.go.\<close>

theorem writeFetch_writeListOffset_struct:
  "writeFetchRequestV2 w corr client topic part offset minBytes maxBytes maxWait =
     writeRequest fetchRequestV2_size fetchRequestV2_writeTo w client 1 2 corr
       \<lparr>ftReq_ReplicaID = - 1, ftReq_MaxWaitTime = milliseconds maxWait, ftReq_MinBytes = word_of_int minBytes,
        ftReq_Topics = [\<lparr>ftTReq_TopicName = topic,
          ftTReq_Partitions = [\<lparr>ftPReq_Partition = part, ftPReq_FetchOffset = offset,
            ftPReq_MaxBytes = word_of_int maxBytes\<rparr>]\<rparr>]\<rparr> \<and>
   writeListOffsetRequestV1 w corr client topic part time =
     writeRequest listOffsetRequestV1_size listOffsetRequestV1_writeTo w client 2 1 corr
       \<lparr>loReq_ReplicaID = - 1,
        loReq_Topics = [\<lparr>loTReq_TopicName = topic,
          loTReq_Partitions = [\<lparr>loPReq_Partition = part, loPReq_Time = time\<rparr>]\<rparr>]\<rparr>"
  by (simp add: writeFetchRequestV2_eq writeListOffsetRequestV1_eq)

end
