(* ===== verification/RecordBatch.thy ===== *)
theory RecordBatch
  imports Varint DataMessages
begin

section \<open>Record batches (write.go)\<close>

text \<open>
  The encoders of the second message format. They call \<open>writeVarInt\<close> and \<open>varIntLen\<close>, which do not
  return for some integers, so their value is an option: \<open>None\<close> when the call does not return. Under it,
  a result says whether the call panics, fails or succeeds.
\<close>

subsection \<open>The code\<close>

text \<open>A loop over a slice whose body may not return.\<close>

fun foldO :: "('a \<Rightarrow> 'b \<Rightarrow> 'b option) \<Rightarrow> 'a list \<Rightarrow> 'b \<Rightarrow> 'b option" where
  "foldO f [] b = Some b"
| "foldO f (x # xs) b = do { b' \<leftarrow> f x b; foldO f xs b' }"

definition recordSize :: "Message \<Rightarrow> duration \<Rightarrow> int64 \<Rightarrow> int option" where
  "recordSize msg timestampDelta offsetDelta = do {
     ts \<leftarrow> varIntLen timestampDelta;
     od \<leftarrow> varIntLen offsetDelta;
     kl \<leftarrow> varIntLen (of_nat (length (contents (msg_Key msg))));
     vl \<leftarrow> varIntLen (of_nat (length (contents (msg_Value msg))));
     hl \<leftarrow> varIntLen (of_nat (length (msg_Headers msg)));
     foldO (\<lambda>h sz. do {
         hk \<leftarrow> varIntLen (of_nat (length (hdr_Key h)));
         hv \<leftarrow> varIntLen (of_nat (length (contents (hdr_Value h))));
         Some (sz + (hk + int (length (hdr_Key h)) + hv + int (length (contents (hdr_Value h)))))
       }) (msg_Headers msg)
       (1 + ts + od + kl + int (length (contents (msg_Key msg))) + vl + int (length (contents (msg_Value msg))) + hl)
   }"

definition writeRecord :: "bufio_writer \<Rightarrow> int8 \<Rightarrow> gotime \<Rightarrow> int64 \<Rightarrow> Message \<Rightarrow> bufio_writer option" where
  "writeRecord w attributes baseTime offset msg = do {
     let timestampDelta = Sub (msg_Time msg) baseTime;
     let offsetDelta = offset;
     sz \<leftarrow> recordSize msg timestampDelta offsetDelta;
     w \<leftarrow> writeVarInt w (word_of_int sz);
     let w = writeInt8 w attributes;
     w \<leftarrow> writeVarInt w timestampDelta;
     w \<leftarrow> writeVarInt w offsetDelta;
     w \<leftarrow> writeVarInt w (of_nat (length (contents (msg_Key msg))));
     let w = Write w (contents (msg_Key msg));
     w \<leftarrow> writeVarInt w (of_nat (length (contents (msg_Value msg))));
     let w = Write w (contents (msg_Value msg));
     w \<leftarrow> writeVarInt w (of_nat (length (msg_Headers msg)));
     foldO (\<lambda>h w. do {
         w \<leftarrow> writeVarInt w (of_nat (length (hdr_Key h)));
         let w = Write w (hdr_Key h);
         w \<leftarrow> writeVarInt w (of_nat (length (contents (hdr_Value h))));
         Some (Write w (contents (hdr_Value h)))
       }) (msg_Headers msg) w
   }"

definition recordBatchHeaderSize :: int32 where
  "recordBatchHeaderSize = 8 + 4 + 4 + 1 + 4 + 2 + 4 + 8 + 8 + 8 + 2 + 4 + 4"

definition recordBatchSize :: "Message list \<Rightarrow> (go_error, int32) result option" where
  "recordBatchSize msgs =
     (case msgs of
        [] \<Rightarrow> Some (Panic IndexOutOfRange)
      | first # _ \<Rightarrow> do {
          let baseTime = msg_Time first;
          sz \<leftarrow> foldO (\<lambda>(i, msg) sz. do {
              rs \<leftarrow> recordSize msg (Sub (msg_Time msg) baseTime) (of_nat i);
              vl \<leftarrow> varIntLen (word_of_int rs);
              Some (sz + word_of_int (rs + vl))
            }) (enumerate 0 msgs) recordBatchHeaderSize;
          Some (Ok sz)
        })"

text \<open>The loop over the messages that both variants of the produce request have.\<close>

definition writeRecords :: "Message list \<Rightarrow> bufio_writer \<Rightarrow> bufio_writer option" where
  "writeRecords msgs w =
     foldO (\<lambda>(i, msg) w. writeRecord w 0 (msg_Time (hd msgs)) (of_nat i) msg) (enumerate 0 msgs) w"

definition growPanic :: go_panic where
  "growPanic = PanicMessage ''bytes.Buffer.Grow: negative count''"

definition writeRecordBatch ::
  "bufio_writer \<Rightarrow> int16 \<Rightarrow> int32 \<Rightarrow> (bufio_writer \<Rightarrow> bufio_writer option) \<Rightarrow> Message list \<Rightarrow>
   (go_error, bufio_writer) result option" where
  "writeRecordBatch w attributes sz wr msgs =
     (if msgs = [] then Some (Panic IndexOutOfRange)
      else if sint (sz - 12) < 0 then Some (Panic growPanic)
      else do {
        let baseTime = msg_Time (hd msgs);
        let w = writeInt64 w 0;
        let w = writeInt32 w (sz - 12);
        let w = writeInt32 w (- 1);
        let w = writeInt8 w 2;
        let crcWriter = [];
        let crcWriter = writeInt16 crcWriter attributes;
        let crcWriter = writeInt32 crcWriter (word_of_int (int (length msgs) - 1));
        let crcWriter = writeInt64 crcWriter (timestamp baseTime);
        let lastTime = timestamp (msg_Time (last msgs));
        let crcWriter = writeInt64 crcWriter lastTime;
        let crcWriter = writeInt64 crcWriter (- 1);
        let crcWriter = writeInt16 crcWriter (- 1);
        let crcWriter = writeInt32 crcWriter (- 1);
        let crcWriter = writeInt32 crcWriter (of_nat (length msgs));
        crcBuf \<leftarrow> wr crcWriter;
        let w = writeInt32 w (crc32_Checksum Castagnoli crcBuf);
        Some (Ok (Write w crcBuf))
      })"

text \<open>
  The first half of the request decides the attributes, the size of the batch and how its records are
  written: compressed ones as the bytes that the codec returned.
\<close>

definition prepareRecords ::
  "CompressionCodec option \<Rightarrow> Message list \<Rightarrow>
   (go_error, int16 \<times> int32 \<times> (bufio_writer \<Rightarrow> bufio_writer option)) result option" where
  "prepareRecords codec msgs =
     (case codec of
        None \<Rightarrow> do {
          r \<leftarrow> recordBatchSize msgs;
          Some (case r of
              Ok sz \<Rightarrow> Ok (0, sz, writeRecords msgs)
            | Err e \<Rightarrow> Err e
            | Panic p \<Rightarrow> Panic p)
        }
      | Some c \<Rightarrow> do {
          r \<leftarrow> recordBatchSize msgs;
          case r of
            Err e \<Rightarrow> Some (Err e)
          | Panic p \<Rightarrow> Some (Panic p)
          | Ok grow \<Rightarrow>
              if sint grow < 0 then Some (Panic growPanic)
              else do {
                recordBuf \<leftarrow> writeRecords msgs [];
                Some (case codec_Encode c recordBuf of
                    Err e \<Rightarrow> Err e
                  | Panic p \<Rightarrow> Panic p
                  | Ok compressed \<Rightarrow>
                      Ok (scast (codec_Code c),
                          recordBatchHeaderSize + of_nat (length (contents compressed)),
                          \<lambda>w. Some (Write w (contents compressed))))
              }
        })"

definition writeProduceRequestV3 ::
  "bufio_writer \<Rightarrow> CompressionCodec option \<Rightarrow> int32 \<Rightarrow> gostring \<Rightarrow> gostring \<Rightarrow> int32 \<Rightarrow> duration \<Rightarrow> int16 \<Rightarrow>
   Message list \<Rightarrow> (go_error, bufio_writer) result option" where
  "writeProduceRequestV3 w codec correlationID clientID topic part timeout requiredAcks msgs = do {
     r \<leftarrow> prepareRecords codec msgs;
     case r of
       Err e \<Rightarrow> Some (Err e)
     | Panic p \<Rightarrow> Some (Panic p)
     | Ok (attributes, sz, wr) \<Rightarrow>
         let h = \<lparr>Size = 0, ApiKey = produceRequest, ApiVersion = 3, CorrelationID = correlationID, ClientID = clientID\<rparr>;
             h = h\<lparr>Size := (requestHeader_size h - 4) + 2 + 2 + 4 + 4 + sizeofString topic + 4 + 4 + 4 + sz\<rparr>;
             w = requestHeader_writeTo w h;
             w = writeInt16 w (- 1);
             w = writeInt16 w requiredAcks;
             w = writeInt32 w (milliseconds timeout);
             w = writeArrayLen w 1;
             w = writeString w topic;
             w = writeArrayLen w 1;
             w = writeInt32 w part;
             w = writeInt32 w sz
         in writeRecordBatch w attributes sz wr msgs
   }"

subsection \<open>The bytes of a record\<close>

definition headerBytes :: "Header \<Rightarrow> byte list" where
  "headerBytes h =
     varIntBytes (of_nat (length (hdr_Key h))) @ hdr_Key h @
     varIntBytes (of_nat (length (contents (hdr_Value h)))) @ contents (hdr_Value h)"

definition recordBody :: "int8 \<Rightarrow> int64 \<Rightarrow> int64 \<Rightarrow> Message \<Rightarrow> byte list" where
  "recordBody attributes delta offset msg =
     [attributes] @ varIntBytes delta @ varIntBytes offset @
     varIntBytes (of_nat (length (contents (msg_Key msg)))) @ contents (msg_Key msg) @
     varIntBytes (of_nat (length (contents (msg_Value msg)))) @ contents (msg_Value msg) @
     varIntBytes (of_nat (length (msg_Headers msg))) @ concat (map headerBytes (msg_Headers msg))"

definition recordBytes :: "int8 \<Rightarrow> gotime \<Rightarrow> int64 \<Rightarrow> Message \<Rightarrow> byte list" where
  "recordBytes attributes baseTime offset msg =
     (let body = recordBody attributes (Sub (msg_Time msg) baseTime) offset msg
      in varIntBytes (of_nat (length body)) @ body)"

text \<open>
  The messages whose records can be written: the differences of times and the lengths are integers
  that \<open>writeVarInt\<close> returns for.
\<close>

definition headerOk :: "Header \<Rightarrow> bool" where
  "headerOk h \<longleftrightarrow> length (hdr_Key h) < 2 ^ 62 \<and> length (contents (hdr_Value h)) < 2 ^ 62"

definition recordOk :: "gotime \<Rightarrow> int64 \<Rightarrow> Message \<Rightarrow> bool" where
  "recordOk baseTime offset msg \<longleftrightarrow>
     varIntOk (Sub (msg_Time msg) baseTime) \<and> varIntOk offset \<and>
     list_all headerOk (msg_Headers msg) \<and>
     length (recordBody 0 (Sub (msg_Time msg) baseTime) offset msg) < 2 ^ 62"

lemma foldO_Some: "(\<And>x b. x \<in> set xs \<Longrightarrow> f x b = Some (g x b)) \<Longrightarrow> foldO f xs b = Some (fold g xs b)"
  by (induction xs arbitrary: b) simp_all

lemma length_headers: "length xs \<le> length (concat (map headerBytes xs))"
proof (induction xs)
  case (Cons h hs)
  then show ?case using length_varIntBytes(1) [of "of_nat (length (hdr_Key h))"]
    by (simp add: headerBytes_def)
qed simp

lemma length_recordBody:
  "length (recordBody a delta offset msg) = length (recordBody 0 delta offset msg)"
  by (simp add: recordBody_def)

lemma recordOkD:
  assumes "recordOk baseTime offset msg"
  shows "varIntOk (Sub (msg_Time msg) baseTime)" "varIntOk offset"
    "varIntOk (of_nat (length (contents (msg_Key msg))))"
    "varIntOk (of_nat (length (contents (msg_Value msg))))"
    "varIntOk (of_nat (length (msg_Headers msg)))"
    "varIntOk (of_nat (length (recordBody a (Sub (msg_Time msg) baseTime) offset msg)))"
    "h \<in> set (msg_Headers msg) \<Longrightarrow> varIntOk (of_nat (length (hdr_Key h)))"
    "h \<in> set (msg_Headers msg) \<Longrightarrow> varIntOk (of_nat (length (contents (hdr_Value h))))"
proof -
  have "length (contents (msg_Key msg)) < 2 ^ 62" "length (contents (msg_Value msg)) < 2 ^ 62"
    "length (msg_Headers msg) < 2 ^ 62"
    using assms length_headers [of "msg_Headers msg"] by (simp_all add: recordOk_def recordBody_def)
  then show "varIntOk (of_nat (length (contents (msg_Key msg))))"
    "varIntOk (of_nat (length (contents (msg_Value msg))))" "varIntOk (of_nat (length (msg_Headers msg)))"
    by (simp_all add: varIntOk_nat)
qed (use assms length_recordBody [of a] in \<open>auto simp: recordOk_def headerOk_def list_all_iff intro!: varIntOk_nat\<close>)

lemma fold_add_int: "fold (\<lambda>h sz. sz + f h) xs n = n + (\<Sum>x\<leftarrow>xs. f x)" for n :: int
  by (induction xs arbitrary: n) simp_all

lemma recordSize_eq:
  assumes ok: "recordOk baseTime offset msg"
  shows "recordSize msg (Sub (msg_Time msg) baseTime) offset =
    Some (int (length (recordBody a (Sub (msg_Time msg) baseTime) offset msg)))"
proof -
  have "foldO (\<lambda>h sz. do {
      hk \<leftarrow> varIntLen (of_nat (length (hdr_Key h)));
      hv \<leftarrow> varIntLen (of_nat (length (contents (hdr_Value h))));
      Some (sz + (hk + int (length (hdr_Key h)) + hv + int (length (contents (hdr_Value h)))))
    }) (msg_Headers msg) n = Some (fold (\<lambda>h sz. sz + int (length (headerBytes h))) (msg_Headers msg) n)" for n
    by (intro foldO_Some) (simp add: varIntLen_eq recordOkD [OF ok] headerBytes_def)
  then show ?thesis
    by (simp add: recordSize_def varIntLen_eq [of "of_nat (length (msg_Headers msg))"]
        varIntLen_eq [of "of_nat (length (contents (msg_Key msg)))"]
        varIntLen_eq [of "of_nat (length (contents (msg_Value msg)))"]
        varIntLen_eq [of "Sub (msg_Time msg) baseTime"] varIntLen_eq [of offset] recordOkD [OF ok]
        recordBody_def fold_add_int length_concat_map of_nat_sum_list)
qed

lemma fold_append: "fold (\<lambda>x w. w @ f x) xs w = w @ concat (map f xs)"
  by (induction xs arbitrary: w) simp_all

lemma writeRecord_eq:
  assumes ok: "recordOk baseTime offset msg"
  shows "writeRecord w a baseTime offset msg = Some (w @ recordBytes a baseTime offset msg)"
proof -
  let ?body = "recordBody a (Sub (msg_Time msg) baseTime) offset msg"
  have "foldO (\<lambda>h w. do {
      w \<leftarrow> writeVarInt w (of_nat (length (hdr_Key h)));
      let w = Write w (hdr_Key h);
      w \<leftarrow> writeVarInt w (of_nat (length (contents (hdr_Value h))));
      Some (Write w (contents (hdr_Value h)))
    }) (msg_Headers msg) v = Some (fold (\<lambda>h w. w @ headerBytes h) (msg_Headers msg) v)" for v
    by (intro foldO_Some) (simp add: writeVarInt_eq recordOkD [OF ok] headerBytes_def Write_def)
  note headers = this [unfolded Let_def fold_append]
  have "writeRecord w a baseTime offset msg = Some (w @ varIntBytes (of_nat (length ?body)) @ ?body)"
    unfolding writeRecord_def recordSize_eq [OF ok, of a] Let_def headers
    by (simp add: writeVarInt_eq recordOkD [OF ok] Write_def wire del: of_nat_add)
      (simp add: recordBody_def)
  then show ?thesis by (simp add: recordBytes_def Let_def)
qed

text \<open>The records of a batch, and the batches that can be written.\<close>

definition recordsBytes :: "Message list \<Rightarrow> byte list" where
  "recordsBytes msgs =
     concat (map (\<lambda>(i, msg). recordBytes 0 (msg_Time (hd msgs)) (of_nat i) msg) (enumerate 0 msgs))"

definition recordsOk :: "Message list \<Rightarrow> bool" where
  "recordsOk msgs \<longleftrightarrow>
     msgs \<noteq> [] \<and> list_all (\<lambda>(i, msg). recordOk (msg_Time (hd msgs)) (of_nat i) msg) (enumerate 0 msgs)"

lemma writeRecords_eq: "recordsOk msgs \<Longrightarrow> writeRecords msgs w = Some (w @ recordsBytes msgs)"
proof -
  assume ok: "recordsOk msgs"
  have "writeRecords msgs w =
      Some (fold (\<lambda>(i, msg) w. w @ recordBytes 0 (msg_Time (hd msgs)) (of_nat i) msg) (enumerate 0 msgs) w)"
    unfolding writeRecords_def
    using ok by (intro foldO_Some) (auto simp: recordsOk_def list_all_iff writeRecord_eq)
  then show ?thesis
    using fold_append [of "\<lambda>(i, msg). recordBytes 0 (msg_Time (hd msgs)) (of_nat i) msg" "enumerate 0 msgs" w]
    by (simp add: recordsBytes_def case_prod_unfold)
qed

lemma fold_add_word: "fold (\<lambda>x sz. sz + f x) xs n = n + (\<Sum>x\<leftarrow>xs. f x)" for n :: "'a::len word"
  by (induction xs arbitrary: n) simp_all

lemma recordBatchSize_eq:
  assumes ok: "recordsOk msgs"
  shows "recordBatchSize msgs = Some (Ok (of_nat (61 + length (recordsBytes msgs))))"
proof -
  obtain m ms where msgs: "msgs = m # ms" using ok by (cases msgs) (auto simp: recordsOk_def)
  let ?len = "\<lambda>(i, msg). length (recordBytes 0 (msg_Time m) (of_nat i) msg)"
  let ?add = "\<lambda>(i, msg) sz. do {
      rs \<leftarrow> recordSize msg (Sub (msg_Time msg) (msg_Time m)) (of_nat i);
      vl \<leftarrow> varIntLen (word_of_int rs);
      Some (sz + word_of_int (rs + vl))
    }"
  have "foldO ?add (enumerate 0 msgs) n = Some (fold (\<lambda>x sz. sz + of_nat (?len x)) (enumerate 0 msgs) n)" for n :: int32
  proof (intro foldO_Some)
    fix x and sz :: int32
    assume "x \<in> set (enumerate 0 msgs)"
    then obtain i msg where x: "x = (i, msg)" and ok1: "recordOk (msg_Time m) (of_nat i) msg"
      using ok by (cases x) (auto simp: recordsOk_def list_all_iff msgs)
    show "?add x sz = Some (sz + of_nat (?len x))"
      using recordOkD(6) [OF ok1, of 0]
      by (simp add: x recordSize_eq [OF ok1, of 0] varIntLen_eq recordBytes_def Let_def)
  qed
  then show ?thesis
    by (simp add: recordBatchSize_def msgs recordBatchHeaderSize_def fold_add_word recordsBytes_def
        length_concat_map of_nat_sum_list case_prod_unfold del: enumerate_simps)
qed

subsection \<open>The bytes of a batch and of the request\<close>

text \<open>The part of a batch that its checksum covers, and the whole batch.\<close>

definition batchTail :: "int16 \<Rightarrow> Message list \<Rightarrow> byte list \<Rightarrow> byte list" where
  "batchTail attributes msgs payload =
     PutUint16 attributes @ PutUint32 (of_nat (length msgs) - 1) @ PutUint64 (timestamp (msg_Time (hd msgs))) @
     PutUint64 (timestamp (msg_Time (last msgs))) @ PutUint64 (- 1) @ PutUint16 (- 1) @ PutUint32 (- 1) @
     PutUint32 (of_nat (length msgs)) @ payload"

definition batchBytes :: "int16 \<Rightarrow> Message list \<Rightarrow> byte list \<Rightarrow> byte list" where
  "batchBytes attributes msgs payload =
     (let tail = batchTail attributes msgs payload;
          rest = PutUint32 (- 1) @ [2] @ PutUint32 (crc32_Checksum Castagnoli tail) @ tail
      in PutUint64 0 @ PutUint32 (of_nat (length rest)) @ rest)"

lemma length_batchBytes: "length (batchBytes attributes msgs payload) = 61 + length payload"
  by (simp add: batchBytes_def batchTail_def Let_def)

lemma writeRecordBatch_eq:
  assumes "msgs \<noteq> []" "49 + length payload < 2 ^ 31" "\<And>w. wr w = Some (w @ payload)"
  shows "writeRecordBatch w attributes (of_nat (61 + length payload)) wr msgs =
    Some (Ok (w @ batchBytes attributes msgs payload))"
proof -
  have sz: "of_nat (61 + length payload) - 12 = (of_nat (49 + length payload) :: int32)"
    by simp
  have nonneg: "0 \<le> sint (of_nat (49 + length payload) :: int32)"
    using assms(2) by (subst sint_of_nat_small) simp_all
  have len: "word_of_int (int (length msgs) - 1) = (of_nat (length msgs) - 1 :: int32)"
    by simp
  show ?thesis
    unfolding writeRecordBatch_def sz len
    using assms(1) nonneg
    by (simp add: assms(3) Let_def batchBytes_def batchTail_def wire Write_def del: of_nat_add)
qed

definition produceV3Body ::
  "int32 \<Rightarrow> gostring \<Rightarrow> gostring \<Rightarrow> int32 \<Rightarrow> duration \<Rightarrow> int16 \<Rightarrow> byte list \<Rightarrow> byte list" where
  "produceV3Body corr client topic part timeout acks batch =
     PutUint16 0 @ PutUint16 3 @ PutUint32 corr @ writeString [] client @ PutUint16 (- 1) @ PutUint16 acks @
     PutUint32 (milliseconds timeout) @ PutUint32 1 @ writeString [] topic @ PutUint32 1 @ PutUint32 part @
     PutUint32 (of_nat (length batch)) @ batch"

lemma writeProduceRequestV3_eq:
  assumes "prepareRecords codec msgs = Some (Ok (attributes, of_nat (61 + length payload), wr))"
    and "msgs \<noteq> []" "49 + length payload < 2 ^ 31" "\<And>w. wr w = Some (w @ payload)"
    and body: "body = produceV3Body corr client topic part timeout acks (batchBytes attributes msgs payload)"
  shows "writeProduceRequestV3 w codec corr client topic part timeout acks msgs =
    Some (Ok (w @ PutUint32 (of_nat (length body)) @ body))"
  unfolding writeProduceRequestV3_def assms(1)
  by (simp add: Let_def produceRequest_def requestHeader_size_def requestHeader_writeTo_def
      writeRecordBatch_eq [OF assms(2-4), simplified] wire wire_size body produceV3Body_def length_batchBytes)

lemma prepareRecords_none:
  "recordsOk msgs \<Longrightarrow> prepareRecords None msgs = Some (Ok (0, of_nat (61 + length (recordsBytes msgs)), writeRecords msgs))"
  by (simp add: prepareRecords_def recordBatchSize_eq)

lemma prepareRecords_codec:
  assumes "recordsOk msgs" "61 + length (recordsBytes msgs) < 2 ^ 31"
    and "codec_Encode c (recordsBytes msgs) = Ok compressed"
  shows "prepareRecords (Some c) msgs =
    Some (Ok (scast (codec_Code c), of_nat (61 + length (contents compressed)), \<lambda>w. Some (w @ contents compressed)))"
proof -
  have "0 \<le> sint (of_nat (61 + length (recordsBytes msgs)) :: int32)"
    using assms(2) by (subst sint_of_nat_small) simp_all
  then show ?thesis
    using assms(1,3) by (simp add: prepareRecords_def recordBatchSize_eq writeRecords_eq recordBatchHeaderSize_def
        Write_def del: of_nat_add) simp
qed

subsection \<open>Properties\<close>

text \<open>C23. A version 3 produce request without compression has the length that its header announces and
  carries one record batch: the batch declares its own length, has the Castagnoli checksum of everything
  after the checksum, and its records are the messages, in order.\<close>

theorem writeProduceRequestV3_uncompressed:
  assumes "recordsOk msgs" "49 + length (recordsBytes msgs) < 2 ^ 31"
  shows "\<exists>body. writeProduceRequestV3 w None corr client topic part timeout acks msgs =
      Some (Ok (w @ PutUint32 (of_nat (length body)) @ body)) \<and>
    body = produceV3Body corr client topic part timeout acks (batchBytes 0 msgs (recordsBytes msgs)) \<and>
    recordBatchSize msgs = Some (Ok (of_nat (length (batchBytes 0 msgs (recordsBytes msgs)))))"
proof -
  have "msgs \<noteq> []" using assms(1) by (simp add: recordsOk_def)
  then show ?thesis
    using writeProduceRequestV3_eq [OF prepareRecords_none [OF assms(1)] _ assms(2) writeRecords_eq [OF assms(1)] refl]
      recordBatchSize_eq [OF assms(1)]
    by (simp add: length_batchBytes)
qed

text \<open>C24. With a codec, the batch has the codec's code as attributes and the compressed records as payload.\<close>

theorem writeProduceRequestV3_compressed:
  assumes "recordsOk msgs" "61 + length (recordsBytes msgs) < 2 ^ 31"
    and "codec_Encode c (recordsBytes msgs) = Ok compressed" "49 + length (contents compressed) < 2 ^ 31"
  shows "\<exists>body. writeProduceRequestV3 w (Some c) corr client topic part timeout acks msgs =
      Some (Ok (w @ PutUint32 (of_nat (length body)) @ body)) \<and>
    body = produceV3Body corr client topic part timeout acks (batchBytes (scast (codec_Code c)) msgs (contents compressed))"
proof -
  have "msgs \<noteq> []" using assms(1) by (simp add: recordsOk_def)
  then show ?thesis
    using writeProduceRequestV3_eq [OF prepareRecords_codec [OF assms(1-3)] _ assms(4) refl refl] by simp
qed

text \<open>A message that the properties are instantiated with.\<close>

definition exampleMessage :: Message where
  "exampleMessage = \<lparr>msg_Topic = [], msg_Partition = 0, msg_Offset = 0, msg_Key = Some [1], msg_Value = Some [2, 3],
     msg_Headers = [\<lparr>hdr_Key = [4], hdr_Value = None\<rparr>], msg_Time = 0\<rparr>"

lemma example_recordsOk: "recordsOk [exampleMessage]" "length (recordsBytes [exampleMessage]) \<le> 200"
proof -
  have l: "length (varIntBytes i) \<le> 10" for i by (rule length_varIntBytes)
  have "length (recordBody 0 d off exampleMessage) \<le> 100" for d off
    using l [of d] l [of off] l [of 0] l [of 1] l [of 2]
    by (simp add: recordBody_def exampleMessage_def headerBytes_def)
  note body = this
  show "recordsOk [exampleMessage]"
    using body [of 0 0] by (simp add: recordsOk_def recordOk_def headerOk_def varIntOk_def Sub_def exampleMessage_def)
  show "length (recordsBytes [exampleMessage]) \<le> 200"
    using body [of "Sub 0 0" 0] l [of "word_of_int (int (length (recordBody 0 (Sub 0 0) 0 exampleMessage)))"]
    by (simp add: recordsBytes_def recordBytes_def Let_def exampleMessage_def)
qed

theorem writeProduceRequestV3_uncompressed_witness:
  "\<exists>body. writeProduceRequestV3 [] None 7 [99] [116] 0 0 (- 1) [exampleMessage] =
      Some (Ok (PutUint32 (of_nat (length body)) @ body))"
  using writeProduceRequestV3_uncompressed [OF example_recordsOk(1), of "[]" 7 "[99]" "[116]" 0 0 "- 1"]
    example_recordsOk(2) by auto

theorem writeProduceRequestV3_compressed_witness:
  "\<exists>body. writeProduceRequestV3 [] (Some \<lparr>codec_Code = 1, codec_Encode = \<lambda>bs. Ok (Some (9 # bs)),
      codec_Decode = \<lambda>bs. Ok (Some (tl bs))\<rparr>) 7 [99] [116] 0 0 (- 1) [exampleMessage] =
      Some (Ok (PutUint32 (of_nat (length body)) @ body))"
  using writeProduceRequestV3_compressed [OF example_recordsOk(1),
      of "\<lparr>codec_Code = 1, codec_Encode = \<lambda>bs. Ok (Some (9 # bs)), codec_Decode = \<lambda>bs. Ok (Some (tl bs))\<rparr>"
        "Some (9 # recordsBytes [exampleMessage])" "[]" 7 "[99]" "[116]" 0 0 "- 1"]
    example_recordsOk(2) by auto

end
