(* ===== verification/GroupAssign.thy ===== *)
theory GroupAssign
  imports Prelude "HOL-Library.Multiset"
begin

section \<open>Assigning partitions to the members of a group (groupbalancer.go)\<close>

text \<open>
  The two balancers. Go maps are HOL maps. The iteration over \<open>membersByTopic\<close> has no fixed order: the
  order is an argument, a list of the topics of the map, and that the result does not depend on it
  follows from the laws of the interface. \<open>sort.Slice\<close> is not stable, but only the identifiers of the
  sorted members are used, and these are the keys of the sort.

  What a balancer promises is the locale \<open>group_balancer\<close>; both balancers are interpretations of it.
\<close>

subsection \<open>The code\<close>

record Broker =
  br_Host :: gostring
  br_Port :: int
  br_ID :: int
  br_Rack :: gostring

record Partition =
  pt_Topic :: gostring
  pt_Leader :: Broker
  pt_Replicas :: "Broker list"
  pt_Isr :: "Broker list"
  pt_ID :: int

record GroupMember =
  gm_ID :: gostring
  gm_MemberTopics :: "gostring list"
  gm_MemberUserData :: bytes

type_synonym GroupMemberAssignments = "gostring \<rightharpoonup> gostring \<rightharpoonup> int list"

definition findPartitions :: "gostring \<Rightarrow> Partition list \<Rightarrow> int list" where
  "findPartitions topic partitions =
     fold (\<lambda>p ids. if pt_Topic p = topic then ids @ [pt_ID p] else ids) partitions []"

definition appendTo :: "('k \<rightharpoonup> 'v list) \<Rightarrow> 'k \<Rightarrow> 'v \<Rightarrow> ('k \<rightharpoonup> 'v list)" where
  "appendTo m k v = m(k \<mapsto> (case m k of None \<Rightarrow> [] | Some vs \<Rightarrow> vs) @ [v])"

definition groupByTopic :: "GroupMember list \<Rightarrow> (gostring \<rightharpoonup> GroupMember list)" where
  "groupByTopic members =
     fold (\<lambda>member m. fold (\<lambda>topic m. appendTo m topic member) (gm_MemberTopics member) m) members Map.empty"

definition findMembersByTopic :: "GroupMember list \<Rightarrow> (gostring \<rightharpoonup> GroupMember list)" where
  "findMembersByTopic members = map_option (sort_key gm_ID) \<circ> groupByTopic members"

text \<open>
  The loop over the members of a topic, which is the same in both balancers up to the test whether the
  partition with an index goes to the member with an index.
\<close>

definition assignPartitions ::
  "(nat \<Rightarrow> bool) \<Rightarrow> gostring \<Rightarrow> int list \<Rightarrow> (gostring \<rightharpoonup> int list) \<Rightarrow> (gostring \<rightharpoonup> int list)" where
  "assignPartitions takes topic partitions assignmentsByTopic =
     fold (\<lambda>(partitionIndex, part) m. if takes partitionIndex then appendTo m topic part else m)
       (enumerate 0 partitions) assignmentsByTopic"

definition assignMembers ::
  "(nat \<Rightarrow> nat \<Rightarrow> bool) \<Rightarrow> gostring \<Rightarrow> int list \<Rightarrow> GroupMember list \<Rightarrow> GroupMemberAssignments \<Rightarrow> GroupMemberAssignments" where
  "assignMembers takes topic partitions members groupAssignments =
     fold (\<lambda>(memberIndex, member) ga.
         let assignmentsByTopic = (case ga (gm_ID member) of None \<Rightarrow> Map.empty | Some m \<Rightarrow> m)
         in ga(gm_ID member \<mapsto> assignPartitions (takes memberIndex) topic partitions assignmentsByTopic))
       (enumerate 0 members) groupAssignments"

definition RangeGroupBalancer_AssignGroups ::
  "gostring list \<Rightarrow> GroupMember list \<Rightarrow> Partition list \<Rightarrow> GroupMemberAssignments" where
  "RangeGroupBalancer_AssignGroups order members topicPartitions =
     (let membersByTopic = findMembersByTopic members in
      fold (\<lambda>topic ga.
          let members = the (membersByTopic topic);
              partitions = findPartitions topic topicPartitions;
              partitionCount = length partitions;
              memberCount = length members
          in assignMembers (\<lambda>memberIndex partitionIndex.
                 memberIndex * partitionCount div memberCount \<le> partitionIndex \<and>
                 partitionIndex < (memberIndex + 1) * partitionCount div memberCount)
               topic partitions members ga)
        order Map.empty)"

definition RoundRobinGroupBalancer_AssignGroups ::
  "gostring list \<Rightarrow> GroupMember list \<Rightarrow> Partition list \<Rightarrow> GroupMemberAssignments" where
  "RoundRobinGroupBalancer_AssignGroups order members topicPartitions =
     (let membersByTopic = findMembersByTopic members in
      fold (\<lambda>topic ga.
          let members = the (membersByTopic topic);
              partitionIDs = findPartitions topic topicPartitions;
              memberCount = length members
          in assignMembers (\<lambda>memberIndex partitionIndex. partitionIndex mod memberCount = memberIndex)
               topic partitionIDs members ga)
        order Map.empty)"

definition RangeGroupBalancer_ProtocolName :: gostring where
  "RangeGroupBalancer_ProtocolName = lit ''range''"

definition RoundRobinGroupBalancer_ProtocolName :: gostring where
  "RoundRobinGroupBalancer_ProtocolName = lit ''roundrobin''"

text \<open>A balancer of the configuration: its name, its user data and its assignment.\<close>

record GroupBalancer =
  gb_ProtocolName :: gostring
  gb_UserData :: bytes
  gb_AssignGroups :: "gostring list \<Rightarrow> GroupMember list \<Rightarrow> Partition list \<Rightarrow> GroupMemberAssignments"

fun findGroupBalancer :: "gostring \<Rightarrow> GroupBalancer list \<Rightarrow> GroupBalancer option" where
  "findGroupBalancer protocolName [] = None"
| "findGroupBalancer protocolName (b # bs) =
     (if gb_ProtocolName b = protocolName then Some b else findGroupBalancer protocolName bs)"

subsection \<open>What is assigned\<close>

text \<open>The partitions of a topic that a member is given, and the members of a topic in the order of the loop.\<close>

definition assigned :: "GroupMemberAssignments \<Rightarrow> gostring \<Rightarrow> gostring \<Rightarrow> int list" where
  "assigned ga member topic =
     (case ga member of None \<Rightarrow> [] | Some m \<Rightarrow> (case m topic of None \<Rightarrow> [] | Some ps \<Rightarrow> ps))"

definition subscribers :: "GroupMember list \<Rightarrow> gostring \<Rightarrow> gostring list" where
  "subscribers members topic =
     (case findMembersByTopic members topic of None \<Rightarrow> [] | Some ms \<Rightarrow> map gm_ID ms)"

text \<open>An order in which \<open>range\<close> may visit the topics: each topic some member subscribes to, once.\<close>

definition iterationOrder :: "GroupMember list \<Rightarrow> gostring list \<Rightarrow> bool" where
  "iterationOrder members order \<longleftrightarrow> distinct order \<and> set order = dom (findMembersByTopic members)"

text \<open>Members with different identifiers that list a topic at most once.\<close>

definition wfMembers :: "GroupMember list \<Rightarrow> bool" where
  "wfMembers members \<longleftrightarrow> distinct (map gm_ID members) \<and> list_all (\<lambda>m. distinct (gm_MemberTopics m)) members"

lemma distinct_concat_unique:
  "distinct (concat (map f xs)) \<Longrightarrow> x \<in> set xs \<Longrightarrow> y \<in> set xs \<Longrightarrow> p \<in> set (f x) \<Longrightarrow> p \<in> set (f y) \<Longrightarrow> x = y"
  by (induction xs) auto

text \<open>
  The contract of a balancer: a member is only given partitions of topics it subscribes to, the
  partitions of a topic are divided among its subscribers, and evenly so; no other topics are mentioned.
\<close>

locale group_balancer =
  fixes AssignGroups :: "gostring list \<Rightarrow> GroupMember list \<Rightarrow> Partition list \<Rightarrow> GroupMemberAssignments"
  assumes only_subscribers:
    "iterationOrder members order \<Longrightarrow> wfMembers members \<Longrightarrow> mid \<notin> set (subscribers members topic) \<Longrightarrow>
       assigned (AssignGroups order members ps) mid topic = []"
    and divides:
    "iterationOrder members order \<Longrightarrow> wfMembers members \<Longrightarrow> subscribers members topic \<noteq> [] \<Longrightarrow>
       mset (concat (map (\<lambda>mid. assigned (AssignGroups order members ps) mid topic) (subscribers members topic))) =
       mset (findPartitions topic ps)"
    and balanced:
    "iterationOrder members order \<Longrightarrow> wfMembers members \<Longrightarrow>
       a \<in> set (subscribers members topic) \<Longrightarrow> b \<in> set (subscribers members topic) \<Longrightarrow>
       length (assigned (AssignGroups order members ps) a topic) \<le>
         length (assigned (AssignGroups order members ps) b topic) + 1"
    and known_topics:
    "AssignGroups order members ps mid = Some m \<Longrightarrow> dom m \<subseteq> set order"
begin

text \<open>When the partitions of a topic are distinct, each of them is consumed by exactly one member.\<close>

lemma exactly_one_consumer:
  assumes wf: "iterationOrder members order" "wfMembers members" and sub: "subscribers members topic \<noteq> []"
    and dist: "distinct (findPartitions topic ps)"
    and p: "p \<in> set (findPartitions topic ps)"
  shows "\<exists>!mid. p \<in> set (assigned (AssignGroups order members ps) mid topic)"
proof -
  let ?a = "\<lambda>mid. assigned (AssignGroups order members ps) mid topic"
  have m: "mset (concat (map ?a (subscribers members topic))) = mset (findPartitions topic ps)"
    by (rule divides [OF wf sub])
  then have d: "distinct (concat (map ?a (subscribers members topic)))"
    using mset_eq_imp_distinct_iff dist by blast
  have only: "p \<in> set (?a mid) \<Longrightarrow> mid \<in> set (subscribers members topic)" for mid
    using only_subscribers [OF wf, of mid topic ps] by (cases "mid \<in> set (subscribers members topic)") simp_all
  have "p \<in> set (concat (map ?a (subscribers members topic)))"
    using mset_eq_setD [OF m] p by simp
  then obtain mid where "p \<in> set (?a mid)" by auto
  moreover have "mid' = mid" if "p \<in> set (?a mid')" for mid'
    using distinct_concat_unique [OF d] only that calculation by blast
  ultimately show ?thesis by blast
qed

lemma exclusive_and_balanced:
  assumes "iterationOrder members order" "wfMembers members" "subscribers members topic \<noteq> []"
    and "distinct (findPartitions topic ps)" "p \<in> set (findPartitions topic ps)"
  shows "(\<exists>!mid. p \<in> set (assigned (AssignGroups order members ps) mid topic)) \<and>
    (\<forall>mid. p \<in> set (assigned (AssignGroups order members ps) mid topic) \<longrightarrow> mid \<in> set (subscribers members topic)) \<and>
    (\<forall>a b. a \<in> set (subscribers members topic) \<longrightarrow> b \<in> set (subscribers members topic) \<longrightarrow>
      length (assigned (AssignGroups order members ps) a topic) \<le> length (assigned (AssignGroups order members ps) b topic) + 1)"
  using exactly_one_consumer [OF assms] only_subscribers [OF assms(1,2)] balanced [OF assms(1,2)]
  by (intro conjI allI impI) (fastforce+)

end

subsection \<open>The loops\<close>

definition picks :: "(nat \<Rightarrow> bool) \<Rightarrow> int list \<Rightarrow> int list" where
  "picks takes ps = map snd (filter (\<lambda>(i, p). takes i) (enumerate 0 ps))"

definition entries :: "('k \<rightharpoonup> 'v list) \<Rightarrow> 'k \<Rightarrow> 'v list" where
  "entries m k = (case m k of None \<Rightarrow> [] | Some vs \<Rightarrow> vs)"

lemma entries_simps [simp]:
  "entries Map.empty k = []"
  "entries (appendTo m k v) k' = (if k' = k then entries m k @ [v] else entries m k')"
  by (simp_all add: entries_def appendTo_def)

lemma entries_assignPartitions:
  "entries (assignPartitions takes topic ps m) t =
     (if t = topic then entries m topic @ picks takes ps else entries m t)"
proof -
  have "entries (fold (\<lambda>(i, p) m. if takes i then appendTo m topic p else m) xs m) t =
      (if t = topic then entries m topic @ map snd (filter (\<lambda>(i, p). takes i) xs) else entries m t)" for xs
    by (induction xs arbitrary: m) auto
  then show ?thesis by (simp add: assignPartitions_def picks_def)
qed

lemma assigned_empty [simp]: "assigned Map.empty mid topic = []"
  by (simp add: assigned_def)

lemma assigned_update:
  "assigned (ga(k \<mapsto> assignPartitions takes topic ps (case ga k of None \<Rightarrow> Map.empty | Some m \<Rightarrow> m))) mid t =
     assigned ga mid t @ (if mid = k \<and> t = topic then picks takes ps else [])"
  using entries_assignPartitions [of takes topic ps "case ga k of None \<Rightarrow> Map.empty | Some m \<Rightarrow> m" t]
  by (auto simp: assigned_def entries_def split: option.splits if_splits)

lemma assigned_fold_members:
  "assigned (fold (\<lambda>(j, m) ga. ga(gm_ID m \<mapsto> assignPartitions (takes j) topic ps
      (case ga (gm_ID m) of None \<Rightarrow> Map.empty | Some m \<Rightarrow> m))) xs ga) mid t =
   assigned ga mid t @
     (if t = topic then concat (map (\<lambda>(j, m). if gm_ID m = mid then picks (takes j) ps else []) xs) else [])"
  by (induction xs arbitrary: ga) (auto simp: assigned_update)

lemma assigned_assignMembers:
  "assigned (assignMembers takes topic ps ms ga) mid t =
     assigned ga mid t @
     (if t = topic then concat (map (\<lambda>(j, m). if gm_ID m = mid then picks (takes j) ps else []) (enumerate 0 ms)) else [])"
  unfolding assignMembers_def Let_def by (rule assigned_fold_members)

lemma concat_if_none:
  "k \<notin> gm_ID ` set ms \<Longrightarrow> concat (map (\<lambda>(i, m). if gm_ID m = k then f i else []) (enumerate n ms)) = []"
  by (induction ms arbitrary: n) auto

lemma concat_if_unique:
  assumes "distinct (map gm_ID ms)" "j < length ms"
  shows "concat (map (\<lambda>(i, m). if gm_ID m = gm_ID (ms ! j) then f i else []) (enumerate n ms)) = f (n + j)"
  using assms
proof (induction ms arbitrary: n j)
  case (Cons m ms)
  show ?case
  proof (cases j)
    case 0
    then show ?thesis using Cons.prems(1) by (simp add: concat_if_none)
  next
    case (Suc i)
    moreover have "gm_ID m \<noteq> gm_ID (ms ! i)" using Cons.prems Suc by auto
    ultimately show ?thesis using Cons.IH [of i "Suc n"] Cons.prems by simp
  qed
qed simp

subsection \<open>The members of a topic\<close>

lemma entries_fold_appendTo:
  "distinct ts \<Longrightarrow> entries (fold (\<lambda>topic m. appendTo m topic x) ts m) t = entries m t @ (if t \<in> set ts then [x] else [])"
  by (induction ts arbitrary: m) auto

lemma entries_groupByTopic:
  assumes "list_all (\<lambda>m. distinct (gm_MemberTopics m)) members"
  shows "entries (groupByTopic members) t = filter (\<lambda>m. t \<in> set (gm_MemberTopics m)) members"
proof -
  have "list_all (\<lambda>m. distinct (gm_MemberTopics m)) ms \<Longrightarrow>
      entries (fold (\<lambda>member m. fold (\<lambda>topic m. appendTo m topic member) (gm_MemberTopics member) m) ms acc) t =
      entries acc t @ filter (\<lambda>m. t \<in> set (gm_MemberTopics m)) ms" for ms :: "GroupMember list" and acc
    by (induction ms arbitrary: acc) (auto simp: entries_fold_appendTo)
  then show ?thesis using assms by (simp add: groupByTopic_def)
qed

lemma subscribers_eq: "subscribers members t = map gm_ID (sort_key gm_ID (entries (groupByTopic members) t))"
  by (simp add: subscribers_def findMembersByTopic_def entries_def split: option.split)

lemma distinct_subscribers: "wfMembers members \<Longrightarrow> distinct (subscribers members t)"
proof -
  assume wf: "wfMembers members"
  then have "distinct (map gm_ID (filter (\<lambda>m. t \<in> set (gm_MemberTopics m)) members))"
    by (simp add: wfMembers_def distinct_map_filter)
  then have "distinct (map gm_ID (sort_key gm_ID (filter (\<lambda>m. t \<in> set (gm_MemberTopics m)) members)))"
    by (simp add: distinct_map)
  then show ?thesis
    using wf by (simp add: subscribers_eq entries_groupByTopic wfMembers_def)
qed

lemma set_subscribers:
  "wfMembers members \<Longrightarrow> set (subscribers members t) = {gm_ID m | m. m \<in> set members \<and> t \<in> set (gm_MemberTopics m)}"
  by (auto simp: subscribers_eq entries_groupByTopic wfMembers_def)

subsection \<open>What every member of a topic gets\<close>

lemma assigned_topics:
  "distinct order \<Longrightarrow>
   assigned (fold (\<lambda>t ga. assignMembers (takes t) t (P t) (M t) ga) order ga) mid t =
     assigned ga mid t @
     (if t \<in> set order then concat (map (\<lambda>(j, m). if gm_ID m = mid then picks (takes t j) (P t) else []) (enumerate 0 (M t)))
      else [])"
  by (induction order arbitrary: ga) (auto simp: assigned_assignMembers)

text \<open>
  Both balancers are this fold, with their own test. The \<open>j\<close>th subscriber of a topic gets the
  partitions that the test selects for \<open>j\<close>, and the other members get none.
\<close>

definition assignGroups ::
  "(nat \<Rightarrow> nat \<Rightarrow> nat \<Rightarrow> nat \<Rightarrow> bool) \<Rightarrow> gostring list \<Rightarrow> GroupMember list \<Rightarrow> Partition list \<Rightarrow> GroupMemberAssignments" where
  "assignGroups takes order members ps =
     fold (\<lambda>t ga. assignMembers
         (takes (length (findPartitions t ps)) (length (the (findMembersByTopic members t))))
         t (findPartitions t ps) (the (findMembersByTopic members t)) ga) order Map.empty"

lemma assigned_subscriber:
  assumes wf: "iterationOrder members order" "wfMembers members" and j: "j < length (subscribers members t)"
  shows "assigned (assignGroups takes order members ps) (subscribers members t ! j) t =
    picks (takes (length (findPartitions t ps)) (length (subscribers members t)) j) (findPartitions t ps)"
proof -
  obtain ms where ms: "findMembersByTopic members t = Some ms" and sub: "subscribers members t = map gm_ID ms"
    using j by (auto simp: subscribers_def split: option.splits)
  have "t \<in> set order" using wf(1) ms by (auto simp: iterationOrder_def)
  then show ?thesis
    using wf j distinct_subscribers [OF wf(2), of t] concat_if_unique [of ms j _ 0]
    by (simp add: assignGroups_def assigned_topics iterationOrder_def ms sub cong: if_cong)
qed

lemma assigned_other:
  assumes "iterationOrder members order" "mid \<notin> set (subscribers members t)"
  shows "assigned (assignGroups takes order members ps) mid t = []"
proof (cases "findMembersByTopic members t")
  case None
  then have "t \<notin> set order" using assms by (auto simp: iterationOrder_def)
  then show ?thesis using assms(1) by (simp add: assignGroups_def assigned_topics iterationOrder_def)
next
  case (Some ms)
  then show ?thesis
    using assms by (simp add: assignGroups_def assigned_topics iterationOrder_def subscribers_def concat_if_none
        del: concat_eq_Nil_conv)
qed

text \<open>The topics that the assignment of any member mentions.\<close>

definition mentions :: "gostring set \<Rightarrow> GroupMemberAssignments \<Rightarrow> bool" where
  "mentions T ga \<longleftrightarrow> (\<forall>m\<in>ran ga. dom m \<subseteq> T)"

lemma dom_assignPartitions: "dom (assignPartitions takes topic ps m) \<subseteq> insert topic (dom m)"
  unfolding assignPartitions_def
  by (rule fold_invariant [where Q = "\<lambda>_. True" and P = "\<lambda>m'. dom m' \<subseteq> insert topic (dom m)"])
    (simp_all add: appendTo_def subset_insertI split: prod.split)

lemma mentions_assignMembers: "mentions T ga \<Longrightarrow> topic \<in> T \<Longrightarrow> mentions T (assignMembers takes topic ps ms ga)"
proof -
  have step: "mentions T (ga(k \<mapsto> assignPartitions f topic ps (case ga k of None \<Rightarrow> Map.empty | Some m \<Rightarrow> m)))"
    if "mentions T ga" "topic \<in> T" for ga k f
    using that dom_assignPartitions [of f topic ps "case ga k of None \<Rightarrow> Map.empty | Some m \<Rightarrow> m"]
    by (auto simp: mentions_def ran_def split: option.splits) blast+
  have "mentions T ga \<Longrightarrow> topic \<in> T \<Longrightarrow> mentions T (fold (\<lambda>(j, m) ga. ga(gm_ID m \<mapsto> assignPartitions (takes j) topic ps
      (case ga (gm_ID m) of None \<Rightarrow> Map.empty | Some m \<Rightarrow> m))) xs ga)" for xs
    by (induction xs arbitrary: ga) (auto intro: step)
  then show "mentions T ga \<Longrightarrow> topic \<in> T \<Longrightarrow> mentions T (assignMembers takes topic ps ms ga)"
    by (simp add: assignMembers_def Let_def)
qed

lemma mentions_assignGroups: "mentions (set order) (assignGroups takes order members ps)"
proof -
  have loop: "mentions T ga \<Longrightarrow> set ts \<subseteq> T \<Longrightarrow>
      mentions T (fold (\<lambda>t ga. assignMembers (f t) t (P t) (M t) ga) ts ga)" for T ts f P M ga
    by (induction ts arbitrary: ga) (auto intro: mentions_assignMembers)
  show ?thesis unfolding assignGroups_def by (rule loop) (simp_all add: mentions_def)
qed

text \<open>The contract follows from two facts on the test: it divides the indices, and evenly.\<close>

lemma group_balancerI:
  assumes dividing: "\<And>n (ps :: int list). 0 < n \<Longrightarrow>
      mset (concat (map (\<lambda>j. picks (takes (length ps) n j) ps) [0..<n])) = mset ps"
    and equal: "\<And>n (ps :: int list) i j. i < n \<Longrightarrow> j < n \<Longrightarrow>
      length (picks (takes (length ps) n i) ps) \<le> length (picks (takes (length ps) n j) ps) + 1"
  shows "group_balancer (assignGroups takes)"
proof
  fix members order mid topic ps
  assume "iterationOrder members order" "wfMembers members" "mid \<notin> set (subscribers members topic)"
  then show "assigned (assignGroups takes order members ps) mid topic = []"
    by (intro assigned_other)
next
  fix members order topic ps
  assume wf: "iterationOrder members order" "wfMembers members" and ne: "subscribers members topic \<noteq> []"
  let ?s = "subscribers members topic" and ?p = "findPartitions topic ps"
  have "map (\<lambda>mid. assigned (assignGroups takes order members ps) mid topic) ?s =
      map (\<lambda>j. assigned (assignGroups takes order members ps) (?s ! j) topic) [0..<length ?s]"
    by (rule nth_equalityI) simp_all
  also have "\<dots> = map (\<lambda>j. picks (takes (length ?p) (length ?s) j) ?p) [0..<length ?s]"
    by (intro map_cong refl assigned_subscriber [OF wf]) simp
  finally show "mset (concat (map (\<lambda>mid. assigned (assignGroups takes order members ps) mid topic) ?s)) = mset ?p"
    using ne dividing [of "length ?s" ?p] by simp
next
  fix members order a b topic ps
  assume wf: "iterationOrder members order" "wfMembers members"
    and ab: "a \<in> set (subscribers members topic)" "b \<in> set (subscribers members topic)"
  then obtain i j where "i < length (subscribers members topic)" "subscribers members topic ! i = a"
    "j < length (subscribers members topic)" "subscribers members topic ! j = b"
    by (auto simp: in_set_conv_nth)
  then show "length (assigned (assignGroups takes order members ps) a topic) \<le>
      length (assigned (assignGroups takes order members ps) b topic) + 1"
    using assigned_subscriber [OF wf, of i topic takes ps] assigned_subscriber [OF wf, of j topic takes ps]
      equal [of i "length (subscribers members topic)" j "findPartitions topic ps"] by simp
next
  fix order members ps mid m
  assume "assignGroups takes order members ps mid = Some m"
  then show "dom m \<subseteq> set order"
    using mentions_assignGroups [of order takes members ps] by (auto simp: mentions_def ran_def)
qed

subsection \<open>Ranges\<close>

lemma picks_snoc: "picks takes (ps @ [p]) = picks takes ps @ (if takes (length ps) then [p] else [])"
  by (simp add: picks_def enumerate_append_eq)

lemma picks_range: "picks (\<lambda>i. lo \<le> i \<and> i < hi) ps = take (hi - lo) (drop lo ps)"
proof (induction ps rule: rev_induct)
  case (snoc p ps)
  then show ?case
    by (auto simp: picks_snoc)
qed (simp add: picks_def)

definition rangeTakes :: "nat \<Rightarrow> nat \<Rightarrow> nat \<Rightarrow> nat \<Rightarrow> bool" where
  "rangeTakes partitionCount memberCount memberIndex partitionIndex \<longleftrightarrow>
     memberIndex * partitionCount div memberCount \<le> partitionIndex \<and>
     partitionIndex < (memberIndex + 1) * partitionCount div memberCount"

lemma picks_rangeTakes:
  "picks (rangeTakes k n j) ps = take ((j + 1) * k div n - j * k div n) (drop (j * k div n) ps)"
  unfolding rangeTakes_def by (rule picks_range)

lemma div_mono_Suc: "j * k div n \<le> (j + 1) * k div n" for j k n :: nat
  by (simp add: div_le_mono)

lemma concat_ranges: "concat (map (\<lambda>j. picks (rangeTakes k n j) ps) [0..<m]) = take (m * k div n) ps"
proof (induction m)
  case (Suc m)
  have "take (m * k div n) ps @ take ((m + 1) * k div n - m * k div n) (drop (m * k div n) ps) =
      take (m * k div n + ((m + 1) * k div n - m * k div n)) ps"
    by (rule take_add [symmetric])
  also have "m * k div n + ((m + 1) * k div n - m * k div n) = Suc m * k div n"
    using div_mono_Suc [of m k n] by simp
  finally show ?case using Suc by (simp add: picks_rangeTakes)
qed simp

lemma range_width:
  fixes k n j :: nat
  assumes "0 < n"
  shows "k div n \<le> (j + 1) * k div n - j * k div n" "(j + 1) * k div n - j * k div n \<le> k div n + 1"
proof -
  let ?q = "k div n" and ?r = "k mod n"
  have r: "?r < n" using assms by simp
  have e: "x * k div n = x * ?q + x * ?r div n" for x
  proof -
    have "x * (n * ?q + ?r) = x * ?r + n * (x * ?q)"
      by (simp only: distrib_left mult.left_commute add.commute)
    then have "x * k = x * ?r + n * (x * ?q)" by simp
    then show ?thesis using assms by simp
  qed
  have a: "j * ?r div n \<le> (j + 1) * ?r div n" by (rule div_mono_Suc)
  have "(j + 1) * ?r div n \<le> (j * ?r + n) div n" using r by (intro div_le_mono) simp
  then have b: "(j + 1) * ?r div n \<le> j * ?r div n + 1" using assms by (simp only: div_add_self2 neq0_conv)
  show "?q \<le> (j + 1) * k div n - j * k div n" "(j + 1) * k div n - j * k div n \<le> ?q + 1"
    unfolding e using a b by simp_all
qed

lemma length_picks_range:
  assumes "j < n"
  shows "length (picks (rangeTakes (length ps) n j) ps) = (j + 1) * length ps div n - j * length ps div n"
proof -
  have "(j + 1) * length ps div n \<le> n * length ps div n"
    using assms by (intro div_le_mono mult_le_mono1) simp
  then show ?thesis using assms by (simp add: picks_rangeTakes)
qed

lemma RangeGroupBalancer_assignGroups: "RangeGroupBalancer_AssignGroups = assignGroups rangeTakes"
  by (intro ext) (simp add: RangeGroupBalancer_AssignGroups_def assignGroups_def rangeTakes_def [abs_def] Let_def)

interpretation range_balancer: group_balancer RangeGroupBalancer_AssignGroups
  unfolding RangeGroupBalancer_assignGroups
proof (rule group_balancerI)
  show "mset (concat (map (\<lambda>j. picks (rangeTakes (length ps) n j) ps) [0..<n])) = mset ps"
    if "0 < n" for n and ps :: "int list"
    using that by (simp add: concat_ranges)
  show "length (picks (rangeTakes (length ps) n i) ps) \<le> length (picks (rangeTakes (length ps) n j) ps) + 1"
    if "i < n" "j < n" for n i j and ps :: "int list"
    using that range_width(2) [of n i "length ps"] range_width(1) [of n "length ps" j] by (simp add: length_picks_range)
qed

subsection \<open>Round robin\<close>

definition roundRobinTakes :: "nat \<Rightarrow> nat \<Rightarrow> nat \<Rightarrow> nat \<Rightarrow> bool" where
  "roundRobinTakes partitionCount memberCount memberIndex partitionIndex \<longleftrightarrow>
     partitionIndex mod memberCount = memberIndex"

lemma length_picks_mod:
  "j < n \<Longrightarrow> length (picks (\<lambda>i. i mod n = j) ps) = length ps div n + (if j < length ps mod n then 1 else 0)"
proof (induction ps rule: rev_induct)
  case (snoc p ps)
  then show ?case by (auto simp: picks_snoc mod_Suc div_Suc)
qed (simp add: picks_def)

lemma mset_concat_upt: "mset (concat (map f [0..<n])) = (\<Sum>j<n. mset (f j))"
  by (induction n) (simp_all add: lessThan_Suc add.commute)

lemma mset_picks_mod:
  assumes "0 < n"
  shows "mset (concat (map (\<lambda>j. picks (\<lambda>i. i mod n = j) ps) [0..<n])) = mset ps"
proof (induction ps rule: rev_induct)
  case (snoc p ps)
  have "(\<Sum>j<n. mset (if length ps mod n = j then [p] else [])) = (\<Sum>j<n. if length ps mod n = j then {#p#} else {#})"
    by (intro sum.cong) auto
  also have "\<dots> = {#p#}" using assms by (simp add: sum.delta)
  finally show ?case using snoc by (simp add: mset_concat_upt picks_snoc sum.distrib)
qed (simp add: picks_def mset_concat_upt)

lemma RoundRobinGroupBalancer_assignGroups: "RoundRobinGroupBalancer_AssignGroups = assignGroups roundRobinTakes"
  by (intro ext)
    (simp add: RoundRobinGroupBalancer_AssignGroups_def assignGroups_def roundRobinTakes_def [abs_def] Let_def)

interpretation round_robin_balancer: group_balancer RoundRobinGroupBalancer_AssignGroups
  unfolding RoundRobinGroupBalancer_assignGroups
  by (rule group_balancerI) (simp_all add: roundRobinTakes_def [abs_def] mset_picks_mod length_picks_mod)

text \<open>The assignment does not depend on the order in which the topics are visited.\<close>

lemma assigned_order:
  assumes "iterationOrder members order" "iterationOrder members order'" "wfMembers members"
  shows "assigned (assignGroups takes order members ps) mid t = assigned (assignGroups takes order' members ps) mid t"
proof (cases "mid \<in> set (subscribers members t)")
  case True
  then obtain j where "j < length (subscribers members t)" "subscribers members t ! j = mid"
    by (auto simp: in_set_conv_nth)
  then show ?thesis
    using assigned_subscriber [OF assms(1,3)] assigned_subscriber [OF assms(2,3)] by metis
qed (simp add: assigned_other assms)

subsection \<open>Properties\<close>

text \<open>The members and partitions of the example of the source: two consumers, five partitions.\<close>

definition exampleMembers :: "GroupMember list" where
  "exampleMembers =
     [\<lparr>gm_ID = [99, 49], gm_MemberTopics = [[116]], gm_MemberUserData = None\<rparr>,
      \<lparr>gm_ID = [99, 48], gm_MemberTopics = [[116]], gm_MemberUserData = None\<rparr>]"

definition examplePartitions :: "Partition list" where
  "examplePartitions =
     map (\<lambda>i. \<lparr>pt_Topic = [116], pt_Leader = \<lparr>br_Host = [], br_Port = 0, br_ID = 0, br_Rack = []\<rparr>,
                pt_Replicas = [], pt_Isr = [], pt_ID = i\<rparr>) [0, 1, 2, 3, 4]"

lemma example_wf:
  "wfMembers exampleMembers" "findPartitions [116] examplePartitions = [0, 1, 2, 3, 4]"
  "subscribers exampleMembers [116] = [[99, 48], [99, 49]]" "iterationOrder exampleMembers [[116]]"
proof -
  show "wfMembers exampleMembers" by (simp add: wfMembers_def exampleMembers_def)
  show "findPartitions [116] examplePartitions = [0, 1, 2, 3, 4]"
    by (simp add: findPartitions_def examplePartitions_def)
  have g: "groupByTopic exampleMembers = [[116] \<mapsto> exampleMembers]"
    by (simp add: groupByTopic_def exampleMembers_def appendTo_def)
  then show "subscribers exampleMembers [116] = [[99, 48], [99, 49]]"
    by (simp add: subscribers_def findMembersByTopic_def exampleMembers_def)
  show "iterationOrder exampleMembers [[116]]"
    by (simp add: iterationOrder_def findMembersByTopic_def g dom_def)
qed

text \<open>C3. With the range balancer, a partition of a topic that some member subscribes to is assigned to
  exactly one member, which subscribes to the topic, and no subscriber of a topic gets over one partition more than
  another.\<close>

theorem RangeGroupBalancer_correct:
  assumes "iterationOrder members order" "wfMembers members" "subscribers members topic \<noteq> []"
    and "distinct (findPartitions topic ps)" "p \<in> set (findPartitions topic ps)"
  shows "(\<exists>!mid. p \<in> set (assigned (RangeGroupBalancer_AssignGroups order members ps) mid topic)) \<and>
    (\<forall>mid. p \<in> set (assigned (RangeGroupBalancer_AssignGroups order members ps) mid topic) \<longrightarrow>
      mid \<in> set (subscribers members topic)) \<and>
    (\<forall>a b. a \<in> set (subscribers members topic) \<longrightarrow> b \<in> set (subscribers members topic) \<longrightarrow>
      length (assigned (RangeGroupBalancer_AssignGroups order members ps) a topic) \<le>
      length (assigned (RangeGroupBalancer_AssignGroups order members ps) b topic) + 1)"
  using assms by (rule range_balancer.exclusive_and_balanced)

theorem RangeGroupBalancer_correct_witness:
  "(\<exists>!mid. 3 \<in> set (assigned (RangeGroupBalancer_AssignGroups [[116]] exampleMembers examplePartitions) mid [116])) \<and>
   assigned (RangeGroupBalancer_AssignGroups [[116]] exampleMembers examplePartitions) [99, 48] [116] = [0, 1] \<and>
   assigned (RangeGroupBalancer_AssignGroups [[116]] exampleMembers examplePartitions) [99, 49] [116] = [2, 3, 4]"
proof -
  note wf = example_wf
  have "assigned (RangeGroupBalancer_AssignGroups [[116]] exampleMembers examplePartitions)
      (subscribers exampleMembers [116] ! j) [116] = picks (rangeTakes 5 2 j) [0, 1, 2, 3, 4]" if "j < 2" for j
    using assigned_subscriber [OF wf(4,1), of j "[116]" rangeTakes examplePartitions] that
    by (simp add: RangeGroupBalancer_assignGroups wf eval_nat_numeral)
  from this [of 0] this [of 1] show ?thesis
    using RangeGroupBalancer_correct [OF wf(4,1), of "[116]" examplePartitions 3]
    by (simp add: wf picks_rangeTakes)
qed

text \<open>The same for the round robin balancer.\<close>

theorem RoundRobinGroupBalancer_correct:
  assumes "iterationOrder members order" "wfMembers members" "subscribers members topic \<noteq> []"
    and "distinct (findPartitions topic ps)" "p \<in> set (findPartitions topic ps)"
  shows "(\<exists>!mid. p \<in> set (assigned (RoundRobinGroupBalancer_AssignGroups order members ps) mid topic)) \<and>
    (\<forall>mid. p \<in> set (assigned (RoundRobinGroupBalancer_AssignGroups order members ps) mid topic) \<longrightarrow>
      mid \<in> set (subscribers members topic)) \<and>
    (\<forall>a b. a \<in> set (subscribers members topic) \<longrightarrow> b \<in> set (subscribers members topic) \<longrightarrow>
      length (assigned (RoundRobinGroupBalancer_AssignGroups order members ps) a topic) \<le>
      length (assigned (RoundRobinGroupBalancer_AssignGroups order members ps) b topic) + 1)"
  using assms by (rule round_robin_balancer.exclusive_and_balanced)

theorem RoundRobinGroupBalancer_correct_witness:
  "(\<exists>!mid. 3 \<in> set (assigned (RoundRobinGroupBalancer_AssignGroups [[116]] exampleMembers examplePartitions) mid [116])) \<and>
   assigned (RoundRobinGroupBalancer_AssignGroups [[116]] exampleMembers examplePartitions) [99, 48] [116] = [0, 2, 4] \<and>
   assigned (RoundRobinGroupBalancer_AssignGroups [[116]] exampleMembers examplePartitions) [99, 49] [116] = [1, 3]"
proof -
  note wf = example_wf
  have "assigned (RoundRobinGroupBalancer_AssignGroups [[116]] exampleMembers examplePartitions)
      (subscribers exampleMembers [116] ! j) [116] = picks (roundRobinTakes 5 2 j) [0, 1, 2, 3, 4]" if "j < 2" for j
    using assigned_subscriber [OF wf(4,1), of j "[116]" roundRobinTakes examplePartitions] that
    by (simp add: RoundRobinGroupBalancer_assignGroups wf eval_nat_numeral)
  from this [of 0] this [of 1] show ?thesis
    using RoundRobinGroupBalancer_correct [OF wf(4,1), of "[116]" examplePartitions 3]
    by (simp add: wf picks_def roundRobinTakes_def)
qed

text \<open>The assignments that a group leader computes do not depend on the order in which Go visits the map of
  topics: two runs of a balancer on the same members and partitions assign the same partitions.\<close>

theorem AssignGroups_deterministic:
  assumes "iterationOrder members order" "iterationOrder members order'" "wfMembers members"
  shows "assigned (RangeGroupBalancer_AssignGroups order members ps) mid topic =
      assigned (RangeGroupBalancer_AssignGroups order' members ps) mid topic \<and>
    assigned (RoundRobinGroupBalancer_AssignGroups order members ps) mid topic =
      assigned (RoundRobinGroupBalancer_AssignGroups order' members ps) mid topic"
  using assms by (simp add: RangeGroupBalancer_assignGroups RoundRobinGroupBalancer_assignGroups assigned_order [of members order order'])

theorem AssignGroups_deterministic_witness:
  "assigned (RangeGroupBalancer_AssignGroups [[116], [117]]
      [\<lparr>gm_ID = [99], gm_MemberTopics = [[116], [117]], gm_MemberUserData = None\<rparr>] examplePartitions) [99] [116] =
   assigned (RangeGroupBalancer_AssignGroups [[117], [116]]
      [\<lparr>gm_ID = [99], gm_MemberTopics = [[116], [117]], gm_MemberUserData = None\<rparr>] examplePartitions) [99] [116]"
proof -
  let ?m = "[\<lparr>gm_ID = [99 :: byte], gm_MemberTopics = [[116 :: byte], [117]], gm_MemberUserData = None\<rparr>]"
  have "findMembersByTopic ?m = [[116] \<mapsto> ?m, [117] \<mapsto> ?m]"
    by (rule ext) (simp add: findMembersByTopic_def groupByTopic_def appendTo_def)
  then have "iterationOrder ?m [[116], [117]]" "iterationOrder ?m [[117], [116]]" "wfMembers ?m"
    by (auto simp: iterationOrder_def wfMembers_def)
  from AssignGroups_deterministic [OF this, of examplePartitions "[99]" "[116]"] show ?thesis by simp
qed

end
