(* ===== verification/Conn.thy ===== *)
theory Conn
  imports ConnCore SaslMessages OffsetMessages TopicMessages GroupMessages RecordBatch GroupAssign
begin

section \<open>The operations of a connection (conn.go, createtopics.go, deletetopics.go)\<close>

text \<open>
  The exported and unexported operations of \<open>Conn\<close> other than the reading of batches, as compositions of the
  exchanges of \<open>ConnCore\<close>. The time that \<open>time.Now\<close> returns is an argument \<open>now\<close>. Where a Go method returns
  a value together with a non-nil error, only the error is kept.
\<close>

abbreviation (input) metadataRequest :: int16 where "metadataRequest \<equiv> 3"
abbreviation (input) offsetCommitRequest :: int16 where "offsetCommitRequest \<equiv> 8"
abbreviation (input) offsetFetchRequest :: int16 where "offsetFetchRequest \<equiv> 9"
abbreviation (input) groupCoordinatorRequest :: int16 where "groupCoordinatorRequest \<equiv> 10"
abbreviation (input) joinGroupRequest :: int16 where "joinGroupRequest \<equiv> 11"
abbreviation (input) heartbeatRequest :: int16 where "heartbeatRequest \<equiv> 12"
abbreviation (input) leaveGroupRequest :: int16 where "leaveGroupRequest \<equiv> 13"
abbreviation (input) syncGroupRequest :: int16 where "syncGroupRequest \<equiv> 14"
abbreviation (input) describeGroupsRequest :: int16 where "describeGroupsRequest \<equiv> 15"
abbreviation (input) listGroupsRequest :: int16 where "listGroupsRequest \<equiv> 16"
abbreviation (input) saslHandshakeRequest :: int16 where "saslHandshakeRequest \<equiv> 17"
abbreviation (input) apiVersionsRequest :: int16 where "apiVersionsRequest \<equiv> 18"
abbreviation (input) createTopicsRequest :: int16 where "createTopicsRequest \<equiv> 19"
abbreviation (input) deleteTopicsRequest :: int16 where "deleteTopicsRequest \<equiv> 20"
abbreviation (input) saslAuthenticateRequest :: int16 where "saslAuthenticateRequest \<equiv> 36"

subsection \<open>Groups and committed offsets\<close>

text \<open>The error of a response: its code, or the first code of its parts, unless it is 0.\<close>

definition checkCode :: "('r \<Rightarrow> int16) \<Rightarrow> 'r \<Rightarrow> 'r conn_op" where
  "checkCode code res = (if code res \<noteq> 0 then cfail (KafkaError (sint (code res))) else cret res)"

definition checkCodes :: "('r \<Rightarrow> int16 list) \<Rightarrow> 'r \<Rightarrow> 'r conn_op" where
  "checkCodes codes res =
     (case filter (\<lambda>code. code \<noteq> 0) (codes res) of
        code # _ \<Rightarrow> cfail (KafkaError (sint code))
      | [] \<Rightarrow> cret res)"

definition Conn_describeGroups :: "describeGroupsRequestV0 \<Rightarrow> describeGroupsResponseV0 conn_op" where
  "Conn_describeGroups req =
     cbind (request RDeadline describeGroupsRequestV0_size describeGroupsRequestV0_writeTo describeGroupsRequest 0 req
              describeGroupsResponseV0_readFrom)
       (checkCodes (\<lambda>res. map dgGrp_ErrorCode (dgRes_Groups res)))"

definition Conn_findCoordinator :: "findCoordinatorRequestV0 \<Rightarrow> findCoordinatorResponseV0 conn_op" where
  "Conn_findCoordinator req =
     cbind (request RDeadline findCoordinatorRequestV0_size findCoordinatorRequestV0_writeTo groupCoordinatorRequest 0 req
              findCoordinatorResponseV0_readFrom)
       (checkCode fcRes_ErrorCode)"

definition Conn_heartbeat :: "heartbeatRequestV0 \<Rightarrow> heartbeatResponseV0 conn_op" where
  "Conn_heartbeat req =
     cbind (request WDeadline heartbeatRequestV0_size heartbeatRequestV0_writeTo heartbeatRequest 0 req
              heartbeatResponseV0_readFrom)
       (checkCode hbRes_ErrorCode)"

definition Conn_joinGroup :: "joinGroupRequestV1 \<Rightarrow> joinGroupResponseV1 conn_op" where
  "Conn_joinGroup req =
     cbind (request WDeadline joinGroupRequestV1_size joinGroupRequestV1_writeTo joinGroupRequest 1 req
              joinGroupResponseV1_readFrom)
       (checkCode jgRes_ErrorCode)"

definition Conn_leaveGroup :: "leaveGroupRequestV0 \<Rightarrow> leaveGroupResponseV0 conn_op" where
  "Conn_leaveGroup req =
     cbind (request WDeadline leaveGroupRequestV0_size leaveGroupRequestV0_writeTo leaveGroupRequest 0 req
              leaveGroupResponseV0_readFrom)
       (checkCode lvRes_ErrorCode)"

definition Conn_listGroups :: "listGroupsRequestV1 \<Rightarrow> listGroupsResponseV1 conn_op" where
  "Conn_listGroups req =
     cbind (request RDeadline listGroupsRequestV1_size listGroupsRequestV1_writeTo listGroupsRequest 1 req
              listGroupsResponseV1_readFrom)
       (checkCode lgRes_ErrorCode)"

definition Conn_offsetCommit :: "offsetCommitRequestV2 \<Rightarrow> offsetCommitResponseV2 conn_op" where
  "Conn_offsetCommit req =
     cbind (request WDeadline offsetCommitRequestV2_size offsetCommitRequestV2_writeTo offsetCommitRequest 2 req
              offsetCommitResponseV2_readFrom)
       (checkCodes (\<lambda>res. concat (map (\<lambda>r. map ocPRes_ErrorCode (ocTRes_PartitionResponses r)) (ocRes_Responses res))))"

definition Conn_offsetFetch :: "offsetFetchRequestV1 \<Rightarrow> offsetFetchResponseV1 conn_op" where
  "Conn_offsetFetch req =
     cbind (request RDeadline offsetFetchRequestV1_size offsetFetchRequestV1_writeTo offsetFetchRequest 1 req
              offsetFetchResponseV1_readFrom)
       (checkCodes (\<lambda>res. concat (map (\<lambda>r. map ofPRes_ErrorCode (ofTRes_PartitionResponses r)) (ofRes_Responses res))))"

definition Conn_syncGroups :: "syncGroupRequestV0 \<Rightarrow> syncGroupResponseV0 conn_op" where
  "Conn_syncGroups req =
     cbind (request RDeadline syncGroupRequestV0_size syncGroupRequestV0_writeTo syncGroupRequest 0 req
              syncGroupResponseV0_readFrom)
       (checkCode sgRes_ErrorCode)"

subsection \<open>Topics\<close>

text \<open>The timeout of a request that has none: what is left until the write deadline, less a round trip.\<close>

definition requestTimeout :: "gotime \<Rightarrow> gotime \<Rightarrow> int32 \<Rightarrow> int32" where
  "requestTimeout deadline now timeout =
     (if timeout = 0 then
        let deadline = adjustDeadlineForRTT deadline now defaultRTT
        in milliseconds (deadlineToTimeout deadline now)
      else timeout)"

definition Conn_createTopics :: "gotime \<Rightarrow> createTopicsRequestV0 \<Rightarrow> createTopicsResponseV0 conn_op" where
  "Conn_createTopics now req =
     cbind (writeOperation
         (\<lambda>deadline id.
            let req = req\<lparr>ctReq_Timeout := requestTimeout deadline now (ctReq_Timeout req)\<rparr>
            in Conn_writeRequest createTopicsRequestV0_size createTopicsRequestV0_writeTo createTopicsRequest 0 id req)
         (\<lambda>_ n. readRbuf (expectZeroSize createTopicsResponseV0_readFrom) n))
       (checkCodes (\<lambda>res. map ctErr_ErrorCode (ctRes_TopicErrors res)))"

definition Conn_CreateTopics :: "gotime \<Rightarrow> TopicConfig list \<Rightarrow> unit conn_op" where
  "Conn_CreateTopics now topics c =
     (case Conn_createTopics now \<lparr>ctReq_Topics = map toCreateTopicsRequestV0Topic topics, ctReq_Timeout = 0\<rparr> c of
        None \<Rightarrow> None
      | Some (Ok _, c) \<Rightarrow> Some (Ok (), c)
      | Some (Panic p, c) \<Rightarrow> Some (Panic p, c)
      | Some (Err e, c) \<Rightarrow> Some (if e = KafkaError TopicAlreadyExists then Ok () else Err e, c))"

definition Conn_deleteTopics :: "gotime \<Rightarrow> deleteTopicsRequestV0 \<Rightarrow> deleteTopicsResponseV0 conn_op" where
  "Conn_deleteTopics now req =
     cbind (writeOperation
         (\<lambda>deadline id.
            let req = req\<lparr>dtReq_Timeout := requestTimeout deadline now (dtReq_Timeout req)\<rparr>
            in Conn_writeRequest deleteTopicsRequestV0_size deleteTopicsRequestV0_writeTo deleteTopicsRequest 0 id req)
         (\<lambda>_ n. readRbuf (expectZeroSize deleteTopicsResponseV0_readFrom) n))
       (checkCodes (\<lambda>res. map dtErr_ErrorCode (dtRes_TopicErrorCodes res)))"

definition Conn_DeleteTopics :: "gotime \<Rightarrow> gostring list \<Rightarrow> unit conn_op" where
  "Conn_DeleteTopics now topics =
     cbind (Conn_deleteTopics now \<lparr>dtReq_Topics = topics, dtReq_Timeout = 0\<rparr>) (\<lambda>_. cret ())"

subsection \<open>Brokers and partitions\<close>

definition readResponse :: "'a reader \<Rightarrow> int \<Rightarrow> 'a conn_op" where
  "readResponse p sz c =
     (case p (cn_rbuf c, sz) of
        (Panic q, r, n) \<Rightarrow> Some (Panic q, c\<lparr>cn_rbuf := r\<rparr>)
      | (Ok x, r, n) \<Rightarrow>
          Some (if n \<noteq> 0 then Err (Errorf ''reading a response left %d unread bytes'') else Ok x, c\<lparr>cn_rbuf := r\<rparr>)
      | (Err e, r, n) \<Rightarrow>
          if is_KafkaError e then
            (case discardN n (r, n) of
               (Err e', r, _) \<Rightarrow> Some (Err e', c\<lparr>cn_rbuf := r\<rparr>)
             | (_, r, _) \<Rightarrow> Some (Err e, c\<lparr>cn_rbuf := r\<rparr>))
          else Some (Err e, c\<lparr>cn_rbuf := r\<rparr>))"

definition toBroker :: "brokerMetadataV1 \<Rightarrow> Broker" where
  "toBroker b = \<lparr>br_Host = mdBro_Host b, br_Port = sint (mdBro_Port b), br_ID = sint (mdBro_NodeID b), br_Rack = mdBro_Rack b\<rparr>"

definition zeroBroker :: Broker where
  "zeroBroker = \<lparr>br_Host = [], br_Port = 0, br_ID = 0, br_Rack = []\<rparr>"

text \<open>The metadata request that \<open>Controller\<close>, \<open>Brokers\<close> and \<open>ReadPartitions\<close> send.\<close>

definition readMetadata :: "gostring list \<Rightarrow> (metadataResponseV1 \<Rightarrow> 'a conn_op) \<Rightarrow> 'a conn_op" where
  "readMetadata topics f =
     readOperation
       (\<lambda>_ id. Conn_writeRequest topicMetadataRequestV1_size topicMetadataRequestV1_writeTo metadataRequest 1 id topics)
       (\<lambda>_ n. cbind (readResponse metadataResponseV1_read n) f)"

definition Conn_Controller :: "Broker conn_op" where
  "Conn_Controller =
     readMetadata [] (\<lambda>res.
       cret (case filter (\<lambda>b. mdBro_NodeID b = mdRes_ControllerID res) (mdRes_Brokers res) of
           b # _ \<Rightarrow> toBroker b
         | [] \<Rightarrow> zeroBroker))"

definition Conn_Brokers :: "Broker list conn_op" where
  "Conn_Brokers = readMetadata [] (\<lambda>res. cret (map toBroker (mdRes_Brokers res)))"

definition brokersByID :: "brokerMetadataV1 list \<Rightarrow> int32 \<rightharpoonup> Broker" where
  "brokersByID bs = fold (\<lambda>b m. m(mdBro_NodeID b \<mapsto> toBroker b)) bs Map.empty"

definition brokerAt :: "(int32 \<rightharpoonup> Broker) \<Rightarrow> int32 \<Rightarrow> Broker" where
  "brokerAt brokers i = (case brokers i of None \<Rightarrow> zeroBroker | Some b \<Rightarrow> b)"

definition toPartition :: "(int32 \<rightharpoonup> Broker) \<Rightarrow> gostring \<Rightarrow> partitionMetadataV1 \<Rightarrow> Partition" where
  "toPartition brokers topic p =
     \<lparr>pt_Topic = topic, pt_Leader = brokerAt brokers (mdPar_Leader p), pt_Replicas = map (brokerAt brokers) (mdPar_Replicas p),
      pt_Isr = map (brokerAt brokers) (mdPar_Isr p), pt_ID = sint (mdPar_PartitionID p)\<rparr>"

fun topicsPartitions ::
  "gostring \<Rightarrow> (int32 \<rightharpoonup> Broker) \<Rightarrow> topicMetadataV1 list \<Rightarrow> Partition list \<Rightarrow> Partition list conn_op" where
  "topicsPartitions connTopic brokers [] ps = cret ps"
| "topicsPartitions connTopic brokers (t # ts) ps =
     (if mdTop_TopicErrorCode t \<noteq> 0 \<and> (connTopic = [] \<or> mdTop_TopicName t = connTopic)
      then cfail (KafkaError (sint (mdTop_TopicErrorCode t)))
      else topicsPartitions connTopic brokers ts
             (ps @ map (toPartition brokers (mdTop_TopicName t)) (mdTop_Partitions t)))"

definition Conn_ReadPartitions :: "gostring list \<Rightarrow> Partition list conn_op" where
  "Conn_ReadPartitions topics c =
     (let topics = (if topics = [] \<and> cn_topic c \<noteq> [] then [cn_topic c] else topics) in
      readMetadata topics (\<lambda>res c.
        topicsPartitions (cn_topic c) (brokersByID (mdRes_Brokers res)) (mdRes_Topics res) [] c) c)"

subsection \<open>Offsets\<close>

abbreviation (input) FirstOffset :: int64 where "FirstOffset \<equiv> -2"
abbreviation (input) LastOffset :: int64 where "LastOffset \<equiv> -1"
abbreviation (input) SeekStart :: int where "SeekStart \<equiv> 0"
abbreviation (input) SeekAbsolute :: int where "SeekAbsolute \<equiv> 1"
abbreviation (input) SeekEnd :: int where "SeekEnd \<equiv> 2"
abbreviation (input) SeekCurrent :: int where "SeekCurrent \<equiv> 3"

definition Conn_Offset :: "Conn \<Rightarrow> int64 \<times> int" where
  "Conn_Offset c =
     (if cn_offset c = FirstOffset then (0, SeekStart)
      else if cn_offset c = LastOffset then (0, SeekEnd)
      else (cn_offset c, SeekAbsolute))"

text \<open>The offsets of the partitions of a list offset response; the operation keeps the last one.\<close>

definition readPartitionOffset :: "int64 reader" where
  "readPartitionOffset =
     rbind partitionOffsetV1_readFrom (\<lambda>p.
       if loOff_ErrorCode p \<noteq> 0 then rfail (KafkaError (sint (loOff_ErrorCode p))) else rret (loOff_Offset p))"

definition readOffsetResponse :: "int64 reader" where
  "readOffsetResponse =
     rbind (readArrayWith (rbind discardString (\<lambda>_. readArrayWith readPartitionOffset))) (\<lambda>offsets.
       rret (last (0 # concat offsets)))"

definition Conn_readOffset :: "int64 \<Rightarrow> int64 conn_op" where
  "Conn_readOffset t =
     readOperation
       (\<lambda>_ id c. Conn_Flush (writeListOffsetRequestV1 [] id (cn_clientID c) (cn_topic c) (cn_partition c) t) c)
       (\<lambda>_ n. readRbuf (expectZeroSize readOffsetResponse) n)"

definition Conn_ReadOffset :: "gotime \<Rightarrow> int64 conn_op" where
  "Conn_ReadOffset t = Conn_readOffset (timestamp t)"

definition Conn_ReadFirstOffset :: "int64 conn_op" where
  "Conn_ReadFirstOffset = Conn_readOffset FirstOffset"

definition Conn_ReadLastOffset :: "int64 conn_op" where
  "Conn_ReadLastOffset = Conn_readOffset LastOffset"

definition Conn_ReadOffsets :: "(int64 \<times> int64) conn_op" where
  "Conn_ReadOffsets = cbind Conn_ReadFirstOffset (\<lambda>first. cbind Conn_ReadLastOffset (\<lambda>last. cret (first, last)))"

definition Conn_Seek :: "int64 \<Rightarrow> int \<Rightarrow> int64 conn_op" where
  "Conn_Seek offset whence c =
     (if whence \<notin> {SeekStart, SeekAbsolute, SeekEnd, SeekCurrent} then
        cfail (Errorf ''whence must be one of 0, 1, 2, or 3. (whence = %d)'') c
      else if whence = SeekAbsolute \<and> offset = cn_offset c then cret offset c
      else
        let offset = (if whence = SeekCurrent then cn_offset c + offset else offset) in
        cbind Conn_ReadOffsets (\<lambda>(first, last) c.
          let offset = (if whence = SeekStart then first + offset
                        else if whence = SeekEnd then last - offset else offset)
          in if sint offset < sint first \<or> sint offset > sint last then cfail (KafkaError OffsetOutOfRange) c
             else cret offset (c\<lparr>cn_offset := offset\<rparr>)) c)"

subsection \<open>Producing\<close>

text \<open>The bytes of a request whose encoder may fail or not return, written and flushed.\<close>

definition flushEncoded :: "(go_error, byte list) result option \<Rightarrow> unit conn_op" where
  "flushEncoded enc c =
     (case enc of
        None \<Rightarrow> None
      | Some (Err e) \<Rightarrow> Some (Err e, c)
      | Some (Panic p) \<Rightarrow> Some (Panic p, c)
      | Some (Ok bs) \<Rightarrow> Conn_Flush bs c)"

definition maxVersionOf :: "(int16 \<rightharpoonup> ApiVersionRange) \<Rightarrow> int16 \<Rightarrow> int16" where
  "maxVersionOf m key = (case m key of None \<Rightarrow> 0 | Some v \<Rightarrow> av_MaxVersion v)"

text \<open>The loop over the messages: their checks, the default time, the number of bytes.\<close>

fun checkMessages :: "gostring \<Rightarrow> gotime \<Rightarrow> Message list \<Rightarrow> (go_error, Message list \<times> int) result" where
  "checkMessages topic writeTime [] = Ok ([], 0)"
| "checkMessages topic writeTime (msg # msgs) =
     (if msg_Topic msg \<noteq> [] \<and> msg_Topic msg \<noteq> topic then Err ErrInvalidWriteTopic
      else if msg_Partition msg \<noteq> 0 then Err ErrInvalidWritePartition
      else (case checkMessages topic writeTime msgs of
          Ok (msgs, n) \<Rightarrow>
            Ok ((if IsZero (msg_Time msg) then msg\<lparr>msg_Time := writeTime\<rparr> else msg) # msgs,
                int (length (contents (msg_Key msg))) + int (length (contents (msg_Value msg))) + n)
        | Err e \<Rightarrow> Err e
        | Panic p \<Rightarrow> Panic p))"

definition readProducePartition :: "(int32 \<times> int64 \<times> gotime) reader" where
  "readProducePartition =
     rbind produceResponsePartitionV2_readFrom (\<lambda>p.
       if prPRes_ErrorCode p \<noteq> 0 then rfail (KafkaError (sint (prPRes_ErrorCode p)))
       else rret (prPRes_Partition p, prPRes_Offset p, Unix 0 (prPRes_Timestamp p * Millisecond)))"

definition readProduceResponse :: "(int32 \<times> int64 \<times> gotime) reader" where
  "readProduceResponse =
     rbind (readArrayWith
         (rbind discardString (\<lambda>_.
          rbind (readArrayWith readProducePartition) (\<lambda>ps.
          rbind discardInt32 (\<lambda>_. rret ps))))) (\<lambda>pss.
       rret (last ((0, 0, zeroTime) # concat pss)))"

definition encodeProduce :: "gotime \<Rightarrow> CompressionCodec option \<Rightarrow> Message list \<Rightarrow> gotime \<Rightarrow> int32 \<Rightarrow> unit conn_op" where
  "encodeProduce now codec msgs deadline corr c =
     (let deadline = adjustDeadlineForRTT deadline now defaultRTT;
          timeout = deadlineToTimeout deadline now;
          acks = ucast (cn_requiredAcks c)
      in flushEncoded
           (if sint (maxVersionOf (cn_apiVersions c) produceRequest) \<ge> 3 then
              writeProduceRequestV3 [] codec corr (cn_clientID c) (cn_topic c) (cn_partition c) timeout acks msgs
            else
              Some (writeProduceRequestV2 [] codec corr (cn_clientID c) (cn_topic c) (cn_partition c) timeout acks msgs)) c)"

definition Conn_writeCompressedMessages ::
  "gotime \<Rightarrow> CompressionCodec option \<Rightarrow> Message list \<Rightarrow> (int \<times> int32 \<times> int64 \<times> gotime) conn_op" where
  "Conn_writeCompressedMessages now codec msgs c =
     (if msgs = [] then cret (0, 0, 0, zeroTime) c
      else (case checkMessages (cn_topic c) now msgs of
          Err e \<Rightarrow> cfail e c
        | Panic p \<Rightarrow> Some (Panic p, c)
        | Ok (msgs, nbytes) \<Rightarrow>
            cbind (writeOperation (encodeProduce now codec msgs) (\<lambda>_ n. readRbuf (expectZeroSize readProduceResponse) n))
              (\<lambda>(part, offset, appendTime). cret (nbytes, part, offset, appendTime)) c))"

definition Conn_WriteCompressedMessages :: "gotime \<Rightarrow> CompressionCodec option \<Rightarrow> Message list \<Rightarrow> int conn_op" where
  "Conn_WriteCompressedMessages now codec msgs =
     cbind (Conn_writeCompressedMessages now codec msgs) (\<lambda>(nbytes, _, _, _). cret nbytes)"

definition Conn_WriteMessages :: "gotime \<Rightarrow> Message list \<Rightarrow> int conn_op" where
  "Conn_WriteMessages now = Conn_WriteCompressedMessages now None"

definition Conn_Write :: "gotime \<Rightarrow> byte list \<Rightarrow> int conn_op" where
  "Conn_Write now b = Conn_WriteCompressedMessages now None [zeroMessage\<lparr>msg_Value := Some b\<rparr>]"

definition Conn_SetRequiredAcks :: "int \<Rightarrow> unit conn_op" where
  "Conn_SetRequiredAcks n c =
     (if n = - 1 \<or> n = 1 then cret () (c\<lparr>cn_requiredAcks := word_of_int n\<rparr>)
      else cfail (KafkaError InvalidRequiredAcks) c)"

subsection \<open>Versions\<close>

definition readApiVersion :: "ApiVersionRange reader" where
  "readApiVersion =
     rbind readInt16 (\<lambda>key. rbind readInt16 (\<lambda>minv. rbind readInt16 (\<lambda>maxv.
       rret \<lparr>av_ApiKey = key, av_MinVersion = minv, av_MaxVersion = maxv\<rparr>)))"

definition readApiVersions :: "ApiVersionRange list reader" where
  "readApiVersions =
     rbind readInt16 (\<lambda>errorCode.
     rbind readInt32 (\<lambda>arrSize.
     if sint arrSize < 0 then rpanic MakeNegativeLen
     else rbind (readTimes (nat (sint arrSize)) readApiVersion) (\<lambda>r.
       if errorCode \<noteq> 0 then rfail (KafkaError (sint errorCode)) else rret r)))"

definition Conn_ApiVersions :: "ApiVersionRange list conn_op" where
  "Conn_ApiVersions =
     cbind (doRequest RDeadline (\<lambda>_ corr c.
         let h = \<lparr>Size = 0, ApiKey = apiVersionsRequest, ApiVersion = 0, CorrelationID = corr, ClientID = cn_clientID c\<rparr>;
             h = h\<lparr>Size := requestHeader_size h - 4\<rparr>
         in Conn_Flush (requestHeader_writeTo [] h) c)) (\<lambda>corr.
     cbind (waitResponse RDeadline corr) (\<lambda>(_, sz).
       readRbuf readApiVersions sz))"

definition defaultApiVersions :: "int16 \<rightharpoonup> ApiVersionRange" where
  "defaultApiVersions =
     map_of (map (\<lambda>(key, v). (key, \<lparr>av_ApiKey = key, av_MinVersion = v, av_MaxVersion = v\<rparr>))
       [(produceRequest, 2), (fetchRequest, 2), (listOffsetRequest, 1), (metadataRequest, 1), (offsetCommitRequest, 2),
        (offsetFetchRequest, 1), (groupCoordinatorRequest, 0), (joinGroupRequest, 1), (heartbeatRequest, 0),
        (leaveGroupRequest, 0), (syncGroupRequest, 0), (describeGroupsRequest, 1), (listGroupsRequest, 1),
        (apiVersionsRequest, 0), (createTopicsRequest, 0), (deleteTopicsRequest, 1)])"

text \<open>The versions that a list of ranges gives, and the version of fetch requests that they select.\<close>

definition useVersions :: "(int16 \<rightharpoonup> ApiVersionRange) \<Rightarrow> Conn \<Rightarrow> Conn" where
  "useVersions versions c =
     (let c = c\<lparr>cn_apiVersions := versions\<rparr> in
      case versions fetchRequest of
        None \<Rightarrow> c
      | Some v \<Rightarrow> c\<lparr>cn_fetchVersion := (if sint (av_MaxVersion v) \<ge> 5 then 5 else 2)\<rparr>)"

definition Conn_selectVersions :: "unit conn_op" where
  "Conn_selectVersions c =
     (case Conn_ApiVersions c of
        None \<Rightarrow> None
      | Some (Panic p, c) \<Rightarrow> Some (Panic p, c)
      | Some (Err e, c) \<Rightarrow> Some (Ok (), useVersions defaultApiVersions c)
      | Some (Ok vs, c) \<Rightarrow> Some (Ok (), useVersions (fold (\<lambda>v m. m(av_ApiKey v \<mapsto> v)) vs Map.empty) c))"

record ConnConfig =
  cc_ClientID :: gostring
  cc_Topic :: gostring
  cc_Partition :: int

definition zeroItem :: messageSetItem where
  "zeroItem = \<lparr>mi_Offset = 0, mi_MessageSize = 0, mi_Message =
     \<lparr>m_CRC = 0, m_MagicByte = 0, m_Attributes = 0, m_Timestamp = 0, m_Key = None, m_Value = None\<rparr>\<rparr>"

definition zeroDeadline :: connDeadline where
  "zeroDeadline = \<lparr>dl_value = zeroTime, dl_rconn = False, dl_wconn = False\<rparr>"

definition NewConnWith :: "gostring \<Rightarrow> network \<Rightarrow> bufio_reader \<Rightarrow> ConnConfig \<Rightarrow> ((go_error, unit) result \<times> Conn) option" where
  "NewConnWith DefaultClientID net rbuf config =
     (let fetchMinSize = fetchResponseV2_size
            \<lparr>ftRes_ThrottleTime = 0, ftRes_Topics = [\<lparr>ftTRes_TopicName = cc_Topic config, ftTRes_Partitions =
              [\<lparr>ftPRes_Partition = word_of_int (cc_Partition config), ftPRes_ErrorCode = 0, ftPRes_HighwaterMarkOffset = 0,
                ftPRes_MessageSetSize = 0, ftPRes_MessageSet = [zeroItem]\<rparr>]\<rparr>]\<rparr>;
          c = \<lparr>cn_net = net, cn_offset = FirstOffset, cn_rbuf = rbuf, cn_wdeadline = zeroDeadline, cn_rdeadline = zeroDeadline,
               cn_clientID = (if cc_ClientID config = [] then DefaultClientID else cc_ClientID config),
               cn_topic = cc_Topic config, cn_partition = word_of_int (cc_Partition config),
               cn_fetchMaxBytes = 0, cn_fetchMinSize = fetchMinSize, cn_correlationID = 0, cn_requiredAcks = - 1,
               cn_apiVersions = Map.empty, cn_fetchVersion = 0\<rparr>
      in if cc_Partition config < 0 \<or> cc_Partition config > 2 ^ 31 - 1 then
           Some (Panic (PanicMessage ''invalid partition number''), c)
         else cbind Conn_selectVersions (\<lambda>_ c. Some (Ok (), c\<lparr>cn_fetchMaxBytes := (2 ^ 31 - 1) - cn_fetchMinSize c\<rparr>)) c)"

subsection \<open>Authentication\<close>

definition Conn_saslHandshake :: "gostring \<Rightarrow> unit conn_op" where
  "Conn_saslHandshake mechanism c =
     (let version = (if sint (maxVersionOf (cn_apiVersions c) saslHandshakeRequest) \<ge> 1 then 1 else 0) in
      cbind (request WDeadline saslHandshakeRequestV0_size saslHandshakeRequestV0_writeTo saslHandshakeRequest version
               \<lparr>shReq_Mechanism = mechanism\<rparr> saslHandshakeResponseV0_readFrom)
        (\<lambda>resp. cbind (checkCode shRes_ErrorCode resp) (\<lambda>_. cret ())) c)"

definition Conn_saslAuthenticate :: "bytes \<Rightarrow> bytes conn_op" where
  "Conn_saslAuthenticate d c =
     (if sint (maxVersionOf (cn_apiVersions c) saslHandshakeRequest) \<ge> 1 then
        cbind (request WDeadline saslAuthenticateRequestV0_size saslAuthenticateRequestV0_writeTo saslAuthenticateRequest 0
                 \<lparr>saReq_Data = d\<rparr> saslAuthenticateResponseV0_readFrom)
          (\<lambda>res. cbind (checkCode saRes_ErrorCode res) (\<lambda>_. cret (saRes_Data res))) c
      else
        cbind (Conn_Flush (Write (writeInt32 [] (of_nat (length (contents d)))) (contents d))) (\<lambda>_.
        cbind (readRbuf readInt32 4) (\<lambda>respLen.
          readRbuf (readNewBytes (sint respLen)) (sint respLen))) c)"

subsection \<open>The exchanges of the operations\<close>

text \<open>Every request type with its response type keeps the laws that an exchange relies on.\<close>

interpretation describeGroups_exchange: request_response describeGroupsRequestV0_size describeGroupsRequestV0_writeTo
  describeGroupsResponseV0_writeTo describeGroupsResponseV0_readFrom describeGroupsResponseV0_ok
  by unfold_locales

interpretation findCoordinator_exchange: request_response findCoordinatorRequestV0_size findCoordinatorRequestV0_writeTo
  findCoordinatorResponseV0_writeTo findCoordinatorResponseV0_readFrom findCoordinatorResponseV0_ok
  by unfold_locales

interpretation heartbeat_exchange: request_response heartbeatRequestV0_size heartbeatRequestV0_writeTo
  heartbeatResponseV0_writeTo heartbeatResponseV0_readFrom heartbeatResponseV0_ok
  by unfold_locales

interpretation joinGroup_exchange: request_response joinGroupRequestV1_size joinGroupRequestV1_writeTo
  joinGroupResponseV1_writeTo joinGroupResponseV1_readFrom joinGroupResponseV1_ok
  by unfold_locales

interpretation leaveGroup_exchange: request_response leaveGroupRequestV0_size leaveGroupRequestV0_writeTo
  leaveGroupResponseV0_writeTo leaveGroupResponseV0_readFrom leaveGroupResponseV0_ok
  by unfold_locales

interpretation listGroups_exchange: request_response listGroupsRequestV1_size listGroupsRequestV1_writeTo
  listGroupsResponseV1_writeTo listGroupsResponseV1_readFrom listGroupsResponseV1_ok
  by unfold_locales

interpretation offsetCommit_exchange: request_response offsetCommitRequestV2_size offsetCommitRequestV2_writeTo
  offsetCommitResponseV2_writeTo offsetCommitResponseV2_readFrom offsetCommitResponseV2_ok
  by unfold_locales

interpretation offsetFetch_exchange: request_response offsetFetchRequestV1_size offsetFetchRequestV1_writeTo
  offsetFetchResponseV1_writeTo offsetFetchResponseV1_readFrom offsetFetchResponseV1_ok
  by unfold_locales

interpretation syncGroups_exchange: request_response syncGroupRequestV0_size syncGroupRequestV0_writeTo
  syncGroupResponseV0_writeTo syncGroupResponseV0_readFrom syncGroupResponseV0_ok
  by unfold_locales

interpretation saslHandshake_exchange: request_response saslHandshakeRequestV0_size saslHandshakeRequestV0_writeTo
  saslHandshakeResponseV0_writeTo saslHandshakeResponseV0_readFrom saslHandshakeResponseV0_ok
  by unfold_locales

interpretation saslAuthenticate_exchange: request_response saslAuthenticateRequestV0_size saslAuthenticateRequestV0_writeTo
  saslAuthenticateResponseV0_writeTo saslAuthenticateResponseV0_readFrom saslAuthenticateResponseV0_ok
  by unfold_locales


lemma checkCode_exchange:
  assumes "m c = Some (Ok x, c')"
  shows "cbind m (checkCode code) c =
    Some (if code x \<noteq> 0 then Err (KafkaError (sint (code x))) else Ok x, c')"
  using assms by (simp add: cbind_def checkCode_def cfail_def cret_def)

lemma checkCodes_exchange:
  assumes "m c = Some (Ok x, c')"
  shows "cbind m (checkCodes codes) c =
    Some (case filter (\<lambda>code. code \<noteq> 0) (codes x) of code # _ \<Rightarrow> Err (KafkaError (sint code)) | [] \<Rightarrow> Ok x, c')"
  using assms by (simp add: cbind_def checkCodes_def cfail_def cret_def split: list.split)

subsection \<open>Responses to produce and list offset requests\<close>

text \<open>The responses a broker sends for one topic and partition.\<close>

definition produceResponse :: "gostring \<Rightarrow> produceResponsePartitionV2 \<Rightarrow> int32 \<Rightarrow> byte list" where
  "produceResponse topic p throttle =
     PutUint32 1 @ (writeString [] topic @ (PutUint32 1 @ produceResponsePartitionV2_writeTo [] p) @ PutUint32 throttle)"

definition offsetResponse :: "gostring \<Rightarrow> partitionOffsetV1 \<Rightarrow> byte list" where
  "offsetResponse topic p = PutUint32 1 @ (writeString [] topic @ (PutUint32 1 @ partitionOffsetV1_writeTo [] p))"

lemma parses_readProduceResponse:
  assumes "okString topic" "prPRes_ErrorCode p = 0"
  shows "parses readProduceResponse (produceResponse topic p throttle)
    (prPRes_Partition p, prPRes_Offset p, Unix 0 (prPRes_Timestamp p * Millisecond))"
proof -
  let ?x = "(prPRes_Partition p, prPRes_Offset p, Unix 0 (prPRes_Timestamp p * Millisecond))"
  have "parses readProducePartition (produceResponsePartitionV2_writeTo [] p @ []) ?x"
    unfolding readProducePartition_def
    by (rule parses_rbind [OF prPRes.rd_parses]) (simp_all add: produceResponsePartitionV2_ok_def assms(2))
  then have ps: "parses (readArrayWith readProducePartition) (PutUint32 1 @ produceResponsePartitionV2_writeTo [] p) [?x]"
    by (intro parses_readArrayWith_1) simp
  have "parses discardInt32 (PutUint32 throttle) ()"
    using parses_discardN [of "PutUint32 throttle"] by (simp add: discardInt32_def)
  then have d: "parses (rbind discardInt32 (\<lambda>_. rret [?x])) (PutUint32 throttle) [?x]"
    by (intro parses_rbind_ret) simp_all
  show ?thesis
    unfolding readProduceResponse_def produceResponse_def
    by (rule parses_rbind_ret, rule parses_readArrayWith_1, rule parses_rbind [OF parses_discardString [OF assms(1)]],
        rule parses_rbind [OF ps], rule d, simp)
qed

lemma stops_readProduceResponse:
  assumes "okString topic" "prPRes_ErrorCode p \<noteq> 0"
  shows "stops readProduceResponse (PutUint32 1 @ (writeString [] topic @ (PutUint32 1 @ produceResponsePartitionV2_writeTo [] p)))
    (KafkaError (sint (prPRes_ErrorCode p)))"
proof -
  have "stops readProducePartition (produceResponsePartitionV2_writeTo [] p @ []) (KafkaError (sint (prPRes_ErrorCode p)))"
    unfolding readProducePartition_def
    by (rule stops_rbind_parses [OF prPRes.rd_parses])
      (simp_all add: produceResponsePartitionV2_ok_def assms(2) stops_rfail)
  then have ps: "stops (rbind (readArrayWith readProducePartition) (\<lambda>ps. rbind discardInt32 (\<lambda>_. rret ps)))
      (PutUint32 1 @ produceResponsePartitionV2_writeTo [] p) (KafkaError (sint (prPRes_ErrorCode p)))"
    by (intro stops_rbind stops_readArrayWith_1) simp
  show ?thesis
    unfolding readProduceResponse_def
    by (rule stops_rbind, rule stops_readArrayWith_1, rule stops_rbind_parses [OF parses_discardString [OF assms(1)]], rule ps)
qed

lemma parses_readOffsetResponse:
  assumes "okString topic" "loOff_ErrorCode p = 0"
  shows "parses readOffsetResponse (offsetResponse topic p) (loOff_Offset p)"
proof -
  have "parses readPartitionOffset (partitionOffsetV1_writeTo [] p @ []) (loOff_Offset p)"
    unfolding readPartitionOffset_def
    by (rule parses_rbind [OF loOff.rd_parses]) (simp_all add: partitionOffsetV1_ok_def assms(2))
  then have ps: "parses (readArrayWith readPartitionOffset) (PutUint32 1 @ partitionOffsetV1_writeTo [] p) [loOff_Offset p]"
    by (intro parses_readArrayWith_1) simp
  show ?thesis
    unfolding readOffsetResponse_def offsetResponse_def
    by (rule parses_rbind_ret, rule parses_readArrayWith_1, rule parses_rbind [OF parses_discardString [OF assms(1)]],
        rule ps, simp)
qed

lemma expectZeroSize_parses:
  "parses p bs x \<Longrightarrow> expectZeroSize p (\<lparr>rd_bytes = bs @ rest, rd_err = e\<rparr>, int (length bs)) = (Ok x, \<lparr>rd_bytes = rest, rd_err = e\<rparr>, 0)"
  using parsesD [of p bs x 0] by (simp add: expectZeroSize_def)

lemma expectZeroSize_stops:
  "stops p bs err \<Longrightarrow> expectZeroSize p (\<lparr>rd_bytes = (bs @ as) @ rest, rd_err = e\<rparr>, int (length (bs @ as))) =
    (Err err, \<lparr>rd_bytes = as @ rest, rd_err = e\<rparr>, int (length as))"
  using stopsD [of p bs err "int (length as)" "int (length (bs @ as))" "as @ rest" e] by (simp add: expectZeroSize_def)

lemma Conn_readOffset_answered:
  assumes "usable c" "okString topic" "loOff_ErrorCode p = 0"
    and "cn_rbuf c = \<lparr>rd_bytes = responseBytes (cn_correlationID c + 1) (offsetResponse topic p) @ rest, rd_err = e\<rparr>"
  shows "\<exists>c'. Conn_readOffset t c = Some (Ok (loOff_Offset p), c') \<and>
    exchanged c (writeListOffsetRequestV1 [] (cn_correlationID c + 1) (cn_clientID c) (cn_topic c) (cn_partition c) t)
      \<lparr>rd_bytes = rest, rd_err = e\<rparr> False c'"
proof -
  have "length (offsetResponse topic p) < 2 ^ 31 - 4"
    using assms(2) by (simp add: offsetResponse_def wire okString_def partitionOffsetV1_writeTo_def Let_def)
  from Conn_do_response [OF assms(1) _ assms(4) this, where p = "expectZeroSize readOffsetResponse" and
      read = "\<lambda>_ n. readRbuf (expectZeroSize readOffsetResponse) n" and d = RDeadline and res = "Ok (loOff_Offset p)" and
      send = "\<lambda>_ id c. Conn_Flush (writeListOffsetRequestV1 [] id (cn_clientID c) (cn_topic c) (cn_partition c) t) c" and
      bs = "writeListOffsetRequestV1 [] (cn_correlationID c + 1) (cn_clientID c) (cn_topic c) (cn_partition c) t"]
  show ?thesis
    using expectZeroSize_parses [OF parses_readOffsetResponse [OF assms(2,3)], of rest e]
    by (simp add: Conn_readOffset_def readOperation_def sameConfig_def)
qed

subsection \<open>What an operation leaves of the offset\<close>

definition keepsOffset :: "'a conn_op \<Rightarrow> bool" where
  "keepsOffset m \<longleftrightarrow> (\<forall>c res c'. m c = Some (res, c') \<longrightarrow> cn_offset c' = cn_offset c)"

named_theorems keep \<open>operations that leave the offset of the connection alone\<close>

lemma onDeadline_offset [simp]: "cn_offset (onDeadline d f c) = cn_offset c"
  by (simp add: onDeadline_def split: which_deadline.split prod.split)

lemma Conn_Close_offset [simp]: "cn_offset (Conn_Close c) = cn_offset c"
  by (simp add: Conn_Close_def)

lemma keepsOffset_cbind [keep]: "keepsOffset m \<Longrightarrow> (\<And>x. keepsOffset (f x)) \<Longrightarrow> keepsOffset (cbind m f)"
  unfolding keepsOffset_def cbind_def by (fastforce split: option.splits result.splits)

lemma keepsOffset_pure [keep]: "keepsOffset (cret x)" "keepsOffset (cfail e)"
  by (auto simp: keepsOffset_def cret_def cfail_def)

lemma keepsOffset_io [keep]: "keepsOffset (Conn_Flush bs)" "keepsOffset (readRbuf p n)"
  by (auto simp: keepsOffset_def Conn_Flush_def readRbuf_def Let_def split: if_splits option.splits prod.splits)

lemma keepsOffset_doRequest [keep]:
  assumes "\<And>dl corr. keepsOffset (send dl corr)"
  shows "keepsOffset (doRequest d send)"
  unfolding keepsOffset_def
proof (intro allI impI)
  fix c res c'
  assume r: "doRequest d send c = Some (res, c')"
  let ?c = "onDeadline d connDeadline_setConnWriteDeadline (c\<lparr>cn_correlationID := cn_correlationID c + 1\<rparr>)"
  obtain x c1 where s: "send (deadlineOf d ?c) (cn_correlationID c + 1) ?c = Some (x, c1)"
    using r by (cases "send (deadlineOf d ?c) (cn_correlationID c + 1) ?c") (auto simp: doRequest_def Let_def)
  then have "cn_offset c1 = cn_offset c"
    using assms [of "deadlineOf d ?c" "cn_correlationID c + 1"] by (fastforce simp: keepsOffset_def)
  then show "cn_offset c' = cn_offset c"
    using r s by (cases x) (auto simp: doRequest_def Let_def)
qed

lemma keepsOffset_waitResponse [keep]: "keepsOffset (waitResponse d corr)"
proof -
  have "\<forall>res c'. y = (res, c') \<longrightarrow> cn_offset c' = cn_offset c" if "waitResponse d corr c = Some y" for c y
    by (rule waitResponse.raw_induct [OF _ that])
      (auto simp: Let_def skipResponseSizeAndID_def split: result.splits if_splits prod.splits)
  then show ?thesis by (auto simp: keepsOffset_def)
qed

lemma keepsOffset_Conn_do [keep]:
  assumes "\<And>dl corr. keepsOffset (send dl corr)" "\<And>dl n. keepsOffset (read dl n)"
  shows "keepsOffset (Conn_do d send read)"
proof -
  have "keepsOffset (\<lambda>c. case read dl n c of
         None \<Rightarrow> None
       | Some (Panic p, c) \<Rightarrow> Some (Panic p, c)
       | Some (Ok x, c) \<Rightarrow> Some (Ok x, onDeadline d connDeadline_unsetConnReadDeadline c)
       | Some (Err e, c) \<Rightarrow>
           let c = (if is_KafkaError e then c else Conn_Close c)
           in Some (Err e, onDeadline d connDeadline_unsetConnReadDeadline c))" for dl n
    using assms(2) [of dl n] unfolding keepsOffset_def Let_def
    by (fastforce split: option.splits result.splits)
  then show ?thesis
    unfolding Conn_do_def by (intro keep assms(1)) (simp add: split_beta)
qed

lemma keepsOffset_readOffsets [keep]: "keepsOffset (Conn_readOffset t)" "keepsOffset Conn_ReadOffsets"
proof -
  have "keepsOffset (\<lambda>c. Conn_Flush (writeListOffsetRequestV1 [] corr (cn_clientID c) (cn_topic c) (cn_partition c) t) c)" for corr t
    using keepsOffset_io(1) by (fastforce simp: keepsOffset_def)
  then show "keepsOffset (Conn_readOffset t)" for t
    unfolding Conn_readOffset_def readOperation_def by (intro keep)
  then show "keepsOffset Conn_ReadOffsets"
    unfolding Conn_ReadOffsets_def Conn_ReadFirstOffset_def Conn_ReadLastOffset_def by (intro keep)
qed

subsection \<open>Properties\<close>


text \<open>A connection on which the broker has answered two list offset requests with 3 and 9.\<close>

definition seekConn :: Conn where
  "seekConn =
     exampleConn False
       (responseBytes 1 (offsetResponse [116] \<lparr>loOff_Partition = 0, loOff_ErrorCode = 0, loOff_Timestamp = 0, loOff_Offset = 3\<rparr>) @
        responseBytes 2 (offsetResponse [116] \<lparr>loOff_Partition = 0, loOff_ErrorCode = 0, loOff_Timestamp = 0, loOff_Offset = 9\<rparr>))"

lemma seekConn_offsets: "\<exists>c. Conn_ReadOffsets seekConn = Some (Ok (3, 9), c)"
proof -
  let ?p = "\<lambda>x :: int64. \<lparr>loOff_Partition = 0 :: int32, loOff_ErrorCode = 0 :: int16, loOff_Timestamp = 0 :: int64, loOff_Offset = x\<rparr>"
  let ?rest = "responseBytes 2 (offsetResponse [116] (?p 9))"
  have u: "usable seekConn" by (simp add: seekConn_def usable_exampleConn)
  have r: "cn_rbuf seekConn = \<lparr>rd_bytes = responseBytes (cn_correlationID seekConn + 1) (offsetResponse [116] (?p 3)) @ ?rest, rd_err = EOF\<rparr>"
    by (simp add: seekConn_def exampleConn_def)
  from Conn_readOffset_answered [OF u _ _ r, of FirstOffset] obtain c1 where
    c1: "Conn_readOffset FirstOffset seekConn = Some (Ok 3, c1)" "\<exists>bs. exchanged seekConn bs \<lparr>rd_bytes = ?rest, rd_err = EOF\<rparr> False c1"
    by (auto simp: okString_def)
  then have "usable c1" "cn_correlationID c1 = 1" "cn_rbuf c1 = \<lparr>rd_bytes = responseBytes (cn_correlationID c1 + 1) (offsetResponse [116] (?p 9)) @ [], rd_err = EOF\<rparr>"
    using u by (auto simp: exchanged_def sameConfig_def usable_def seekConn_def exampleConn_def)
  from Conn_readOffset_answered [OF this(1) _ _ this(3), of LastOffset] show ?thesis
    using c1 by (auto simp: Conn_ReadOffsets_def Conn_ReadFirstOffset_def Conn_ReadLastOffset_def cbind_def cret_def okString_def)
qed


text \<open>The exchange of a produce request without compression by a broker of the first message formats.\<close>

definition produceBytes :: "gotime \<Rightarrow> Message list \<Rightarrow> Conn \<Rightarrow> byte list" where
  "produceBytes now msgs c =
     (let deadline = adjustDeadlineForRTT (deadlineOf WDeadline c) now defaultRTT
      in writeRequest produceRequestV2_size produceRequestV2_writeTo [] (cn_clientID c) 0 2 (cn_correlationID c + 1)
           (produceRequestOf (ucast (cn_requiredAcks c)) (deadlineToTimeout deadline now) (cn_topic c) (cn_partition c)
             (itemsOf 0 msgs)))"

lemma encodeProduce_V2:
  assumes "sint (maxVersionOf (cn_apiVersions c) produceRequest) < 3" "sameConfig c c1"
  shows "encodeProduce now None msgs (deadlineOf WDeadline c) (cn_correlationID c + 1) c1 = Conn_Flush (produceBytes now msgs c) c1"
  using assms writeProduceRequestV2_body [where codec = None and msgs = msgs, simplified]
  by (simp add: encodeProduce_def Let_def flushEncoded_def sameConfig_def produceBytes_def CompressionNoneCode_def)

lemma produce_exchange:
  assumes "usable c" "sint (maxVersionOf (cn_apiVersions c) produceRequest) < 3" "length body < 2 ^ 31 - 4"
    and "cn_rbuf c = \<lparr>rd_bytes = responseBytes (cn_correlationID c + 1) body @ rest, rd_err = e\<rparr>"
    and "expectZeroSize readProduceResponse (\<lparr>rd_bytes = body @ rest, rd_err = e\<rparr>, int (length body)) = (res, r, n)"
    and "\<And>q. res \<noteq> Panic q"
  shows "\<exists>c'. writeOperation (encodeProduce now None msgs) (\<lambda>_ n. readRbuf (expectZeroSize readProduceResponse) n) c = Some (res, c') \<and>
    exchanged c (produceBytes now msgs c) r (\<exists>err. res = Err err \<and> \<not> is_KafkaError err) c'"
  unfolding writeOperation_def
  by (rule Conn_do_response [where p = "expectZeroSize readProduceResponse" and n = n])
    (use assms encodeProduce_V2 [OF assms(2)] in simp_all)

lemma length_produceResponse: "okString topic \<Longrightarrow> length (produceResponse topic p throttle) < 2 ^ 31 - 4"
  by (simp add: produceResponse_def wire okString_def produceResponsePartitionV2_writeTo_def Let_def)


text \<open>C33. When the broker answers it with an error code, the write returns that error and leaves the connection
  open, but also leaves the four bytes of the throttle time in the stream. These are then taken for the size
  of the next response and the size of that response for its identifier: no further operation on the connection
  returns, unless the size of the next response happens to be the identifier of the request.\<close>

theorem Conn_writeCompressedMessages_desync:
  assumes "usable c" "sint (maxVersionOf (cn_apiVersions c) produceRequest) < 3" "msgs \<noteq> []"
    and "checkMessages (cn_topic c) now msgs = Ok (msgs', nbytes)"
    and "okString topic" "prPRes_ErrorCode p \<noteq> 0"
    and "cn_rbuf c = \<lparr>rd_bytes = responseBytes (cn_correlationID c + 1) (produceResponse topic p throttle) @
           responseBytes corr body @ rest, rd_err = e\<rparr>"
    and "of_nat (4 + length body) \<noteq> cn_correlationID c + 2"
  shows "\<exists>c'. Conn_writeCompressedMessages now None msgs c = Some (Err (KafkaError (sint (prPRes_ErrorCode p))), c') \<and>
    \<not> nt_closed (cn_net c') \<and> Conn_readOffset t c' = None \<and> Conn_writeCompressedMessages now None msgs c' = None"
proof -
  let ?pre = "PutUint32 1 @ (writeString [] topic @ (PutUint32 1 @ produceResponsePartitionV2_writeTo [] p))"
  let ?next = "responseBytes corr body @ rest"
  have b: "produceResponse topic p throttle = ?pre @ PutUint32 throttle" by (simp add: produceResponse_def)
  from produce_exchange [OF assms(1,2) length_produceResponse [OF assms(5)] assms(7),
      unfolded b, OF expectZeroSize_stops [OF stops_readProduceResponse [OF assms(5,6)]], of now msgs']
  obtain c' where c': "Conn_writeCompressedMessages now None msgs c = Some (Err (KafkaError (sint (prPRes_ErrorCode p))), c')"
    "exchanged c (produceBytes now msgs' c) \<lparr>rd_bytes = PutUint32 throttle @ ?next, rd_err = e\<rparr> False c'"
    using assms(3,4) by (auto simp: Conn_writeCompressedMessages_def cbind_def)
  have peek: "peekResponseSizeAndID (cn_rbuf c') = Ok (throttle, of_nat (4 + length body))"
    using c'(2) by (simp add: exchanged_def peekResponseSizeAndID_def Peek_def bufSize_def responseBytes_def)
  have u: "usable c'" "cn_correlationID c' = cn_correlationID c + 1" "sameConfig c c'"
    using c'(2) assms(1) by (auto simp: exchanged_def usable_def sameConfig_def)
  have other: "of_nat (4 + length body) \<noteq> cn_correlationID c' + 1"
    using u(2) assms(8) by (simp add: add.assoc)
  have "Conn_readOffset t c' = None"
    unfolding Conn_readOffset_def readOperation_def
    by (rule Conn_do_stuck [OF u(1) _ peek other,
          where bs = "writeListOffsetRequestV1 [] (cn_correlationID c' + 1) (cn_clientID c') (cn_topic c') (cn_partition c') t"])
      (simp add: sameConfig_def)
  moreover have "writeOperation (encodeProduce now None msgs') (\<lambda>_ n. readRbuf (expectZeroSize readProduceResponse) n) c' = None"
    unfolding writeOperation_def
    by (rule Conn_do_stuck [OF u(1) _ peek other], rule encodeProduce_V2)
      (use assms(2) u(3) in \<open>simp_all add: sameConfig_def\<close>)
  then have "Conn_writeCompressedMessages now None msgs c' = None"
    using assms(3,4) u(3) by (simp add: Conn_writeCompressedMessages_def cbind_def sameConfig_def)
  ultimately show ?thesis using c' by (auto simp: exchanged_def)
qed

text \<open>Connections whose broker has answered a produce request, with success and with the error 6.\<close>

definition exampleProduced :: "int16 \<Rightarrow> produceResponsePartitionV2" where
  "exampleProduced code = \<lparr>prPRes_Partition = 0, prPRes_ErrorCode = code, prPRes_Offset = 42, prPRes_Timestamp = 0\<rparr>"

definition exampleMessages :: "Message list" where
  "exampleMessages = [zeroMessage\<lparr>msg_Value := Some [1, 2]\<rparr>]"


theorem Conn_writeCompressedMessages_desync_witness:
  "\<exists>c'. Conn_writeCompressedMessages 5 None exampleMessages
      (exampleConn False (responseBytes 1 (produceResponse [116] (exampleProduced 6) 0) @ responseBytes 2 [0, 0, 0, 0] @ [])) =
        Some (Err (KafkaError 6), c') \<and>
    \<not> nt_closed (cn_net c') \<and> Conn_readOffset (- 1) c' = None"
  using Conn_writeCompressedMessages_desync [OF usable_exampleConn, where topic = "[116]" and p = "exampleProduced 6" and now = 5 and
      msgs = exampleMessages and nbytes = 2 and rest = "[]" and e = EOF and throttle = 0 and corr = 2 and body = "[0, 0, 0, 0]" and
      msgs' = "[zeroMessage\<lparr>msg_Value := Some [1, 2], msg_Time := 5\<rparr>]" and t = "- 1"]
  by (auto simp: exampleConn_def maxVersionOf_def exampleMessages_def zeroMessage_def okString_def exampleProduced_def IsZero_def)

text \<open>\<open>CreateTopics\<close> returns the first error code of the broker's answer unless that is
  \<open>TopicAlreadyExists\<close>: when the first topic with an error exists already, the call succeeds although topics
  after it were not created.\<close>

theorem Conn_CreateTopics_first_error:
  assumes "usable c" "createTopicsResponseV0_ok x" "length (createTopicsResponseV0_writeTo [] x) < 2 ^ 31 - 4"
    and "cn_rbuf c = \<lparr>rd_bytes = responseBytes (cn_correlationID c + 1) (createTopicsResponseV0_writeTo [] x) @ rest, rd_err = e\<rparr>"
  shows "\<exists>c'. Conn_CreateTopics now topics c =
      Some (case filter (\<lambda>code. code \<noteq> 0) (map ctErr_ErrorCode (ctRes_TopicErrors x)) of
          code # _ \<Rightarrow> if sint code = TopicAlreadyExists then Ok () else Err (KafkaError (sint code))
        | [] \<Rightarrow> Ok (), c') \<and>
    cn_rbuf c' = \<lparr>rd_bytes = rest, rd_err = e\<rparr> \<and> \<not> nt_closed (cn_net c')"
proof -
  define req where "req = \<lparr>ctReq_Topics = map toCreateTopicsRequestV0Topic topics,
    ctReq_Timeout = requestTimeout (deadlineOf WDeadline c) now 0\<rparr>"
  let ?bs = "writeRequest createTopicsRequestV0_size createTopicsRequestV0_writeTo [] (cn_clientID c) createTopicsRequest 0
    (cn_correlationID c + 1) req"
  let ?send = "\<lambda>deadline id. Conn_writeRequest createTopicsRequestV0_size createTopicsRequestV0_writeTo createTopicsRequest 0 id
    \<lparr>ctReq_Topics = map toCreateTopicsRequestV0Topic topics, ctReq_Timeout = requestTimeout deadline now 0\<rparr>"
  have "?send (deadlineOf WDeadline c) (cn_correlationID c + 1) c1 = Conn_Flush ?bs c1" if "sameConfig c c1" for c1
    using that by (simp add: Conn_writeRequest_def sameConfig_def req_def)
  then obtain c' where c': "Conn_do WDeadline ?send (\<lambda>_ n. readRbuf (expectZeroSize createTopicsResponseV0_readFrom) n) c = Some (Ok x, c')"
    "exchanged c ?bs \<lparr>rd_bytes = rest, rd_err = e\<rparr> False c'"
    using Conn_do_response [OF assms(1) _ assms(4,3), where d = WDeadline and send = ?send and bs = ?bs and res = "Ok x" and
        read = "\<lambda>_ n. readRbuf (expectZeroSize createTopicsResponseV0_readFrom) n" and
        p = "expectZeroSize createTopicsResponseV0_readFrom"] ctRes.read_response [OF assms(2), of rest e] by auto
  then have "Conn_createTopics now \<lparr>ctReq_Topics = map toCreateTopicsRequestV0Topic topics, ctReq_Timeout = 0\<rparr> c =
      Some (case filter (\<lambda>code. code \<noteq> 0) (map ctErr_ErrorCode (ctRes_TopicErrors x)) of
          code # _ \<Rightarrow> Err (KafkaError (sint code)) | [] \<Rightarrow> Ok x, c')"
    unfolding Conn_createTopics_def writeOperation_def by (subst checkCodes_exchange) simp_all
  then show ?thesis
    using c'(2) by (auto simp: Conn_CreateTopics_def exchanged_def split: list.split)
qed

theorem Conn_CreateTopics_first_error_witness:
  "\<exists>c'. Conn_CreateTopics 5 [] (exampleConn False (responseBytes 1 (createTopicsResponseV0_writeTo []
      \<lparr>ctRes_TopicErrors = [\<lparr>ctErr_Topic = [97], ctErr_ErrorCode = 36\<rparr>, \<lparr>ctErr_Topic = [98], ctErr_ErrorCode = 37\<rparr>]\<rparr>) @ [])) =
    Some (Ok (), c')"
  using Conn_CreateTopics_first_error [OF usable_exampleConn, where now = 5 and topics = "[]" and rest = "[]" and e = EOF and
      x = "\<lparr>ctRes_TopicErrors = [\<lparr>ctErr_Topic = [97], ctErr_ErrorCode = 36\<rparr>, \<lparr>ctErr_Topic = [98], ctErr_ErrorCode = 37\<rparr>]\<rparr>"]
  by (auto simp: exampleConn_def createTopicsResponseV0_ok_def okArray_def createTopicsResponseV0TopicError_ok_def okString_def
      createTopicsResponseV0_writeTo_def wire createTopicsResponseV0TopicError_writeTo_def Let_def)

end
