(* ===== verification/MessageReader.thy ===== *)
theory MessageReader
  imports Varint MessageSet
begin

section \<open>Reading message sets (message.go, read.go)\<close>

text \<open>
  The readers of fetched message sets. A \<open>readerStack\<close> is the list of its frames, the innermost one
  first: the first frame reads the decompressed bytes of a message of the next one, and the last frame
  reads from the connection. Where the source pops the last frame and is left with a nil stack, the
  model keeps that frame, of which no byte remains, because the connection goes on with its reader. The callbacks for the key and the value of a message are decoders that get
  the number of bytes, as in the source, and return what the source stores in a captured variable.

  \<open>messageSetReaderV1.readMessage\<close> is a loop that ends when it reaches a message, an error or the end
  of the last frame. Whether it ends depends on the codecs, which may decompress a message to itself:
  \<open>stepV1\<close> is its body and \<open>readMessageV1\<close> the loop, a partial function whose value is \<open>None\<close> when the
  loop runs forever.
\<close>

subsection \<open>Headers of fetch responses (read.go)\<close>

definition checkCount :: "string \<Rightarrow> int32 \<Rightarrow> unit reader" where
  "checkCount what n = (if n \<noteq> 1 then rfail (Errorf what) else rret ())"

definition topicCountError :: string where
  "topicCountError = ''1 kafka topic was expected in the fetch response but the client received %d''"

definition partitionCountError :: string where
  "partitionCountError = ''1 kafka partition was expected in the fetch response but the client received %d''"

definition messageSetSizeError :: string where
  "messageSetSizeError = ''the size of the message set in a fetch response does not match the number of remaining bytes''"

text \<open>The result is the throttle time and the watermark; what remains is in the state of the decoder.\<close>

definition readFetchResponseHeaderV2 :: "(int32 \<times> int64) reader" where
  "readFetchResponseHeaderV2 =
     rbind readInt32 (\<lambda>throttle.
     rbind readInt32 (\<lambda>n.
     rbind (checkCount topicCountError n) (\<lambda>_.
     rbind discardString (\<lambda>_.
     rbind readInt32 (\<lambda>n.
     rbind (checkCount partitionCountError n) (\<lambda>_.
     rbind readInt32 (\<lambda>part.
     rbind readInt16 (\<lambda>errorCode.
     rbind readInt64 (\<lambda>highwaterMarkOffset.
     rbind readInt32 (\<lambda>messageSetSize.
     if errorCode \<noteq> 0 then rfail (KafkaError (sint errorCode))
     else rbind remaining (\<lambda>remain.
       if remain \<noteq> sint messageSetSize then rfail (Errorf messageSetSizeError)
       else rret (throttle, highwaterMarkOffset))))))))))))"

definition readAbortedTransaction :: "(int64 \<times> int64) reader" where
  "readAbortedTransaction =
     rbind readInt64 (\<lambda>producerId. rbind readInt64 (\<lambda>firstOffset. rret (producerId, firstOffset)))"

definition readAbortedTransactions :: "(int64 \<times> int64) list reader" where
  "readAbortedTransactions =
     rbind readArrayLen (\<lambda>n.
       if n = - 1 then rret []
       else if n < 0 then rpanic MakeNegativeLen
       else readTimes (nat n) readAbortedTransaction)"

definition readFetchResponseHeaderV5 :: "(int32 \<times> int64) reader" where
  "readFetchResponseHeaderV5 =
     rbind readInt32 (\<lambda>throttle.
     rbind readInt32 (\<lambda>n.
     rbind (checkCount topicCountError n) (\<lambda>_.
     rbind discardString (\<lambda>_.
     rbind readInt32 (\<lambda>n.
     rbind (checkCount partitionCountError n) (\<lambda>_.
     rbind readInt32 (\<lambda>part.
     rbind readInt16 (\<lambda>errorCode.
     rbind readInt64 (\<lambda>highwaterMarkOffset.
     rbind readInt64 (\<lambda>lastStableOffset.
     rbind readInt64 (\<lambda>logStartOffset.
     rbind readAbortedTransactions (\<lambda>_.
     if errorCode \<noteq> 0 then rfail (KafkaError (sint errorCode))
     else rbind readInt32 (\<lambda>messageSetSize.
       rbind remaining (\<lambda>remain.
         if remain \<noteq> sint messageSetSize then rfail (Errorf messageSetSizeError)
         else rret (throttle, highwaterMarkOffset)))))))))))))))"

definition readMessageHeader :: "(int64 \<times> int8 \<times> int64) reader" where
  "readMessageHeader =
     rbind readInt64 (\<lambda>offset.
     rbind (discardN 8) (\<lambda>_.
     rbind readInt8 (\<lambda>version.
     rbind readInt8 (\<lambda>attributes.
     if version = 0 then rret (offset, attributes, 0)
     else if version = 1 then rbind readInt64 (\<lambda>ts. rret (offset, attributes, ts))
     else rfail (Errorf ''unsupported message version %d found in fetch response'')))))"

subsection \<open>The registry of codecs (compression.go)\<close>

type_synonym codecs = "int8 \<Rightarrow> CompressionCodec option"

definition RegisterCompressionCodec :: "codecs \<Rightarrow> CompressionCodec \<Rightarrow> codecs" where
  "RegisterCompressionCodec codecs c = codecs(codec_Code c := Some c)"

definition resolveCodec :: "codecs \<Rightarrow> int8 \<Rightarrow> (go_error, CompressionCodec) result" where
  "resolveCodec codecs code = (case codecs code of None \<Rightarrow> Err ErrUnknownCodec | Some c \<Rightarrow> Ok c)"

definition compressionCodecMask :: int8 where
  "compressionCodecMask = 0x03"

subsection \<open>The stack of readers\<close>

record frame =
  fr_reader :: bufio_reader
  fr_remain :: int
  fr_base :: int64

type_synonym readerStack = "frame list"

text \<open>A decoder applied to the reader and the remaining size of a frame.\<close>

definition onFrame :: "'a reader \<Rightarrow> frame \<Rightarrow> (go_error, 'a) result \<times> frame" where
  "onFrame p fr =
     (case p (fr_reader fr, fr_remain fr) of
        (res, r, n) \<Rightarrow> (res, fr\<lparr>fr_reader := r, fr_remain := n\<rparr>))"

definition pushFrame :: "byte list \<Rightarrow> int64 \<Rightarrow> readerStack \<Rightarrow> readerStack" where
  "pushFrame decompressed base parents =
     \<lparr>fr_reader = NewReader_bytes decompressed, fr_remain = int (length decompressed), fr_base = base\<rparr> # parents"

function extractOffsetLoop :: "int64 \<Rightarrow> int64 reader" where
  "extractOffsetLoop offset st =
     (if snd st > 0 then
        (case rbind readInt64 (\<lambda>offset. rbind readInt32 (\<lambda>sz. rbind (discardN (sint sz)) (\<lambda>_. rret offset))) st of
           (Ok offset, st') \<Rightarrow> extractOffsetLoop offset st'
         | (Err e, st') \<Rightarrow> (Err e, st')
         | (Panic p, st') \<Rightarrow> (Panic p, st'))
      else (Ok offset, st))"
  by pat_completeness auto

lemma readInt64_decreases: "readInt64 st = (Ok x, st') \<Longrightarrow> nat (snd st') < nat (snd st)"
  by (cases st; cases "fst st")
    (auto simp: readInt64_def peekRead_def Peek_def Discard_def discardN_def rbind_def rlift_def rret_def
      split: if_splits result.splits prod.splits)

lemma extractOffset_decreases:
  assumes "rbind readInt64 (\<lambda>offset. rbind readInt32 (\<lambda>sz. rbind (discardN (sint sz)) (\<lambda>_. rret offset))) st = (Ok x, st')"
    and "0 \<le> snd st"
  shows "nat (snd st') < nat (snd st)"
proof -
  obtain y st1 where 1: "readInt64 st = (Ok y, st1)"
    and 2: "rbind readInt32 (\<lambda>sz. rbind (discardN (sint sz)) (\<lambda>_. rret y)) st1 = (Ok x, st')"
    using assms(1) by (auto simp: rbind_def [of readInt64] split: prod.splits result.splits)
  have "0 \<le> snd st1"
    using took_nonneg [OF accountsD [OF accounts_ints(4) assms(2)]] 1 by simp
  moreover have "accounts (rbind readInt32 (\<lambda>sz. rbind (discardN (sint sz)) (\<lambda>_. rret y)))"
    by (intro accounts_rbind accounts_pure accounts_ints accounts_discardN)
  ultimately have "took st1 st'"
    using accountsD [of _ st1] 2 by (fastforce simp del: split_paired_All)
  then show ?thesis
    using readInt64_decreases [OF 1] by (auto simp: took_def)
qed

termination extractOffsetLoop
  by (relation "measure (\<lambda>(offset, st). nat (snd st))")
    (auto dest!: extractOffset_decreases [OF sym])

declare extractOffsetLoop.simps [simp del]

definition extractOffset :: "int64 \<Rightarrow> byte list \<Rightarrow> (go_error, int64) result" where
  "extractOffset base msgSet =
     (case fst (extractOffsetLoop 0 (NewReader_bytes msgSet, int (length msgSet))) of
        Ok offset \<Rightarrow> Ok (base - offset)
      | Err e \<Rightarrow> Err e
      | Panic p \<Rightarrow> Panic p)"

subsection \<open>The first message formats\<close>

text \<open>What a reader returns for a message: its offset, timestamp and headers, and the results of the callbacks.\<close>

type_synonym ('k, 'v) read_result = "(go_error, int64 \<times> int64 \<times> Header list \<times> 'k \<times> 'v) result"

definition readCompressed :: "CompressionCodec \<Rightarrow> bytes reader" where
  "readCompressed codec =
     rbind (discardN 4) (\<lambda>_.
       readBytesWith (\<lambda>n. rbind (readNewBytes n) (\<lambda>val. rlift (codec_Decode codec (contents val)))))"

text \<open>One round of the loop: \<open>Inl\<close> returns from the method, \<open>Inr\<close> continues with a new stack.\<close>

definition stepV1 ::
  "codecs \<Rightarrow> int64 \<Rightarrow> (int \<Rightarrow> 'k reader) \<Rightarrow> (int \<Rightarrow> 'v reader) \<Rightarrow> readerStack \<Rightarrow>
   (('k, 'v) read_result \<times> readerStack) + readerStack" where
  "stepV1 codecs mn key val stack =
     (case stack of
        [] \<Rightarrow> Inl (Err ErrShortRead, [])
      | fr # parents \<Rightarrow>
          if fr_remain fr = 0 then (if parents = [] then Inl (Err ErrShortRead, [fr]) else Inr parents)
          else (case onFrame readMessageHeader fr of
              (Err e, fr) \<Rightarrow> Inl (Err e, fr # parents)
            | (Panic p, fr) \<Rightarrow> Inl (Panic p, fr # parents)
            | (Ok (offset, attributes, ts), fr) \<Rightarrow>
                let code = attributes AND compressionCodecMask in
                if code \<noteq> 0 then
                  (case resolveCodec codecs code of
                     Err e \<Rightarrow> Inl (Err e, fr # parents)
                   | Panic p \<Rightarrow> Inl (Panic p, fr # parents)
                   | Ok codec \<Rightarrow>
                       (case onFrame (readCompressed codec) fr of
                          (Err e, fr) \<Rightarrow> Inl (Err e, fr # parents)
                        | (Panic p, fr) \<Rightarrow> Inl (Panic p, fr # parents)
                        | (Ok decompressed, fr) \<Rightarrow>
                            (case extractOffset offset (contents decompressed) of
                               Err e \<Rightarrow> Inl (Err e, fr # parents)
                             | Panic p \<Rightarrow> Inl (Panic p, fr # parents)
                             | Ok base \<Rightarrow> Inr (pushFrame (contents decompressed) base (fr # parents)))))
                else
                  let offset = offset + fr_base fr in
                  if sint offset < sint mn then
                    (case onFrame (rbind discardBytes (\<lambda>_. discardBytes)) fr of
                       (Err e, fr) \<Rightarrow> Inl (Err e, fr # parents)
                     | (Panic p, fr) \<Rightarrow> Inl (Panic p, fr # parents)
                     | (Ok _, fr) \<Rightarrow> Inr (fr # parents))
                  else
                    (case onFrame (rbind (readBytesWith key) (\<lambda>k. rbind (readBytesWith val) (\<lambda>v.
                        rret (offset, ts, [], k, v)))) fr of
                       (res, fr) \<Rightarrow> Inl (res, fr # parents))))"

partial_function (option) loopV1 :: "(readerStack \<Rightarrow> 'r + readerStack) \<Rightarrow> readerStack \<Rightarrow> 'r option" where
  "loopV1 body stack = (case body stack of Inl r \<Rightarrow> Some r | Inr stack' \<Rightarrow> loopV1 body stack')"

definition readMessageV1 ::
  "codecs \<Rightarrow> int64 \<Rightarrow> (int \<Rightarrow> 'k reader) \<Rightarrow> (int \<Rightarrow> 'v reader) \<Rightarrow> readerStack \<Rightarrow>
   (('k, 'v) read_result \<times> readerStack) option" where
  "readMessageV1 codecs mn key val stack = loopV1 (stepV1 codecs mn key val) stack"

definition remainingV1 :: "readerStack \<Rightarrow> int" where
  "remainingV1 stack = (\<Sum>fr\<leftarrow>stack. fr_remain fr)"

definition discardV1 :: "readerStack \<Rightarrow> (go_error, unit) result \<times> readerStack" where
  "discardV1 stack =
     (if stack = [] then (Ok (), [])
      else case onFrame (discardN (fr_remain (last stack))) (last stack) of (res, fr) \<Rightarrow> (res, [fr]))"

subsection \<open>The second message format\<close>

record messageSetHeaderV2 =
  h2_firstOffset :: int64
  h2_length :: int32
  h2_partitionLeaderEpoch :: int32
  h2_magic :: int8
  h2_crc :: int32
  h2_batchAttributes :: int16
  h2_lastOffsetDelta :: int32
  h2_firstTimestamp :: int64
  h2_maxTimestamp :: int64
  h2_producerId :: int64
  h2_producerEpoch :: int16
  h2_firstSequence :: int32

definition compression :: "messageSetHeaderV2 \<Rightarrow> int8" where
  "compression h = ucast (h2_batchAttributes h AND 7)"

definition timestampType :: "messageSetHeaderV2 \<Rightarrow> int8" where
  "timestampType h = ucast (h2_batchAttributes h AND 8)"

definition transactionType :: "messageSetHeaderV2 \<Rightarrow> int8" where
  "transactionType h = ucast (h2_batchAttributes h AND 16)"

definition controlType :: "messageSetHeaderV2 \<Rightarrow> int8" where
  "controlType h = ucast (h2_batchAttributes h AND 32)"

text \<open>
  The header of a batch and the number of its records. A header that could not be read to its end is
  not stored: the batch does not read another message after that error.
\<close>

definition readHeaderV2 :: "(messageSetHeaderV2 \<times> int) reader" where
  "readHeaderV2 =
     rbind readInt64 (\<lambda>firstOffset.
     rbind readInt32 (\<lambda>len.
     rbind readInt32 (\<lambda>partitionLeaderEpoch.
     rbind readInt8 (\<lambda>magic.
     rbind readInt32 (\<lambda>crc.
     rbind readInt16 (\<lambda>batchAttributes.
     rbind readInt32 (\<lambda>lastOffsetDelta.
     rbind readInt64 (\<lambda>firstTimestamp.
     rbind readInt64 (\<lambda>maxTimestamp.
     rbind readInt64 (\<lambda>producerId.
     rbind readInt16 (\<lambda>producerEpoch.
     rbind readInt32 (\<lambda>firstSequence.
     rbind readInt32 (\<lambda>messageCount.
     rret (\<lparr>h2_firstOffset = firstOffset, h2_length = len, h2_partitionLeaderEpoch = partitionLeaderEpoch,
            h2_magic = magic, h2_crc = crc, h2_batchAttributes = batchAttributes,
            h2_lastOffsetDelta = lastOffsetDelta, h2_firstTimestamp = firstTimestamp,
            h2_maxTimestamp = maxTimestamp, h2_producerId = producerId, h2_producerEpoch = producerEpoch,
            h2_firstSequence = firstSequence\<rparr>, sint messageCount))))))))))))))"

record messageSetReaderV2 =
  v2_stack :: readerStack
  v2_messageCount :: int
  v2_header :: messageSetHeaderV2

text \<open>
  The records of a compressed batch are decompressed from what \<open>Peek\<close> returns and a frame for them is
  pushed on the stack.
\<close>

definition peekCompressed :: "CompressionCodec \<Rightarrow> messageSetHeaderV2 \<Rightarrow> bytes reader" where
  "peekCompressed codec h st =
     (let (r, sz) = st; batchRemain = sint (h2_length h - 49) in
      if batchRemain > sz then (Err ErrShortRead, st)
      else (case Peek r batchRemain of
          (_, Some e) \<Rightarrow> (Err e, st)
        | (b, None) \<Rightarrow>
            rbind (rlift (codec_Decode codec b)) (\<lambda>decompressed.
              rbind (discardN batchRemain) (\<lambda>_. rret decompressed)) st))"

definition startBatch ::
  "codecs \<Rightarrow> messageSetReaderV2 \<Rightarrow> (go_error, unit) result \<times> messageSetReaderV2" where
  "startBatch codecs r =
     (case v2_stack r of
        [] \<Rightarrow> (Panic NilDereference, r)
      | fr # parents \<Rightarrow>
          let (fr, parents) =
                (case parents of
                   p # ps \<Rightarrow> if fr_remain fr = 0 then (p, ps) else (fr, parents)
                 | [] \<Rightarrow> (fr, parents))
          in (case onFrame readHeaderV2 fr of
              (Err e, fr) \<Rightarrow> (Err e, r\<lparr>v2_stack := fr # parents\<rparr>)
            | (Panic p, fr) \<Rightarrow> (Panic p, r\<lparr>v2_stack := fr # parents\<rparr>)
            | (Ok (h, n), fr) \<Rightarrow>
                let r = r\<lparr>v2_stack := fr # parents, v2_header := h, v2_messageCount := n\<rparr> in
                if compression h \<noteq> 0 then
                  (case resolveCodec codecs (compression h) of
                     Err e \<Rightarrow> (Err e, r)
                   | Panic p \<Rightarrow> (Panic p, r)
                   | Ok codec \<Rightarrow>
                       (case onFrame (peekCompressed codec h) fr of
                          (Err e, fr) \<Rightarrow> (Err e, r\<lparr>v2_stack := fr # parents\<rparr>)
                        | (Panic p, fr) \<Rightarrow> (Panic p, r\<lparr>v2_stack := fr # parents\<rparr>)
                        | (Ok decompressed, fr) \<Rightarrow>
                            (Ok (), r\<lparr>v2_stack := pushFrame (contents decompressed) (- 1) (fr # parents)\<rparr>)))
                else (Ok (), r)))"

definition readRecordHeader :: "Header reader" where
  "readRecordHeader =
     rbind readVarInt (\<lambda>keyLen.
     rbind (readNewString (sint keyLen)) (\<lambda>key.
     rbind readVarInt (\<lambda>valLen.
     rbind (readNewBytes (sint valLen)) (\<lambda>val.
     rret \<lparr>hdr_Key = key, hdr_Value = val\<rparr>))))"

definition readRecord ::
  "(int \<Rightarrow> 'k reader) \<Rightarrow> (int \<Rightarrow> 'v reader) \<Rightarrow> (int64 \<times> int64 \<times> Header list \<times> 'k \<times> 'v) reader" where
  "readRecord key val =
     rbind readVarInt (\<lambda>len.
     rbind readInt8 (\<lambda>attrs.
     rbind readVarInt (\<lambda>timestampDelta.
     rbind readVarInt (\<lambda>offsetDelta.
     rbind readVarInt (\<lambda>keyLen.
     rbind (key (sint keyLen)) (\<lambda>k.
     rbind readVarInt (\<lambda>valueLen.
     rbind (val (sint valueLen)) (\<lambda>v.
     rbind readVarInt (\<lambda>headerCount.
     if sint headerCount < 0 then rpanic MakeNegativeLen
     else rbind (readTimes (nat (sint headerCount)) readRecordHeader) (\<lambda>headers.
       rret (offsetDelta, timestampDelta, headers, k, v)))))))))))"

definition readMessageV2 ::
  "codecs \<Rightarrow> int64 \<Rightarrow> (int \<Rightarrow> 'k reader) \<Rightarrow> (int \<Rightarrow> 'v reader) \<Rightarrow> messageSetReaderV2 \<Rightarrow>
   ('k, 'v) read_result \<times> messageSetReaderV2" where
  "readMessageV2 codecs mn key val r =
     (case (if v2_messageCount r = 0 then startBatch codecs r else (Ok (), r)) of
        (Err e, r) \<Rightarrow> (Err e, r)
      | (Panic p, r) \<Rightarrow> (Panic p, r)
      | (Ok _, r) \<Rightarrow>
          (case v2_stack r of
             [] \<Rightarrow> (Panic NilDereference, r)
           | fr # parents \<Rightarrow>
               (case onFrame (readRecord key val) fr of
                  (Err e, fr) \<Rightarrow> (Err e, r\<lparr>v2_stack := fr # parents\<rparr>)
                | (Panic p, fr) \<Rightarrow> (Panic p, r\<lparr>v2_stack := fr # parents\<rparr>)
                | (Ok (offsetDelta, timestampDelta, headers, k, v), fr) \<Rightarrow>
                    (Ok (h2_firstOffset (v2_header r) + offsetDelta, h2_firstTimestamp (v2_header r) + timestampDelta,
                         headers, k, v),
                     r\<lparr>v2_stack := fr # parents, v2_messageCount := v2_messageCount r - 1\<rparr>))))"

definition remainingV2 :: "messageSetReaderV2 \<Rightarrow> int" where
  "remainingV2 r = (case v2_stack r of [] \<Rightarrow> 0 | fr # _ \<Rightarrow> fr_remain fr)"

definition discardV2 :: "messageSetReaderV2 \<Rightarrow> (go_error, unit) result \<times> messageSetReaderV2" where
  "discardV2 r =
     (case v2_stack r of
        [] \<Rightarrow> (Panic NilDereference, r)
      | fr # parents \<Rightarrow>
          (case onFrame (discardN (fr_remain fr)) fr of (res, fr) \<Rightarrow> (res, r\<lparr>v2_stack := fr # parents\<rparr>)))"

subsection \<open>Either format\<close>

datatype messageSetReader = EmptySet | SetV1 readerStack | SetV2 messageSetReaderV2

definition zeroHeaderV2 :: messageSetHeaderV2 where
  "zeroHeaderV2 = \<lparr>h2_firstOffset = 0, h2_length = 0, h2_partitionLeaderEpoch = 0, h2_magic = 0, h2_crc = 0,
     h2_batchAttributes = 0, h2_lastOffsetDelta = 0, h2_firstTimestamp = 0, h2_maxTimestamp = 0,
     h2_producerId = 0, h2_producerEpoch = 0, h2_firstSequence = 0\<rparr>"

definition newMessageSetReader :: "bufio_reader \<Rightarrow> int \<Rightarrow> (go_error, messageSetReader) result" where
  "newMessageSetReader reader remain =
     (let headerLength = 8 + 4 + 4 + 1 in
      if headerLength > remain then Err ErrShortRead
      else (case Peek reader headerLength of
          (_, Some e) \<Rightarrow> Err e
        | (b, None) \<Rightarrow>
            let version = b ! nat (headerLength - 1);
                stack = [\<lparr>fr_reader = reader, fr_remain = remain, fr_base = 0\<rparr>]
            in if version = 0 \<or> version = 1 then Ok (SetV1 stack)
               else if version = 2 then Ok (SetV2 \<lparr>v2_stack = stack, v2_messageCount = 0, v2_header = zeroHeaderV2\<rparr>)
               else Err (Errorf ''unsupported message version %d found in fetch response'')))"

fun messageSetReader_readMessage ::
  "codecs \<Rightarrow> int64 \<Rightarrow> (int \<Rightarrow> 'k reader) \<Rightarrow> (int \<Rightarrow> 'v reader) \<Rightarrow> messageSetReader \<Rightarrow>
   (('k, 'v) read_result \<times> messageSetReader) option" where
  "messageSetReader_readMessage codecs mn key val EmptySet = Some (Err ErrShortRead, EmptySet)"
| "messageSetReader_readMessage codecs mn key val (SetV1 stack) =
     map_option (map_prod id SetV1) (readMessageV1 codecs mn key val stack)"
| "messageSetReader_readMessage codecs mn key val (SetV2 r) =
     Some (map_prod id SetV2 (readMessageV2 codecs mn key val r))"

fun messageSetReader_remaining :: "messageSetReader \<Rightarrow> int" where
  "messageSetReader_remaining EmptySet = 0"
| "messageSetReader_remaining (SetV1 stack) = remainingV1 stack"
| "messageSetReader_remaining (SetV2 r) = remainingV2 r"

fun messageSetReader_discard :: "messageSetReader \<Rightarrow> (go_error, unit) result \<times> messageSetReader" where
  "messageSetReader_discard EmptySet = (Ok (), EmptySet)"
| "messageSetReader_discard (SetV1 stack) = map_prod id SetV1 (discardV1 stack)"
| "messageSetReader_discard (SetV2 r) = map_prod id SetV2 (discardV2 r)"

subsection \<open>Decoding one message\<close>

text \<open>A frame whose remaining bytes are \<open>bs\<close>; more bytes of the stream may follow them.\<close>

definition frameOf :: "byte list \<Rightarrow> byte list \<Rightarrow> go_error \<Rightarrow> int64 \<Rightarrow> frame" where
  "frameOf bs rest e base =
     \<lparr>fr_reader = \<lparr>rd_bytes = bs @ rest, rd_err = e\<rparr>, fr_remain = int (length bs), fr_base = base\<rparr>"

lemma frameOf_simps [simp]:
  "fr_remain (frameOf bs rest e base) = int (length bs)" "fr_base (frameOf bs rest e base) = base"
  by (simp_all add: frameOf_def)

lemma pushFrame_eq: "pushFrame bs base parents = frameOf bs [] EOF base # parents"
  by (simp add: pushFrame_def frameOf_def NewReader_bytes_def)

lemma onFrame_parses:
  assumes "parses p as x"
  shows "onFrame p (frameOf (as @ bs) rest e base) = (Ok x, frameOf bs rest e base)"
  using parsesD [OF assms, of "int (length bs)" _ "bs @ rest" e] by (simp add: onFrame_def frameOf_def)

lemma parses_readMessageHeader [parse]:
  "parses readMessageHeader (PutUint64 off @ PutUint32 sz @ PutUint32 crc @ [1] @ [attrs] @ PutUint64 ts) (off, attrs, ts)"
proof -
  have "parses (discardN 8) (PutUint32 sz @ PutUint32 crc) ()"
    using parses_discardN [of "PutUint32 sz @ PutUint32 crc"] by simp
  then have "parses readMessageHeader (PutUint64 off @ (PutUint32 sz @ PutUint32 crc) @ [1] @ [attrs] @ PutUint64 ts) (off, attrs, ts)"
    unfolding readMessageHeader_def
    by (intro parses_rbind [OF parse_ints(4)] parses_rbind [of "discardN 8"] parses_rbind [OF parse_ints(1)])
      (auto intro: parses_rbind_ret [OF parse_ints(4)])
  then show ?thesis by simp
qed

lemma item_bytes:
  "messageSetItem_writeTo [] (itemOf off attrs time key val) =
     (PutUint64 off @ PutUint32 (msgSize key val) @ PutUint32 (crc32OfMessage 1 attrs (timestamp time) key val) @
      [1] @ [attrs] @ PutUint64 (timestamp time)) @ writeBytes [] key @ writeBytes [] val"
  by (simp add: writeMessage_eq [symmetric] writeMessage_def Let_def magicByte_def wire)

end
