(* ===== verification/MessageReaderV1.thy ===== *)
theory MessageReaderV1
  imports MessageReader
begin

section \<open>Reading back sets of the first message formats\<close>

text \<open>
  What \<open>messageSetReaderV1.readMessage\<close> returns on the bytes of a message set that the client wrote,
  uncompressed or compressed.
\<close>

subsection \<open>One round of the loop\<close>

text \<open>The bytes of the messages of a set, and the lengths that its encoding can express.\<close>

definition setBytes :: "Message list \<Rightarrow> byte list" where
  "setBytes msgs = messageSet_writeTo [] (map Message_item msgs)"

definition messageOk :: "Message \<Rightarrow> bool" where
  "messageOk m \<longleftrightarrow> 22 + length (contents (msg_Key m)) + length (contents (msg_Value m)) < 2 ^ 31"

definition itemBytes :: "Message \<Rightarrow> byte list" where
  "itemBytes m = messageSetItem_writeTo [] (Message_item m)"

lemma setBytes_simps [simp]: "setBytes [] = []" "setBytes (m # ms) = itemBytes m @ setBytes ms"
  by (simp_all add: setBytes_def itemBytes_def messageSet_writeTo_def msi.fold_writeTo)

lemma itemBytes_not_Nil [simp]: "itemBytes m \<noteq> []"
  by (simp add: itemBytes_def Message_item_eq item_bytes)

lemma setBytes_Nil [simp]: "setBytes ms = [] \<longleftrightarrow> ms = []"
  by (cases ms) simp_all

lemma readBytesWith_readNewBytes: "readBytesWith readNewBytes = readBytes"
  by (simp add: readBytes_def)

lemma parses_readBytes:
  "length (contents b) < 2 ^ 31 \<Longrightarrow> parses readBytes (writeBytes [] b) (nilEmpty b)"
  using parse_readBytes [of b] by (simp add: wire)

lemma parses_discardBytes:
  assumes "length (contents b) < 2 ^ 31"
  shows "parses discardBytes (writeBytes [] b) ()"
proof -
  have "parses (if (if b = None then - 1 else int (length (contents b))) < 0 then rret ()
      else discardN (if b = None then - 1 else int (length (contents b)))) (contents b) ()"
    using parses_discardN [of "contents b"] by (cases b) (simp_all add: parses_rret)
  from parses_readBytesWith [where cb = "\<lambda>n. if n < 0 then rret () else discardN n", OF assms this]
  show ?thesis unfolding discardBytes_def by (simp add: wire)
qed

lemma header_frame:
  assumes "messageOk m"
  shows "onFrame readMessageHeader (frameOf (itemBytes m @ bs) rest e base) =
    (Ok (msg_Offset m, 0, timestamp (msg_Time m)),
     frameOf (writeBytes [] (msg_Key m) @ writeBytes [] (msg_Value m) @ bs) rest e base)"
  unfolding itemBytes_def Message_item_eq item_bytes append_assoc
  using onFrame_parses [OF parses_readMessageHeader] by (simp only: append_assoc)

text \<open>
  The first message of the frame is returned when its offset is not below the one asked for, and
  skipped otherwise.
\<close>

lemma stepV1_message:
  assumes "messageOk m"
  shows "stepV1 codecs mn readNewBytes readNewBytes (frameOf (itemBytes m @ bs) rest e base # parents) =
    (if sint (msg_Offset m + base) < sint mn then Inr (frameOf bs rest e base # parents)
     else Inl (Ok (msg_Offset m + base, timestamp (msg_Time m), [], nilEmpty (msg_Key m), nilEmpty (msg_Value m)),
       frameOf bs rest e base # parents))"
proof -
  let ?kv = "writeBytes [] (msg_Key m) @ writeBytes [] (msg_Value m)"
  have len: "length (contents (msg_Key m)) < 2 ^ 31" "length (contents (msg_Value m)) < 2 ^ 31"
    using assms by (simp_all add: messageOk_def)
  have skip: "onFrame (rbind discardBytes (\<lambda>_. discardBytes)) (frameOf (?kv @ bs) rest e base) =
      (Ok (), frameOf bs rest e base)"
    by (intro onFrame_parses parses_rbind [where x = "()"] parses_discardBytes len)
  have kv: "onFrame (rbind (readBytesWith readNewBytes) (\<lambda>k. rbind (readBytesWith readNewBytes) (\<lambda>v.
      rret (off, ts, [] :: Header list, k, v)))) (frameOf (?kv @ bs) rest e base) =
      (Ok (off, ts, [], nilEmpty (msg_Key m), nilEmpty (msg_Value m)), frameOf bs rest e base)" for off ts :: int64
    unfolding readBytesWith_readNewBytes
    by (intro onFrame_parses parses_rbind [OF parses_readBytes] parses_rbind_ret [OF parses_readBytes] len refl)
  have "int (length (itemBytes m)) + int (length bs) \<noteq> 0"
    using itemBytes_not_Nil [of m] by (simp add: of_nat_add [symmetric] del: of_nat_add)
  then show ?thesis
    using header_frame [OF assms, of bs rest e base] skip kv
    by (simp add: stepV1_def Let_def)
qed

lemma stepV1_end:
  "stepV1 codecs mn key val (frameOf [] rest e base # parents) =
     (if parents = [] then Inl (Err ErrShortRead, [frameOf [] rest e base]) else Inr parents)"
  by (simp add: stepV1_def)

subsection \<open>An uncompressed set\<close>

lemma readMessageV1_unfold:
  "readMessageV1 codecs mn key val stack =
     (case stepV1 codecs mn key val stack of
        Inl r \<Rightarrow> Some r
      | Inr stack' \<Rightarrow> readMessageV1 codecs mn key val stack')"
  unfolding readMessageV1_def by (rule loopV1.simps)

lemma readMessageV1_set:
  assumes "list_all messageOk msgs"
  shows "readMessageV1 codecs mn readNewBytes readNewBytes (frameOf (setBytes msgs) rest e base # parents) =
    (case dropWhile (\<lambda>m. sint (msg_Offset m + base) < sint mn) msgs of
       m # ms \<Rightarrow> Some (Ok (msg_Offset m + base, timestamp (msg_Time m), [], nilEmpty (msg_Key m), nilEmpty (msg_Value m)),
         frameOf (setBytes ms) rest e base # parents)
     | [] \<Rightarrow> (if parents = [] then Some (Err ErrShortRead, [frameOf [] rest e base])
         else readMessageV1 codecs mn readNewBytes readNewBytes parents))"
  using assms
proof (induction msgs)
  case Nil
  then show ?case
    by (subst readMessageV1_unfold) (simp add: stepV1_end)
next
  case (Cons m ms)
  then show ?case
    by (subst readMessageV1_unfold) (simp add: stepV1_message)
qed

subsection \<open>A compressed set\<close>

lemma length_itemBytes: "length (itemBytes m) = 34 + length (contents (msg_Key m)) + length (contents (msg_Value m))"
  by (simp add: itemBytes_def Message_item_eq item_bytes wire)

lemma sint_msgSize:
  "messageOk m \<Longrightarrow> sint (msgSize (msg_Key m) (msg_Value m)) = 22 + int (length (contents (msg_Key m))) + int (length (contents (msg_Value m)))"
proof -
  assume "messageOk m"
  then have "sint (of_nat (22 + length (contents (msg_Key m)) + length (contents (msg_Value m))) :: int32) =
      int (22 + length (contents (msg_Key m)) + length (contents (msg_Value m)))"
    by (intro sint_of_nat_small) (simp add: messageOk_def)
  then show ?thesis by (simp add: msgSize_def sizeofBytes_def add.assoc)
qed

lemma parses_extract:
  assumes "messageOk m"
  shows "parses (rbind readInt64 (\<lambda>offset. rbind readInt32 (\<lambda>sz. rbind (discardN (sint sz)) (\<lambda>_. rret offset))))
    (itemBytes m) (msg_Offset m)"
proof -
  let ?tail = "(PutUint32 (crc32OfMessage 1 0 (timestamp (msg_Time m)) (msg_Key m) (msg_Value m)) @
      [1] @ [0] @ PutUint64 (timestamp (msg_Time m))) @ writeBytes [] (msg_Key m) @ writeBytes [] (msg_Value m)"
  have bytes: "itemBytes m = PutUint64 (msg_Offset m) @ PutUint32 (msgSize (msg_Key m) (msg_Value m)) @ ?tail"
    by (simp add: itemBytes_def Message_item_eq item_bytes)
  have "sint (msgSize (msg_Key m) (msg_Value m)) = int (length ?tail)"
    by (simp add: sint_msgSize [OF assms] wire)
  then have "parses (discardN (sint (msgSize (msg_Key m) (msg_Value m)))) ?tail ()"
    using parses_discardN [of ?tail] by simp
  then show ?thesis
    unfolding bytes
    by (intro parses_rbind [OF parse_ints(4)] parses_rbind [OF parse_ints(3)] parses_rbind_ret) simp_all
qed

lemma extractOffsetLoop_set:
  assumes "list_all messageOk msgs"
  shows "fst (extractOffsetLoop off (NewReader_bytes (setBytes msgs), int (length (setBytes msgs)))) =
    Ok (if msgs = [] then off else msg_Offset (last msgs))"
  using assms
proof (induction msgs arbitrary: off)
  case Nil
  then show ?case by (simp add: extractOffsetLoop.simps)
next
  case (Cons m ms)
  have "rbind readInt64 (\<lambda>offset. rbind readInt32 (\<lambda>sz. rbind (discardN (sint sz)) (\<lambda>_. rret offset)))
      (NewReader_bytes (setBytes (m # ms)), int (length (setBytes (m # ms)))) =
      (Ok (msg_Offset m), NewReader_bytes (setBytes ms), int (length (setBytes ms)))"
    using parsesD [OF parses_extract, of m "int (length (setBytes ms))" _ "setBytes ms" EOF] Cons.prems
    by (simp add: NewReader_bytes_def)
  moreover have "0 < int (length (itemBytes m)) + int (length (setBytes ms))"
    by (simp add: length_itemBytes)
  ultimately show ?case
    using Cons by (subst extractOffsetLoop.simps) simp
qed

lemma extractOffset_set:
  "list_all messageOk msgs \<Longrightarrow> msgs \<noteq> [] \<Longrightarrow> extractOffset base (setBytes msgs) = Ok (base - msg_Offset (last msgs))"
  by (simp add: extractOffset_def extractOffsetLoop_set)

text \<open>
  The container of a compressed set: a message whose attributes name the codec, without key, whose value
  the codec decodes to the bytes of the set.
\<close>

lemma stepV1_compressed:
  assumes code: "attrs AND compressionCodecMask = code" "code \<noteq> 0" "codecs code = Some codec"
    and val: "length (contents val) < 2 ^ 31" "codec_Decode codec (contents val) = Ok decompressed"
    and set: "contents decompressed = setBytes msgs" "list_all messageOk msgs" "msgs \<noteq> []"
  shows "stepV1 codecs mn key value
      (frameOf (messageSetItem_writeTo [] (itemOf off attrs time None val) @ bs) rest e base # parents) =
    Inr (frameOf (setBytes msgs) [] EOF (off - msg_Offset (last msgs)) # frameOf bs rest e base # parents)"
proof -
  let ?io = "\<lambda>bs. frameOf bs rest e base"
  have header: "onFrame readMessageHeader (?io (messageSetItem_writeTo [] (itemOf off attrs time None val) @ bs)) =
      (Ok (off, attrs, timestamp time), ?io (writeBytes [] None @ writeBytes [] val @ bs))"
    unfolding item_bytes append_assoc
    using onFrame_parses [OF parses_readMessageHeader] by (simp only: append_assoc)
  have "parses (\<lambda>st. rbind (readNewBytes n) (\<lambda>v. rlift (codec_Decode codec (contents v))) st) (contents val) decompressed"
    if "n = (if val = None then - 1 else int (length (contents val)))" for n
  proof -
    have "parses (readNewBytes n) (contents val) (nilEmpty val)"
      using that parses_readNewBytes [of "contents val"]
      by (cases val) (auto simp: nilEmpty_def parses_def readNewBytes_def)
    moreover have "parses (rlift (codec_Decode codec (contents (nilEmpty val)))) [] decompressed"
      using val(2) by (simp add: parses_def rlift_def)
    ultimately show ?thesis
      using parses_rbind by fastforce
  qed
  then have "parses (readBytesWith (\<lambda>n. rbind (readNewBytes n) (\<lambda>v. rlift (codec_Decode codec (contents v)))))
      (writeBytes [] val) decompressed"
    using parses_readBytesWith [OF val(1), where cb = "\<lambda>n. rbind (readNewBytes n) (\<lambda>v. rlift (codec_Decode codec (contents v)))"]
    by (simp add: wire)
  moreover have "parses (discardN 4) (writeBytes [] None) ()"
    using parses_discardN [of "writeBytes [] None"] by (simp add: wire)
  ultimately have "parses (readCompressed codec) (writeBytes [] None @ writeBytes [] val) decompressed"
    unfolding readCompressed_def by (intro parses_rbind)
  from onFrame_parses [OF this, of bs rest e base]
  have payload: "onFrame (readCompressed codec) (?io (writeBytes [] None @ writeBytes [] val @ bs)) =
      (Ok decompressed, ?io bs)"
    by simp
  have "int (length (messageSetItem_writeTo [] (itemOf off attrs time None val))) + int (length bs) \<noteq> 0"
    by (simp add: item_bytes)
  then show ?thesis
    using code set by (simp add: stepV1_def header payload resolveCodec_def Let_def extractOffset_set pushFrame_eq)
qed

text \<open>The messages that \<open>compress\<close> put in a container are read with the offsets the broker gave them.\<close>

lemma setBytes_renumber: "setBytes (renumber msgs) = uncompressedSet msgs"
  by (simp add: setBytes_def uncompressedSet_eq)

lemma list_all_renumber: "list_all messageOk (renumber msgs) = list_all messageOk msgs"
proof -
  have "list_all messageOk (map (\<lambda>(i, msg). msg\<lparr>msg_Offset := of_nat i\<rparr>) (enumerate n msgs)) = list_all messageOk msgs" for n
    by (induction msgs arbitrary: n) (simp_all add: messageOk_def)
  then show ?thesis by (simp add: renumber_def)
qed

lemma renumber_Nil [simp]: "renumber msgs = [] \<longleftrightarrow> msgs = []"
  by (cases msgs) (simp_all add: renumber_def)

lemma length_renumber [simp]: "length (renumber msgs) = length msgs"
  by (simp add: renumber_def)

lemma nth_renumber: "i < length msgs \<Longrightarrow> renumber msgs ! i = (msgs ! i)\<lparr>msg_Offset := of_nat i\<rparr>"
  by (simp add: renumber_def nth_enumerate_eq)

lemma last_renumber: "msgs \<noteq> [] \<Longrightarrow> msg_Offset (last (renumber msgs)) = of_nat (length msgs - 1)"
  using nth_renumber [of "length msgs - 1" msgs] by (simp add: last_conv_nth)

subsection \<open>Properties\<close>

text \<open>C25. Reading a message set that the client wrote returns the first message whose offset is not below
  the requested one, with its offset, timestamp, key and value, and leaves the reader at the next message;
  at the end of the set the read fails with \<open>errShortRead\<close>. The loop always returns.\<close>

theorem readMessageV1_uncompressed:
  assumes "list_all messageOk msgs"
  shows "readMessageV1 codecs mn readNewBytes readNewBytes
      [frameOf (messageSet_writeTo [] (map Message_item msgs)) rest e 0] =
    Some (case dropWhile (\<lambda>m. sint (msg_Offset m) < sint mn) msgs of
        m # ms \<Rightarrow> (Ok (msg_Offset m, timestamp (msg_Time m), [], nilEmpty (msg_Key m), nilEmpty (msg_Value m)),
          [frameOf (messageSet_writeTo [] (map Message_item ms)) rest e 0])
      | [] \<Rightarrow> (Err ErrShortRead, [frameOf [] rest e 0]))"
  using readMessageV1_set [OF assms, of codecs mn rest e 0 "[]"]
  by (cases "dropWhile (\<lambda>m. sint (msg_Offset m) < sint mn) msgs")
    (simp_all add: setBytes_def [symmetric] del: dropWhile_eq_Nil_conv)

theorem readMessageV1_uncompressed_witness:
  "\<exists>st. readMessageV1 (\<lambda>_. None) 5 readNewBytes readNewBytes
      [frameOf (messageSet_writeTo [] (map Message_item
        [zeroMessage\<lparr>msg_Offset := 4\<rparr>, zeroMessage\<lparr>msg_Offset := 5, msg_Value := Some [7]\<rparr>])) [] EOF 0] =
    Some (Ok (5, 0, [], None, Some [7]), st)"
  using readMessageV1_uncompressed [of "[zeroMessage\<lparr>msg_Offset := 4\<rparr>, zeroMessage\<lparr>msg_Offset := 5, msg_Value := Some [7]\<rparr>]"
      "\<lambda>_. None" 5 "[]" EOF]
  by (simp add: messageOk_def zeroMessage_def timestamp_def IsZero_def nilEmpty_def)



end
