(* ===== verification/MessageReaderV2.thy ===== *)
theory MessageReaderV2
  imports MessageReader RecordBatch
begin

section \<open>Reading back record batches\<close>

text \<open>
  What \<open>messageSetReaderV2.readMessage\<close> returns on the bytes of a batch that the client wrote,
  uncompressed or compressed.
\<close>

subsection \<open>One record\<close>

lemma parses_readNewBytes_nilEmpty:
  "n = int (length (contents b)) \<Longrightarrow> parses (readNewBytes n) (contents b) (nilEmpty b)"
  using parses_readNewBytes [of "contents b"] by (cases b) (auto simp: nilEmpty_def)

lemma sint_len: "n < 2 ^ 62 \<Longrightarrow> sint (of_nat n :: int64) = int n"
  by (intro sint_of_nat_small) simp

text \<open>A header, a message as the reader returns them: empty slices are nil.\<close>

definition nilHeader :: "Header \<Rightarrow> Header" where
  "nilHeader h = h\<lparr>hdr_Value := nilEmpty (hdr_Value h)\<rparr>"

lemma parses_readRecordHeader: "headerOk h \<Longrightarrow> parses readRecordHeader (headerBytes h) (nilHeader h)"
proof -
  assume ok: "headerOk h"
  then have s: "sint (of_nat (length (hdr_Key h)) :: int64) = int (length (hdr_Key h))"
    "sint (of_nat (length (contents (hdr_Value h))) :: int64) = int (length (contents (hdr_Value h)))"
    by (simp_all add: headerOk_def sint_len)
  have "varIntOk (of_nat (length (hdr_Key h)))" "varIntOk (of_nat (length (contents (hdr_Value h))))"
    using ok by (simp_all add: headerOk_def varIntOk_nat)
  note v = this [THEN parse_readVarInt]
  show ?thesis
    unfolding readRecordHeader_def headerBytes_def
    by (intro parses_rbind [OF v(1)] parses_rbind [OF v(2)] parses_rbind [where x = "hdr_Key h"]
        parses_rbind_ret [where x = "nilEmpty (hdr_Value h)"])
      (simp_all add: s parses_readNewString parses_readNewBytes_nilEmpty nilHeader_def)
qed

lemma parses_readRecord:
  assumes ok: "recordOk baseTime offset msg"
  shows "parses (readRecord readNewBytes readNewBytes) (recordBytes a baseTime offset msg)
    (offset, Sub (msg_Time msg) baseTime, map nilHeader (msg_Headers msg), nilEmpty (msg_Key msg), nilEmpty (msg_Value msg))"
proof -
  let ?kl = "length (contents (msg_Key msg))" and ?vl = "length (contents (msg_Value msg))"
    and ?hl = "length (msg_Headers msg)"
  have "?kl < 2 ^ 62" "?vl < 2 ^ 62" "?hl < 2 ^ 62"
    using ok length_headers [of "msg_Headers msg"] by (simp_all add: recordOk_def recordBody_def)
  note s = this [THEN sint_len]
  note v = recordOkD(1-5) [OF ok, THEN parse_readVarInt] recordOkD(6) [OF ok, of a, THEN parse_readVarInt]
  have "parses (readTimes ?hl readRecordHeader) (concat (map headerBytes (msg_Headers msg)))
      (map nilHeader (msg_Headers msg))"
    using ok by (intro parses_readTimes parses_readRecordHeader) (simp add: recordOk_def list_all_iff)
  then have h: "parses (if sint (of_nat ?hl :: int64) < 0 then rpanic MakeNegativeLen
      else rbind (readTimes (nat (sint (of_nat ?hl :: int64))) readRecordHeader) (\<lambda>headers.
        rret (offset, Sub (msg_Time msg) baseTime, headers, nilEmpty (msg_Key msg), nilEmpty (msg_Value msg))))
      (concat (map headerBytes (msg_Headers msg)))
      (offset, Sub (msg_Time msg) baseTime, map nilHeader (msg_Headers msg), nilEmpty (msg_Key msg), nilEmpty (msg_Value msg))"
    unfolding s by (simp add: parses_rbind_ret)
  show ?thesis
    unfolding readRecord_def recordBytes_def Let_def recordBody_def
    by (rule parses_rbind [OF v(6) [unfolded recordBody_def]], rule parses_rbind [OF parse_ints(1)],
        rule parses_rbind [OF v(1)], rule parses_rbind [OF v(2)], rule parses_rbind [OF v(3)],
        rule parses_rbind, rule parses_readNewBytes_nilEmpty, simp only: s,
        rule parses_rbind [OF v(4)], rule parses_rbind, rule parses_readNewBytes_nilEmpty, simp only: s,
        rule parses_rbind [OF v(5)], rule h)
qed

subsection \<open>The header of a batch\<close>

text \<open>The header of the batch that \<open>writeRecordBatch\<close> writes.\<close>

definition batchHeader :: "int16 \<Rightarrow> Message list \<Rightarrow> byte list \<Rightarrow> messageSetHeaderV2" where
  "batchHeader attributes msgs payload =
     \<lparr>h2_firstOffset = 0, h2_length = of_nat (49 + length payload), h2_partitionLeaderEpoch = - 1, h2_magic = 2,
      h2_crc = crc32_Checksum Castagnoli (batchTail attributes msgs payload), h2_batchAttributes = attributes,
      h2_lastOffsetDelta = of_nat (length msgs) - 1, h2_firstTimestamp = timestamp (msg_Time (hd msgs)),
      h2_maxTimestamp = timestamp (msg_Time (last msgs)), h2_producerId = - 1, h2_producerEpoch = - 1,
      h2_firstSequence = - 1\<rparr>"

definition batchHead :: "int16 \<Rightarrow> Message list \<Rightarrow> byte list \<Rightarrow> byte list" where
  "batchHead attributes msgs payload =
     PutUint64 0 @ PutUint32 (of_nat (49 + length payload)) @ PutUint32 (- 1) @ [2] @
     PutUint32 (crc32_Checksum Castagnoli (batchTail attributes msgs payload)) @
     PutUint16 attributes @ PutUint32 (of_nat (length msgs) - 1) @ PutUint64 (timestamp (msg_Time (hd msgs))) @
     PutUint64 (timestamp (msg_Time (last msgs))) @ PutUint64 (- 1) @ PutUint16 (- 1) @ PutUint32 (- 1) @
     PutUint32 (of_nat (length msgs))"

lemma batchBytes_head: "batchBytes attributes msgs payload = batchHead attributes msgs payload @ payload"
  by (simp add: batchBytes_def batchHead_def batchTail_def Let_def)

lemma parses_readHeaderV2:
  assumes "length msgs < 2 ^ 31"
  shows "parses readHeaderV2 (batchHead attributes msgs payload) (batchHeader attributes msgs payload, int (length msgs))"
  unfolding readHeaderV2_def batchHead_def batchHeader_def
  by (rule parses_rbind [OF parse_ints(4)] parses_rbind [OF parse_ints(3)] parses_rbind [OF parse_ints(2)]
      parses_rbind [OF parse_ints(1)] | rule parses_rbind_ret [OF parse_ints(3)])+
    (use sint_of_nat_small [of "length msgs", where ?'a = 32] assms in simp)

subsection \<open>A batch\<close>

text \<open>The state of the reader in the middle of a batch: the records of the messages \<open>ms\<close> remain, the first with offset \<open>i\<close>.\<close>

definition recordsFrom :: "gotime \<Rightarrow> nat \<Rightarrow> Message list \<Rightarrow> byte list" where
  "recordsFrom baseTime i ms = concat (map (\<lambda>(j, m). recordBytes 0 baseTime (of_nat j) m) (enumerate i ms))"

definition recordResult :: "messageSetHeaderV2 \<Rightarrow> gotime \<Rightarrow> nat \<Rightarrow> Message \<Rightarrow> (bytes, bytes) read_result" where
  "recordResult h baseTime i m =
     Ok (h2_firstOffset h + of_nat i, h2_firstTimestamp h + Sub (msg_Time m) baseTime,
         map nilHeader (msg_Headers m), nilEmpty (msg_Key m), nilEmpty (msg_Value m))"

lemma recordsFrom_Cons: "recordsFrom baseTime i (m # ms) = recordBytes 0 baseTime (of_nat i) m @ recordsFrom baseTime (Suc i) ms"
  by (simp add: recordsFrom_def)

lemma recordsBytes_from: "recordsBytes msgs = recordsFrom (msg_Time (hd msgs)) 0 msgs"
  by (simp add: recordsBytes_def recordsFrom_def)

lemma readMessageV2_next:
  assumes "recordOk baseTime (of_nat i) m" "0 < n"
    and "v2_stack r = frameOf (recordsFrom baseTime i (m # ms) @ following) rest e base # parents"
    and "v2_messageCount r = n"
  shows "readMessageV2 codecs mn readNewBytes readNewBytes r =
    (recordResult (v2_header r) baseTime i m,
     r\<lparr>v2_stack := frameOf (recordsFrom baseTime (Suc i) ms @ following) rest e base # parents, v2_messageCount := n - 1\<rparr>)"
proof -
  have "onFrame (readRecord readNewBytes readNewBytes) (frameOf (recordsFrom baseTime i (m # ms) @ following) rest e base) =
      (Ok (of_nat i, Sub (msg_Time m) baseTime, map nilHeader (msg_Headers m), nilEmpty (msg_Key m), nilEmpty (msg_Value m)),
       frameOf (recordsFrom baseTime (Suc i) ms @ following) rest e base)"
    using onFrame_parses [OF parses_readRecord [OF assms(1)]] by (simp add: recordsFrom_Cons)
  then show ?thesis
    using assms(2-4) by (simp add: readMessageV2_def recordResult_def)
qed

lemma startBatch_uncompressed:
  assumes "length msgs < 2 ^ 31" "compression (batchHeader attributes msgs payload) = 0"
  shows "startBatch codecs \<lparr>v2_stack = [frameOf (batchBytes attributes msgs payload @ following) rest e base],
      v2_messageCount = 0, v2_header = h\<rparr> =
    (Ok (), \<lparr>v2_stack = [frameOf (payload @ following) rest e base], v2_messageCount = int (length msgs),
      v2_header = batchHeader attributes msgs payload\<rparr>)"
proof -
  have "onFrame readHeaderV2 (frameOf (batchBytes attributes msgs payload @ following) rest e base) =
      (Ok (batchHeader attributes msgs payload, int (length msgs)), frameOf (payload @ following) rest e base)"
    using onFrame_parses [OF parses_readHeaderV2 [OF assms(1)]] by (simp add: batchBytes_head)
  then show ?thesis
    using assms(2) by (simp add: startBatch_def)
qed

text \<open>
  A compressed batch is decompressed when its payload fits the buffer of the connection, and the read
  fails with \<open>ErrBufferFull\<close> otherwise.
\<close>

lemma startBatch_compressed:
  assumes len: "length msgs < 2 ^ 31" "49 + length payload < 2 ^ 31"
    and codec: "compression (batchHeader attributes msgs payload) = code" "code \<noteq> 0" "codecs code = Some codec"
    and decode: "codec_Decode codec payload = Ok decompressed"
  shows "startBatch codecs \<lparr>v2_stack = [frameOf (batchBytes attributes msgs payload @ following) rest e base],
      v2_messageCount = 0, v2_header = h\<rparr> =
    (if length payload \<le> 4096 then
       (Ok (), \<lparr>v2_stack = [frameOf (contents decompressed) [] EOF (- 1), frameOf following rest e base],
          v2_messageCount = int (length msgs), v2_header = batchHeader attributes msgs payload\<rparr>)
     else (Err ErrBufferFull, \<lparr>v2_stack = [frameOf (payload @ following) rest e base],
          v2_messageCount = int (length msgs), v2_header = batchHeader attributes msgs payload\<rparr>))"
proof -
  let ?h = "batchHeader attributes msgs payload"
  have head: "onFrame readHeaderV2 (frameOf (batchBytes attributes msgs payload @ following) rest e base) =
      (Ok (?h, int (length msgs)), frameOf (payload @ following) rest e base)"
    using onFrame_parses [OF parses_readHeaderV2 [OF len(1)]] by (simp add: batchBytes_head)
  have batchRemain: "sint (h2_length ?h - 49) = int (length payload)"
    using sint_of_nat_small [of "length payload", where ?'a = 32] len(2) by (simp add: batchHeader_def)
  have "onFrame (peekCompressed codec ?h) (frameOf (payload @ following) rest e base) =
      (if length payload \<le> 4096 then (Ok decompressed, frameOf following rest e base)
       else (Err ErrBufferFull, frameOf (payload @ following) rest e base))"
    by (simp add: onFrame_def frameOf_def peekCompressed_def batchRemain Peek_def bufSize_def decode
        rbind_def rlift_def rret_def discardN_def Discard_def)
  then show ?thesis
    using codec head by (simp add: startBatch_def resolveCodec_def pushFrame_eq)
qed

subsection \<open>Reading a whole batch\<close>

text \<open>Successive calls of \<open>readMessage\<close>.\<close>

fun readMessagesV2 ::
  "nat \<Rightarrow> codecs \<Rightarrow> int64 \<Rightarrow> messageSetReaderV2 \<Rightarrow> (bytes, bytes) read_result list \<times> messageSetReaderV2" where
  "readMessagesV2 0 codecs mn r = ([], r)"
| "readMessagesV2 (Suc n) codecs mn r =
     (let (x, r) = readMessageV2 codecs mn readNewBytes readNewBytes r;
          (xs, r) = readMessagesV2 n codecs mn r
      in (x # xs, r))"

lemma readMessagesV2_rest:
  assumes "list_all (\<lambda>(j, m). recordOk baseTime (of_nat j) m) (enumerate i ms)"
    and "v2_stack r = frameOf (recordsFrom baseTime i ms @ following) rest e base # parents"
    and "v2_messageCount r = int (length ms)"
  shows "readMessagesV2 (length ms) codecs mn r =
    (map (\<lambda>(j, m). recordResult (v2_header r) baseTime j m) (enumerate i ms),
     r\<lparr>v2_stack := frameOf following rest e base # parents, v2_messageCount := 0\<rparr>)"
  using assms
proof (induction ms arbitrary: i r)
  case (Cons m ms)
  have step: "readMessageV2 codecs mn readNewBytes readNewBytes r =
      (recordResult (v2_header r) baseTime i m,
       r\<lparr>v2_stack := frameOf (recordsFrom baseTime (Suc i) ms @ following) rest e base # parents,
         v2_messageCount := int (length ms)\<rparr>)"
    using Cons.prems by (subst readMessageV2_next [OF _ _ Cons.prems(2,3)]) simp_all
  let ?r = "r\<lparr>v2_stack := frameOf (recordsFrom baseTime (Suc i) ms @ following) rest e base # parents,
      v2_messageCount := int (length ms)\<rparr>"
  show ?case
    using Cons.prems(1) Cons.IH [of "Suc i" ?r] by (simp add: step)
qed (simp add: recordsFrom_def)

lemma readMessageV2_start:
  assumes "v2_messageCount r = 0" "startBatch codecs r = (Ok (), r')" "v2_messageCount r' \<noteq> 0"
  shows "readMessageV2 codecs mn key val r = readMessageV2 codecs mn key val r'"
  using assms by (simp add: readMessageV2_def)

lemma readMessagesV2_start:
  assumes "v2_messageCount r = 0" "startBatch codecs r = (Ok (), r')" "v2_messageCount r' \<noteq> 0" "0 < n"
  shows "readMessagesV2 n codecs mn r = readMessagesV2 n codecs mn r'"
  using readMessageV2_start [OF assms(1-3), of mn readNewBytes readNewBytes] assms(4) by (cases n) simp_all

lemma ucast_scast_and7: "ucast (scast (c :: int8) AND 7 :: int16) = c AND 7"
  by (rule bit_word_eqI) (auto simp: bit_simps)

subsection \<open>Properties\<close>

text \<open>C27. Reading the batch that a version 3 produce request carries, once per message, returns the messages
  in order with offsets counted from the first, their headers, keys and values, and leaves the reader
  at the end of the batch. Their timestamp is that of the first message in milliseconds plus the difference of
  their times in nanoseconds.\<close>

theorem readMessageV2_uncompressed:
  assumes "recordsOk msgs" "length msgs < 2 ^ 31"
  shows "readMessagesV2 (length msgs) codecs mn
      \<lparr>v2_stack = [frameOf (batchBytes 0 msgs (recordsBytes msgs) @ following) rest e base], v2_messageCount = 0, v2_header = h\<rparr> =
    (map (\<lambda>(i, m). Ok (of_nat i, timestamp (msg_Time (hd msgs)) + Sub (msg_Time m) (msg_Time (hd msgs)),
        map nilHeader (msg_Headers m), nilEmpty (msg_Key m), nilEmpty (msg_Value m))) (enumerate 0 msgs),
     \<lparr>v2_stack = [frameOf following rest e base], v2_messageCount = 0, v2_header = batchHeader 0 msgs (recordsBytes msgs)\<rparr>)"
proof -
  let ?b = "msg_Time (hd msgs)"
  have ok: "list_all (\<lambda>(j, m). recordOk ?b (of_nat j) m) (enumerate 0 msgs)" and ne: "0 < length msgs"
    using assms(1) by (simp_all add: recordsOk_def)
  have "compression (batchHeader 0 msgs (recordsBytes msgs)) = 0"
    by (simp add: compression_def batchHeader_def)
  note start = startBatch_uncompressed [OF assms(2) this, of codecs following rest e base h]
  show ?thesis
    using ne by (subst readMessagesV2_start [OF _ start])
      (simp_all add: readMessagesV2_rest [OF ok] recordsBytes_from recordResult_def batchHeader_def)
qed

theorem readMessageV2_uncompressed_witness:
  "\<exists>st. readMessagesV2 1 (\<lambda>_. None) 0
      \<lparr>v2_stack = [frameOf (batchBytes 0 [exampleMessage] (recordsBytes [exampleMessage]) @ []) [] EOF 0],
       v2_messageCount = 0, v2_header = zeroHeaderV2\<rparr> =
    ([Ok (0, 0, [\<lparr>hdr_Key = [4], hdr_Value = None\<rparr>], Some [1], Some [2, 3])], st)"
  using readMessageV2_uncompressed [OF example_recordsOk(1), of "\<lambda>_. None" 0 "[]" "[]" EOF 0 zeroHeaderV2]
  by (simp add: exampleMessage_def nilHeader_def nilEmpty_def timestamp_def IsZero_def zeroTime_def UnixNano_def go_div_def
      Sub_def)

text \<open>C28. A compressed batch is read back in the same way when the compressed records fit the 4096 bytes of
  the connection's read buffer; a larger one is never read: the read fails with \<open>bufio.ErrBufferFull\<close>. The
  hypotheses on the codec: it is registered under its code, a code of at most three bits, and decodes what it
  encoded.\<close>

theorem readMessageV2_compressed:
  assumes "recordsOk msgs" "length msgs < 2 ^ 31"
    and codec: "codecs (codec_Code codec) = Some codec" "codec_Code codec AND 7 = codec_Code codec" "codec_Code codec \<noteq> 0"
    and enc: "codec_Encode codec (recordsBytes msgs) = Ok compressed" "49 + length (contents compressed) < 2 ^ 31"
    and dec: "codec_Decode codec (contents compressed) = Ok dec" "contents dec = recordsBytes msgs"
    and r: "r = \<lparr>v2_stack = [frameOf (batchBytes (scast (codec_Code codec)) msgs (contents compressed) @ following) rest e base],
      v2_messageCount = 0, v2_header = h\<rparr>"
  shows "if length (contents compressed) \<le> 4096
    then fst (readMessagesV2 (length msgs) codecs mn r) =
      map (\<lambda>(i, m). Ok (of_nat i, timestamp (msg_Time (hd msgs)) + Sub (msg_Time m) (msg_Time (hd msgs)),
        map nilHeader (msg_Headers m), nilEmpty (msg_Key m), nilEmpty (msg_Value m))) (enumerate 0 msgs)
    else fst (readMessageV2 codecs mn readNewBytes readNewBytes r) = Err ErrBufferFull"
proof -
  let ?b = "msg_Time (hd msgs)" and ?h = "batchHeader (scast (codec_Code codec)) msgs (contents compressed)"
  have ok: "list_all (\<lambda>(j, m). recordOk ?b (of_nat j) m) (enumerate 0 msgs)" and ne: "0 < length msgs"
    using assms(1) by (simp_all add: recordsOk_def)
  have "compression ?h = codec_Code codec"
    using codec(2) by (simp add: compression_def batchHeader_def ucast_scast_and7)
  note start = startBatch_compressed [where codecs = codecs and codec = codec,
      OF assms(2) enc(2) this codec(3,1) dec(1), of following rest e base h]
  show ?thesis
  proof (cases "length (contents compressed) \<le> 4096")
    case True
    then show ?thesis
      using ne start unfolding r
      by (subst readMessagesV2_start)
        (auto simp: dec(2) readMessagesV2_rest [OF ok, where following = "[]", simplified] recordsBytes_from
          recordResult_def batchHeader_def)
  next
    case False
    then show ?thesis using start by (simp add: readMessageV2_def r)
  qed
qed

theorem readMessageV2_compressed_witness:
  "fst (readMessagesV2 1 [3 \<mapsto> \<lparr>codec_Code = 3, codec_Encode = \<lambda>bs. Ok (Some bs), codec_Decode = \<lambda>bs. Ok (Some bs)\<rparr>] 0
      \<lparr>v2_stack = [frameOf (batchBytes 3 [exampleMessage] (recordsBytes [exampleMessage])) [] EOF 0],
       v2_messageCount = 0, v2_header = zeroHeaderV2\<rparr>) =
    [Ok (0, 0, [\<lparr>hdr_Key = [4], hdr_Value = None\<rparr>], Some [1], Some [2, 3])]"
  using readMessageV2_compressed [OF example_recordsOk(1),
      of "[3 \<mapsto> \<lparr>codec_Code = 3, codec_Encode = \<lambda>bs. Ok (Some bs), codec_Decode = \<lambda>bs. Ok (Some bs)\<rparr>]"
        "\<lparr>codec_Code = 3, codec_Encode = \<lambda>bs. Ok (Some bs), codec_Decode = \<lambda>bs. Ok (Some bs)\<rparr>"
        "Some (recordsBytes [exampleMessage])" "Some (recordsBytes [exampleMessage])" _ "[]" "[]" EOF 0 zeroHeaderV2 0, OF _ _ _ _ _ _ _ _ refl]
    example_recordsOk(2)
  by (simp add: exampleMessage_def nilHeader_def nilEmpty_def timestamp_def IsZero_def zeroTime_def UnixNano_def go_div_def
      Sub_def)

end
