(* ===== verification/Batch.thy ===== *)
theory Batch
  imports Conn MessageReaderV1 MessageReaderV2
begin

section \<open>Batches of messages (batch.go, conn.go)\<close>

text \<open>
  The iterator that \<open>ReadBatch\<close> returns and the operations of \<open>Conn\<close> that use it. A batch reads from the
  buffer of its connection: the last frame of its message set reader and \<open>cn_rbuf\<close> are the same reader of
  the source, so every operation on the batch stores the reader of that frame back into the connection. The
  operations therefore act on a pair of a batch and its connection. The throttle time of a batch that carries an
  error is not kept.
\<close>

subsection \<open>The code\<close>

record Batch =
  ba_conn :: bool
  ba_lock :: bool
  ba_msgs :: "messageSetReader option"
  ba_deadline :: gotime
  ba_throttle :: duration
  ba_topic :: gostring
  ba_partition :: int
  ba_offset :: int64
  ba_highWaterMark :: int64
  ba_err :: "go_error option"

type_synonym 'a batch_op = "Batch \<times> Conn \<Rightarrow> ((go_error, 'a) result \<times> Batch \<times> Conn) option"

definition checkTimeoutErr :: "gotime \<Rightarrow> gotime \<Rightarrow> go_error" where
  "checkTimeoutErr deadline now =
     (if \<not> IsZero deadline \<and> now > deadline then KafkaError RequestTimedOut else EOF)"

text \<open>The reader that a message set reader shares with the connection.\<close>

fun sharedReader :: "messageSetReader \<Rightarrow> bufio_reader option" where
  "sharedReader EmptySet = None"
| "sharedReader (SetV1 stack) = (if stack = [] then None else Some (fr_reader (last stack)))"
| "sharedReader (SetV2 r) = (if v2_stack r = [] then None else Some (fr_reader (last (v2_stack r))))"

definition storeReader :: "messageSetReader \<Rightarrow> Batch \<times> Conn \<Rightarrow> Batch \<times> Conn" where
  "storeReader msgs bc =
     (let (b, c) = bc in
      (b\<lparr>ba_msgs := Some msgs\<rparr>, case sharedReader msgs of None \<Rightarrow> c | Some r \<Rightarrow> c\<lparr>cn_rbuf := r\<rparr>))"

definition setErr :: "go_error \<Rightarrow> Batch \<times> Conn \<Rightarrow> Batch \<times> Conn" where
  "setErr e bc = (let (b, c) = bc in (b\<lparr>ba_err := Some e\<rparr>, c))"

definition Batch_readMessage ::
  "codecs \<Rightarrow> gotime \<Rightarrow> (int \<Rightarrow> 'k reader) \<Rightarrow> (int \<Rightarrow> 'v reader) \<Rightarrow> (int64 \<times> int64 \<times> Header list \<times> 'k \<times> 'v) batch_op" where
  "Batch_readMessage codecs now key val bc =
     (let (b, c) = bc in
      case ba_err b of
        Some e \<Rightarrow> Some (Err e, bc)
      | None \<Rightarrow>
          (case ba_msgs b of
             None \<Rightarrow> Some (Panic NilDereference, bc)
           | Some msgs \<Rightarrow>
               (case messageSetReader_readMessage codecs (ba_offset b) key val msgs of
                  None \<Rightarrow> None
                | Some (Panic p, msgs) \<Rightarrow> Some (Panic p, storeReader msgs bc)
                | Some (Ok (offset, ts, headers, k, v), msgs) \<Rightarrow>
                    Some (Ok (offset, ts, headers, k, v), storeReader msgs (b\<lparr>ba_offset := offset + 1\<rparr>, c))
                | Some (Err e, msgs) \<Rightarrow>
                    (if e = ErrShortRead then
                       (case messageSetReader_discard msgs of
                          (Err e, msgs) \<Rightarrow> Some (Err e, setErr e (storeReader msgs bc))
                        | (Panic p, msgs) \<Rightarrow> Some (Panic p, storeReader msgs bc)
                        | (Ok _, msgs) \<Rightarrow>
                            (if messageSetReader_remaining msgs = 0 then
                               let e = checkTimeoutErr (ba_deadline b) now
                               in Some (Err e, setErr e (storeReader msgs bc))
                             else Some (Panic (PanicMessage ''unreachable''), storeReader msgs bc)))
                     else Some (Err e, setErr e (storeReader msgs bc))))))"

definition Batch_close :: "Batch \<times> Conn \<Rightarrow> go_error option \<times> Batch \<times> Conn" where
  "Batch_close bc =
     (let (b, c) = bc;
          (b1, c) = (case ba_msgs b of None \<Rightarrow> (b, c) | Some msgs \<Rightarrow> storeReader (snd (messageSetReader_discard msgs)) (b, c));
          err = silentEOF (ba_err b);
          c = (if ba_conn b then
                 let c = onDeadline RDeadline connDeadline_unsetConnReadDeadline c;
                     c = c\<lparr>cn_offset := ba_offset b\<rparr>
                 in (case err of
                       Some e \<Rightarrow> if \<not> is_KafkaError e \<and> e \<noteq> ErrShortBuffer then Conn_Close c else c
                     | None \<Rightarrow> c)
               else c)
      in (err, b1\<lparr>ba_conn := False, ba_lock := False\<rparr>, c))"

definition readNewMessage :: "codecs \<Rightarrow> gotime \<Rightarrow> (int64 \<times> int64 \<times> Header list \<times> bytes \<times> bytes) batch_op" where
  "readNewMessage codecs now = Batch_readMessage codecs now readNewBytes readNewBytes"

text \<open>The loop of \<open>ReadMessage\<close> that skips messages below the offset of the connection.\<close>

partial_function (option) skipLoop ::
  "((int64 \<times> int64 \<times> Header list \<times> bytes \<times> bytes) batch_op) \<Rightarrow>
   (go_error, int64 \<times> int64 \<times> Header list \<times> bytes \<times> bytes) result \<Rightarrow> Batch \<times> Conn \<Rightarrow>
   ((go_error, int64 \<times> int64 \<times> Header list \<times> bytes \<times> bytes) result \<times> Batch \<times> Conn) option" where
  "skipLoop readNext res bc =
     (case res of
        Ok (offset, x) \<Rightarrow>
          (if ba_conn (fst bc) \<and> sint offset < sint (cn_offset (snd bc)) then
             (case readNext bc of None \<Rightarrow> None | Some (res, bc) \<Rightarrow> skipLoop readNext res bc)
           else Some (res, bc))
      | _ \<Rightarrow> Some (res, bc))"

definition Batch_ReadMessage :: "codecs \<Rightarrow> gotime \<Rightarrow> Message batch_op" where
  "Batch_ReadMessage codecs now bc =
     (case readNewMessage codecs now bc of
        None \<Rightarrow> None
      | Some (res, bc) \<Rightarrow>
          (case skipLoop (readNewMessage codecs now) res bc of
             None \<Rightarrow> None
           | Some (Err e, bc) \<Rightarrow> Some (Err e, bc)
           | Some (Panic p, bc) \<Rightarrow> Some (Panic p, bc)
           | Some (Ok (offset, ts, headers, k, v), bc) \<Rightarrow>
               Some (Ok \<lparr>msg_Topic = ba_topic (fst bc), msg_Partition = ba_partition (fst bc), msg_Offset = offset,
                         msg_Key = k, msg_Value = v, msg_Headers = headers, msg_Time = timestampToTime ts\<rparr>, bc)))"

text \<open>
  The callbacks of \<open>Read\<close>: the key is skipped; of the value, at most \<open>len\<close> bytes are stored in the caller's slice
  and the rest is skipped. The result is the length of the value and the stored bytes.
\<close>

definition skipBytes :: "int \<Rightarrow> unit reader" where
  "skipBytes nbytes = (if nbytes < 0 then rret () else discardN nbytes)"

definition readInto :: "nat \<Rightarrow> int \<Rightarrow> (int \<times> byte list) reader" where
  "readInto len nbytes st =
     (if nbytes < 0 then (Ok (0, []), st)
      else
        let (r, sz) = st; m = min (nat nbytes) len in
        case ReadFull r m of
          (bs, Some e, r) \<Rightarrow> (Err e, r, sz - int (length bs))
        | (bs, None, r) \<Rightarrow> rbind (discardN (nbytes - int m)) (\<lambda>_. rret (nbytes, bs)) (r, sz - int m))"

definition Batch_Read :: "codecs \<Rightarrow> gotime \<Rightarrow> nat \<Rightarrow> (int \<times> byte list) batch_op" where
  "Batch_Read codecs now len bc =
     (let offset = ba_offset (fst bc) in
      case Batch_readMessage codecs now skipBytes (readInto len) bc of
        None \<Rightarrow> None
      | Some (Err e, bc) \<Rightarrow> Some (Err e, bc)
      | Some (Panic p, bc) \<Rightarrow> Some (Panic p, bc)
      | Some (Ok (_, _, _, _, n, bs), b, c) \<Rightarrow>
          (if n > int len then Some (Err ErrShortBuffer, b\<lparr>ba_err := Some ErrShortBuffer, ba_offset := offset\<rparr>, c)
           else Some (Ok (n, bs), b, c)))"

record ReadBatchConfig =
  rb_MinBytes :: int
  rb_MaxBytes :: int
  rb_IsolationLevel :: int8

text \<open>A batch that only carries an error: it has no connection.\<close>

definition errBatch :: "go_error option \<Rightarrow> Batch" where
  "errBatch err =
     \<lparr>ba_conn = False, ba_lock = False, ba_msgs = None, ba_deadline = zeroTime, ba_throttle = 0, ba_topic = [], ba_partition = 0,
      ba_offset = 0, ba_highWaterMark = 0, ba_err = err\<rparr>"

definition checkBounds :: "ReadBatchConfig \<Rightarrow> Conn \<Rightarrow> go_error option" where
  "checkBounds cfg c =
     (let maxFetch = sint (cn_fetchMaxBytes c) in
      if rb_MinBytes cfg < 0 \<or> rb_MinBytes cfg > maxFetch then
        Some (Errorf ''kafka.(*Conn).ReadBatch: minBytes of %d out of [1,%d] bounds'')
      else if rb_MaxBytes cfg < 0 \<or> rb_MaxBytes cfg > maxFetch then
        Some (Errorf ''kafka.(*Conn).ReadBatch: maxBytes of %d out of [1,%d] bounds'')
      else if rb_MinBytes cfg > rb_MaxBytes cfg then
        Some (Errorf ''kafka.(*Conn).ReadBatch: minBytes (%d) > maxBytes (%d)'')
      else None)"

definition encodeFetch :: "gotime \<Rightarrow> ReadBatchConfig \<Rightarrow> int64 \<Rightarrow> gotime \<Rightarrow> int32 \<Rightarrow> unit conn_op" where
  "encodeFetch now cfg offset deadline corr c =
     (let deadline = adjustDeadlineForRTT deadline now defaultRTT;
          timeout = deadlineToTimeout deadline now;
          maxBytes = rb_MaxBytes cfg + sint (cn_fetchMinSize c)
      in Conn_Flush
           (if cn_fetchVersion c = 5 then
              writeFetchRequestV5 [] corr (cn_clientID c) (cn_topic c) (cn_partition c) offset (rb_MinBytes cfg) maxBytes timeout
                (rb_IsolationLevel cfg)
            else
              writeFetchRequestV2 [] corr (cn_clientID c) (cn_topic c) (cn_partition c) offset (rb_MinBytes cfg) maxBytes timeout) c)"

text \<open>The part of \<open>ReadBatchWith\<close> that reads the header of the response, which has \<open>sz\<close> bytes left.\<close>

definition openBatch :: "gotime \<Rightarrow> gotime \<Rightarrow> int64 \<Rightarrow> int \<Rightarrow> Conn \<Rightarrow> (go_error, unit) result \<times> Batch \<times> Conn" where
  "openBatch adjusted now offset sz c =
     (let (res, r, remain) = (if cn_fetchVersion c = 5 then readFetchResponseHeaderV5 else readFetchResponseHeaderV2) (cn_rbuf c, sz);
          c = c\<lparr>cn_rbuf := r\<rparr>;
          timeoutErr = (\<lambda>e. if e = ErrShortRead then checkTimeoutErr adjusted now else e);
          b = \<lparr>ba_conn = True, ba_lock = True, ba_msgs = None, ba_deadline = adjusted, ba_throttle = duration_of_ms 0,
               ba_topic = cn_topic c, ba_partition = sint (cn_partition c), ba_offset = offset, ba_highWaterMark = 0, ba_err = None\<rparr>
      in (case res of
            Panic p \<Rightarrow> (Panic p, b, c)
          | Err e \<Rightarrow> (Ok (), b\<lparr>ba_err := dontExpectEOF (Some (timeoutErr e))\<rparr>, c)
          | Ok (throttle, highWaterMark) \<Rightarrow>
              let b = b\<lparr>ba_throttle := duration_of_ms throttle, ba_highWaterMark := highWaterMark\<rparr>
              in if highWaterMark = offset then (Ok (), b\<lparr>ba_msgs := Some EmptySet\<rparr>, c)
                 else (case newMessageSetReader r remain of
                     Ok msgs \<Rightarrow> (Ok (), b\<lparr>ba_msgs := Some msgs\<rparr>, c)
                   | Err e \<Rightarrow> (Ok (), b\<lparr>ba_err := dontExpectEOF (Some (timeoutErr e))\<rparr>, c)
                   | Panic p \<Rightarrow> (Panic p, b, c))))"

definition Conn_ReadBatchWith :: "gotime \<Rightarrow> ReadBatchConfig \<Rightarrow> Conn \<Rightarrow> ((go_error, unit) result \<times> Batch \<times> Conn) option" where
  "Conn_ReadBatchWith now cfg c =
     (let failed = (\<lambda>e c. Some (Ok (), errBatch (dontExpectEOF (Some e)), c)) in
      case checkBounds cfg c of
        Some e \<Rightarrow> Some (Ok (), errBatch (Some e), c)
      | None \<Rightarrow>
          (case Conn_Seek (fst (Conn_Offset c)) (snd (Conn_Offset c)) c of
             None \<Rightarrow> None
           | Some (Panic p, c) \<Rightarrow> Some (Panic p, errBatch None, c)
           | Some (Err e, c) \<Rightarrow> failed e c
           | Some (Ok offset, c) \<Rightarrow>
               let adjusted = adjustDeadlineForRTT (deadlineOf RDeadline c) now defaultRTT in
               (case doRequest RDeadline (encodeFetch now cfg offset) c of
                  None \<Rightarrow> None
                | Some (Panic p, c) \<Rightarrow> Some (Panic p, errBatch None, c)
                | Some (Err e, c) \<Rightarrow> failed e c
                | Some (Ok corr, c) \<Rightarrow>
                    (case waitResponse RDeadline corr c of
                       None \<Rightarrow> None
                     | Some (Panic p, c) \<Rightarrow> Some (Panic p, errBatch None, c)
                     | Some (Err e, c) \<Rightarrow> failed e c
                     | Some (Ok (_, sz), c) \<Rightarrow> Some (openBatch adjusted now offset sz c)))))"

definition Conn_ReadBatch :: "gotime \<Rightarrow> int \<Rightarrow> int \<Rightarrow> Conn \<Rightarrow> ((go_error, unit) result \<times> Batch \<times> Conn) option" where
  "Conn_ReadBatch now minBytes maxBytes =
     Conn_ReadBatchWith now \<lparr>rb_MinBytes = minBytes, rb_MaxBytes = maxBytes, rb_IsolationLevel = 0\<rparr>"

text \<open>A read on a fresh batch, the batch closed after it.\<close>

definition readOne :: "'a batch_op \<Rightarrow> ((go_error, unit) result \<times> Batch \<times> Conn) option \<Rightarrow> ((go_error, 'a option) result \<times> Conn) option" where
  "readOne readNext opened =
     (case opened of
        None \<Rightarrow> None
      | Some (Panic p, _, c) \<Rightarrow> Some (Panic p, c)
      | Some (Err e, _, c) \<Rightarrow> Some (Err e, c)
      | Some (Ok _, b, c) \<Rightarrow>
          (case readNext (b, c) of
             None \<Rightarrow> None
           | Some (Panic p, b, c) \<Rightarrow> Some (Panic p, c)
           | Some (res, b, c) \<Rightarrow>
               (case Batch_close (b, c) of
                  (closeErr, _, c) \<Rightarrow>
                    (case coalesceErrors [silentEOF (case res of Err e \<Rightarrow> Some e | _ \<Rightarrow> None), closeErr] of
                       Some e \<Rightarrow> Some (Err e, c)
                     | None \<Rightarrow> Some (Ok (case res of Ok x \<Rightarrow> Some x | _ \<Rightarrow> None), c)))))"

definition Conn_Read :: "codecs \<Rightarrow> gotime \<Rightarrow> nat \<Rightarrow> Conn \<Rightarrow> ((go_error, (int \<times> byte list) option) result \<times> Conn) option" where
  "Conn_Read codecs now len c = readOne (Batch_Read codecs now len) (Conn_ReadBatch now 1 (int len) c)"

definition Conn_ReadMessage :: "codecs \<Rightarrow> gotime \<Rightarrow> int \<Rightarrow> Conn \<Rightarrow> ((go_error, Message option) result \<times> Conn) option" where
  "Conn_ReadMessage codecs now maxBytes c = readOne (Batch_ReadMessage codecs now) (Conn_ReadBatch now 1 maxBytes c)"

subsection \<open>The operations of a batch\<close>

lemma discardN_all: "discardN (fr_remain fr) (fr_reader fr, fr_remain fr) = (Ok (), r, n) \<Longrightarrow> n = 0"
  by (auto simp: discardN_def Discard_def split: if_splits)

text \<open>The branch of \<open>readMessage\<close> without a case for it: after a successful discard nothing remains.\<close>

lemma discard_remaining:
  assumes "messageSetReader_discard msgs = (Ok u, msgs')"
  shows "messageSetReader_remaining msgs' = 0"
proof (cases msgs)
  case (SetV1 stack)
  then show ?thesis
    using assms discardN_all [of "last stack"]
    by (auto simp: discardV1_def remainingV1_def onFrame_def split: if_splits prod.splits)
next
  case (SetV2 r)
  then show ?thesis
    using assms discardN_all
    by (auto simp: discardV2_def remainingV2_def onFrame_def split: list.splits prod.splits)
qed (use assms in auto)

lemma storeReader_simps [simp]:
  "fst (storeReader msgs (b, c)) = b\<lparr>ba_msgs := Some msgs\<rparr>"
  "cn_offset (snd (storeReader msgs (b, c))) = cn_offset c"
  "nt_closed (cn_net (snd (storeReader msgs (b, c)))) = nt_closed (cn_net c)"
  by (simp_all add: storeReader_def split: option.split)

text \<open>A decoder that has parsed its part goes on with the rest of the response.\<close>

lemma rbind_parsed:
  assumes "parses p as x" "int (length as) \<le> k"
  shows "rbind p f (\<lparr>rd_bytes = as @ bs, rd_err = e\<rparr>, k) = f x (\<lparr>rd_bytes = bs, rd_err = e\<rparr>, k - int (length as))"
  using parsesD [OF assms(1), of "k - int (length as)" k bs e] assms(2) by (simp add: rbind_def)

subsection \<open>Opening a batch\<close>

text \<open>The header of a version 2 fetch response for one topic and partition.\<close>

definition fetchHeaderV2 :: "int32 \<Rightarrow> gostring \<Rightarrow> int32 \<Rightarrow> int16 \<Rightarrow> int64 \<Rightarrow> int32 \<Rightarrow> byte list" where
  "fetchHeaderV2 throttle topic part code highWaterMark setSize =
     PutUint32 throttle @ PutUint32 1 @ writeString [] topic @ PutUint32 1 @ PutUint32 part @ PutUint16 code @
     PutUint64 highWaterMark @ PutUint32 setSize"

lemma readFetchResponseHeaderV2_ok:
  assumes "okString topic" "length bs < 2 ^ 31"
  shows "readFetchResponseHeaderV2
      (\<lparr>rd_bytes = fetchHeaderV2 throttle topic part 0 highWaterMark (of_nat (length bs)) @ bs @ rest, rd_err = e\<rparr>,
       int (length (fetchHeaderV2 throttle topic part 0 highWaterMark (of_nat (length bs)) @ bs))) =
    (Ok (throttle, highWaterMark), \<lparr>rd_bytes = bs @ rest, rd_err = e\<rparr>, int (length bs))"
  using assms(2) unfolding readFetchResponseHeaderV2_def fetchHeaderV2_def checkCount_def append_assoc
  by (simp add: rbind_parsed [OF parse_ints(2)] rbind_parsed [OF parse_ints(3)] rbind_parsed [OF parse_ints(4)]
      rbind_parsed [OF parses_discardString [OF assms(1)]] rbind_def [of remaining] rbind_def [of "rret ()"] remaining_def
      sint_of_nat_small rret_def)

lemma newMessageSetReader_set:
  assumes "msgs \<noteq> []"
  shows "newMessageSetReader \<lparr>rd_bytes = setBytes msgs @ rest, rd_err = e\<rparr> (int (length (setBytes msgs))) =
    Ok (SetV1 [frameOf (setBytes msgs) rest e 0])"
proof -
  obtain m ms where msgs: "msgs = m # ms" using assms by (cases msgs) auto
  define a where "a = PutUint64 (msg_Offset m) @ PutUint32 (msgSize (msg_Key m) (msg_Value m)) @
    PutUint32 (crc32OfMessage 1 0 (timestamp (msg_Time m)) (msg_Key m) (msg_Value m))"
  define b where "b = [0] @ PutUint64 (timestamp (msg_Time m)) @ writeBytes [] (msg_Key m) @ writeBytes [] (msg_Value m) @ setBytes ms"
  have s: "setBytes msgs = a @ 1 # b" and a: "length a = 16"
    by (simp_all add: msgs itemBytes_def Message_item_eq item_bytes a_def b_def)
  show ?thesis
    using a by (simp add: newMessageSetReader_def s Peek_def bufSize_def frameOf_def nth_append Let_def)
qed

text \<open>The batch that is opened on the answer to a fetch of messages in the first formats.\<close>

definition fetchedBatch :: "gotime \<Rightarrow> int64 \<Rightarrow> int32 \<Rightarrow> int64 \<Rightarrow> messageSetReader \<Rightarrow> Conn \<Rightarrow> Batch" where
  "fetchedBatch adjusted offset throttle highWaterMark msgs c =
     \<lparr>ba_conn = True, ba_lock = True, ba_msgs = Some msgs, ba_deadline = adjusted, ba_throttle = duration_of_ms throttle,
      ba_topic = cn_topic c, ba_partition = sint (cn_partition c), ba_offset = offset, ba_highWaterMark = highWaterMark,
      ba_err = None\<rparr>"

lemma openBatch_set:
  assumes "cn_fetchVersion c \<noteq> 5" "okString topic" "length (setBytes msgs) < 2 ^ 31" "msgs \<noteq> []" "highWaterMark \<noteq> offset"
    and "cn_rbuf c = \<lparr>rd_bytes = fetchHeaderV2 throttle topic part 0 highWaterMark (of_nat (length (setBytes msgs))) @
      setBytes msgs @ rest, rd_err = e\<rparr>"
    and "sz = int (length (fetchHeaderV2 throttle topic part 0 highWaterMark (of_nat (length (setBytes msgs))) @ setBytes msgs))"
  shows "openBatch adjusted now offset sz c =
    (Ok (), fetchedBatch adjusted offset throttle highWaterMark (SetV1 [frameOf (setBytes msgs) rest e 0]) c,
     c\<lparr>cn_rbuf := \<lparr>rd_bytes = setBytes msgs @ rest, rd_err = e\<rparr>\<rparr>)"
  using assms(1,5)
  by (simp add: openBatch_def assms(6,7) readFetchResponseHeaderV2_ok [OF assms(2,3), simplified] newMessageSetReader_set [OF assms(4)]
      fetchedBatch_def Let_def)

subsection \<open>Reading and closing it\<close>

lemma Batch_readMessage_set:
  assumes "ba_err b = None" "ba_msgs b = Some (SetV1 [frameOf (setBytes msgs) rest e 0])" "list_all messageOk msgs"
    and "dropWhile (\<lambda>m. sint (msg_Offset m) < sint (ba_offset b)) msgs = m # ms"
  shows "readNewMessage codecs now (b, c) =
    Some (Ok (msg_Offset m, timestamp (msg_Time m), [], nilEmpty (msg_Key m), nilEmpty (msg_Value m)),
      b\<lparr>ba_offset := msg_Offset m + 1, ba_msgs := Some (SetV1 [frameOf (setBytes ms) rest e 0])\<rparr>,
      c\<lparr>cn_rbuf := \<lparr>rd_bytes = setBytes ms @ rest, rd_err = e\<rparr>\<rparr>)"
  using assms readMessageV1_set [OF assms(3), of codecs "ba_offset b" rest e 0 "[]"]
  by (simp add: readNewMessage_def Batch_readMessage_def storeReader_def frameOf_def)

lemma Batch_readMessage_end:
  assumes "ba_err b = None" "ba_msgs b = Some (SetV1 [frameOf (setBytes msgs) rest e 0])" "list_all messageOk msgs"
    and "dropWhile (\<lambda>m. sint (msg_Offset m) < sint (ba_offset b)) msgs = []"
  shows "readNewMessage codecs now (b, c) =
    Some (Err (checkTimeoutErr (ba_deadline b) now),
      b\<lparr>ba_err := Some (checkTimeoutErr (ba_deadline b) now), ba_msgs := Some (SetV1 [frameOf [] rest e 0])\<rparr>,
      c\<lparr>cn_rbuf := \<lparr>rd_bytes = rest, rd_err = e\<rparr>\<rparr>)"
  using assms(1,2) readMessageV1_set [OF assms(3), of codecs "ba_offset b" rest e 0 "[]"] assms(4)
  by (simp add: readNewMessage_def Batch_readMessage_def storeReader_def setErr_def discardV1_def onFrame_def discardN_def Discard_def
      remainingV1_def Let_def frameOf_def del: dropWhile_eq_Nil_conv)

lemma Batch_close_set:
  assumes "ba_conn b" "silentEOF (ba_err b) = None" "ba_msgs b = Some (SetV1 [frameOf (setBytes msgs) rest e 0])"
  shows "\<exists>b' c'. Batch_close (b, c) = (None, b', c') \<and> cn_rbuf c' = \<lparr>rd_bytes = rest, rd_err = e\<rparr> \<and>
    cn_offset c' = ba_offset b \<and> nt_closed (cn_net c') = nt_closed (cn_net c)"
  using assms by (simp add: Batch_close_def discardV1_def onFrame_def discardN_def Discard_def storeReader_def frameOf_def)

lemma skipLoop_done:
  "skipLoop readNext (Ok (offset, x)) (b, c) = Some (Ok (offset, x), b, c)" if "\<not> sint offset < sint (cn_offset c)"
  using that by (subst skipLoop.simps) simp

subsection \<open>A fetch\<close>

text \<open>The fetch request of a connection, and the answer of a broker to version 2 of it.\<close>

definition fetchBytes :: "gotime \<Rightarrow> ReadBatchConfig \<Rightarrow> Conn \<Rightarrow> byte list" where
  "fetchBytes now cfg c =
     (let deadline = adjustDeadlineForRTT (deadlineOf RDeadline c) now defaultRTT;
          timeout = deadlineToTimeout deadline now;
          maxBytes = rb_MaxBytes cfg + sint (cn_fetchMinSize c)
      in if cn_fetchVersion c = 5 then
           writeFetchRequestV5 [] (cn_correlationID c + 1) (cn_clientID c) (cn_topic c) (cn_partition c) (cn_offset c)
             (rb_MinBytes cfg) maxBytes timeout (rb_IsolationLevel cfg)
         else
           writeFetchRequestV2 [] (cn_correlationID c + 1) (cn_clientID c) (cn_topic c) (cn_partition c) (cn_offset c)
             (rb_MinBytes cfg) maxBytes timeout)"

definition fetchResponse :: "int32 \<Rightarrow> gostring \<Rightarrow> int32 \<Rightarrow> int64 \<Rightarrow> Message list \<Rightarrow> byte list" where
  "fetchResponse throttle topic part highWaterMark msgs =
     fetchHeaderV2 throttle topic part 0 highWaterMark (of_nat (length (setBytes msgs))) @ setBytes msgs"

lemma fetchedBatch_simps [simp]:
  "ba_conn (fetchedBatch a off t h ms c) = True" "ba_err (fetchedBatch a off t h ms c) = None"
  "ba_msgs (fetchedBatch a off t h ms c) = Some ms" "ba_offset (fetchedBatch a off t h ms c) = off"
  "ba_topic (fetchedBatch a off t h ms c) = cn_topic c" "ba_partition (fetchedBatch a off t h ms c) = sint (cn_partition c)"
  "ba_deadline (fetchedBatch a off t h ms c) = a" "ba_highWaterMark (fetchedBatch a off t h ms c) = h"
  by (simp_all add: fetchedBatch_def)

lemma Conn_ReadBatchWith_response:
  assumes "usable c" "checkBounds cfg c = None" "cn_offset c \<noteq> FirstOffset" "cn_offset c \<noteq> LastOffset"
    and "length body < 2 ^ 31 - 4"
    and "cn_rbuf c = \<lparr>rd_bytes = responseBytes (cn_correlationID c + 1) body @ rest, rd_err = e\<rparr>"
  shows "\<exists>c'. Conn_ReadBatchWith now cfg c =
      Some (openBatch (adjustDeadlineForRTT (deadlineOf RDeadline c) now defaultRTT) now (cn_offset c) (int (length body)) c') \<and>
    exchanged c (fetchBytes now cfg c) \<lparr>rd_bytes = body @ rest, rd_err = e\<rparr> False c'"
proof -
  have seek: "Conn_Seek (fst (Conn_Offset c)) (snd (Conn_Offset c)) c = Some (Ok (cn_offset c), c)"
    using assms(3,4) by (simp add: Conn_Offset_def Conn_Seek_def cret_def)
  have "encodeFetch now cfg (cn_offset c) (deadlineOf RDeadline c) (cn_correlationID c + 1) c1 = Conn_Flush (fetchBytes now cfg c) c1"
    if "sameConfig c c1" for c1
    using that by (simp add: encodeFetch_def fetchBytes_def sameConfig_def Let_def)
  then obtain c1 where c1: "doRequest RDeadline (encodeFetch now cfg (cn_offset c)) c = Some (Ok (cn_correlationID c + 1), c1)"
    "exchanged c (fetchBytes now cfg c) (cn_rbuf c) False c1"
    by (rule doRequest_flush [where send = "encodeFetch now cfg (cn_offset c)" and d = RDeadline, OF assms(1)]) auto
  let ?c2 = "(onDeadline RDeadline connDeadline_setConnReadDeadline c1)\<lparr>cn_rbuf := \<lparr>rd_bytes = body @ rest, rd_err = e\<rparr>\<rparr>"
  have "waitResponse RDeadline (cn_correlationID c + 1) c1 = Some (Ok (deadlineOf RDeadline c1, int (length body)), ?c2)"
    using c1(2) assms(6) by (intro waitResponse_found assms(5)) (simp add: exchanged_def)
  moreover have "exchanged c (fetchBytes now cfg c) \<lparr>rd_bytes = body @ rest, rd_err = e\<rparr> False ?c2"
    using c1(2) by (simp add: exchanged_def sameConfig_def deadline_defs)
  ultimately show ?thesis
    using seek c1(1) assms(2) by (auto simp: Conn_ReadBatchWith_def Let_def)
qed

lemma exchanged_rbuf: "exchanged c bs r closed c' \<Longrightarrow> exchanged c bs r' closed (c'\<lparr>cn_rbuf := r'\<rparr>)"
  by (simp add: exchanged_def sameConfig_def)

lemma Conn_ReadBatchWith_set:
  assumes "usable c" "checkBounds cfg c = None" "cn_offset c \<noteq> FirstOffset" "cn_offset c \<noteq> LastOffset" "cn_fetchVersion c \<noteq> 5"
    and "okString topic" "length (fetchResponse throttle topic part highWaterMark msgs) < 2 ^ 31 - 4" "msgs \<noteq> []"
    and "highWaterMark \<noteq> cn_offset c"
    and "cn_rbuf c = \<lparr>rd_bytes = responseBytes (cn_correlationID c + 1) (fetchResponse throttle topic part highWaterMark msgs) @ rest, rd_err = e\<rparr>"
  shows "\<exists>c'. Conn_ReadBatchWith now cfg c =
      Some (Ok (), fetchedBatch (adjustDeadlineForRTT (deadlineOf RDeadline c) now defaultRTT) (cn_offset c) throttle highWaterMark
        (SetV1 [frameOf (setBytes msgs) rest e 0]) c, c') \<and>
    exchanged c (fetchBytes now cfg c) \<lparr>rd_bytes = setBytes msgs @ rest, rd_err = e\<rparr> False c'"
proof -
  let ?body = "fetchResponse throttle topic part highWaterMark msgs"
  let ?adjusted = "adjustDeadlineForRTT (deadlineOf RDeadline c) now defaultRTT"
  obtain c2 where c2: "Conn_ReadBatchWith now cfg c = Some (openBatch ?adjusted now (cn_offset c) (int (length ?body)) c2)"
    "exchanged c (fetchBytes now cfg c) \<lparr>rd_bytes = ?body @ rest, rd_err = e\<rparr> False c2"
    using Conn_ReadBatchWith_response [OF assms(1-4,7,10)] by blast
  have "openBatch ?adjusted now (cn_offset c) (int (length ?body)) c2 =
      (Ok (), fetchedBatch ?adjusted (cn_offset c) throttle highWaterMark (SetV1 [frameOf (setBytes msgs) rest e 0]) c2,
       c2\<lparr>cn_rbuf := \<lparr>rd_bytes = setBytes msgs @ rest, rd_err = e\<rparr>\<rparr>)"
    using c2(2) assms(5-9)
    by (subst openBatch_set [where msgs = msgs and rest = rest and e = e and throttle = throttle and topic = topic and part = part])
      (simp_all add: exchanged_def sameConfig_def fetchResponse_def)
  moreover have "fetchedBatch ?adjusted off t h ms c2 = fetchedBatch ?adjusted off t h ms c" for off t h ms
    using c2(2) by (simp add: fetchedBatch_def exchanged_def sameConfig_def)
  ultimately show ?thesis
    using c2 exchanged_rbuf [OF c2(2)] by auto
qed

subsection \<open>Properties\<close>


text \<open>A message with offset 7, fetched by the example connection.\<close>

definition fetchedMessage :: Message where
  "fetchedMessage = zeroMessage\<lparr>msg_Offset := 7, msg_Value := Some [1, 2, 3]\<rparr>"

lemma length_setBytes_1: "length (setBytes [fetchedMessage]) = 37"
  by (simp add: length_itemBytes fetchedMessage_def zeroMessage_def)

lemma fetchedMessage_ok: "list_all messageOk [fetchedMessage]"
  by (simp add: messageOk_def fetchedMessage_def zeroMessage_def)


text \<open>C32. An error of a batch is final: once a read failed, every later read fails with the same error and
  changes nothing, and closing the batch reports it, unless it is the end of the batch. Closing closes the connection
  exactly for errors that are not codes of the broker, the end of the batch or a short buffer, and gives the
  connection the offset that the batch has reached.\<close>

theorem Batch_error_final:
  assumes "Batch_readMessage codecs now key val (b, c) = Some (Err e, b', c')" "ba_err b = None" "ba_conn b'"
  shows "Batch_readMessage codecs' now' key' val' (b', c') = Some (Err e, b', c') \<and>
    fst (Batch_close (b', c')) = (if e = EOF then None else Some e) \<and>
    cn_offset (snd (snd (Batch_close (b', c')))) = ba_offset b \<and>
    nt_closed (cn_net (snd (snd (Batch_close (b', c'))))) =
      (nt_closed (cn_net c') \<or> \<not> is_KafkaError e \<and> e \<noteq> EOF \<and> e \<noteq> ErrShortBuffer)"
proof -
  obtain msgs where m: "ba_msgs b = Some msgs"
    using assms(1,2) by (cases "ba_msgs b") (simp_all add: Batch_readMessage_def)
  have err: "ba_err b' = Some e" "ba_offset b' = ba_offset b"
  proof -
    from assms(1,2) m have "\<exists>x. setErr e (storeReader x (b, c)) = (b', c')"
      by (auto simp: Batch_readMessage_def Let_def discard_remaining split: option.splits result.splits if_splits prod.splits)
    then show "ba_err b' = Some e" "ba_offset b' = ba_offset b"
      by (auto simp: setErr_def storeReader_def)
  qed
  show ?thesis
    using err assms(3)
    by (auto simp: Batch_readMessage_def Batch_close_def silentEOF_def Let_def storeReader_def deadline_defs Conn_Close_def
        split: option.splits prod.splits)
qed

theorem Batch_error_final_witness:
  "\<exists>b' c'. Batch_readMessage Map.empty 5 readNewBytes readNewBytes
        (fetchedBatch zeroTime 3 0 3 EmptySet (exampleConn False []), exampleConn False []) = Some (Err EOF, b', c') \<and>
      Batch_readMessage Map.empty 6 skipBytes (readInto 4) (b', c') = Some (Err EOF, b', c') \<and>
      fst (Batch_close (b', c')) = None \<and> cn_offset (snd (snd (Batch_close (b', c')))) = 3"
proof -
  let ?b = "fetchedBatch zeroTime 3 0 3 EmptySet (exampleConn False [])"
  obtain b' c' where r: "Batch_readMessage Map.empty 5 readNewBytes readNewBytes (?b, exampleConn False []) = Some (Err EOF, b', c')"
    "ba_conn b'"
    by (auto simp: Batch_readMessage_def checkTimeoutErr_def IsZero_def setErr_def storeReader_def)
  from Batch_error_final [OF r(1) _ r(2), of Map.empty 6 skipBytes "readInto 4"] r(1) show ?thesis
    by auto
qed

text \<open>At the end of the partition, where the high water mark is the offset of the connection,
  \<open>Conn.ReadMessage\<close> returns no message and no error unless the deadline has passed: the end of the batch is
  silenced by both the read and the close.\<close>

theorem Conn_ReadMessage_end:
  assumes "usable c" "1 \<le> maxBytes" "maxBytes \<le> sint (cn_fetchMaxBytes c)"
    and "cn_offset c \<noteq> FirstOffset" "cn_offset c \<noteq> LastOffset" "cn_fetchVersion c \<noteq> 5" "okString topic"
    and "cn_rbuf c = \<lparr>rd_bytes = responseBytes (cn_correlationID c + 1) (fetchHeaderV2 throttle topic part 0 (cn_offset c) 0) @ rest,
      rd_err = e\<rparr>"
  shows "\<exists>c'. Conn_ReadMessage codecs now maxBytes c =
      Some (if checkTimeoutErr (adjustDeadlineForRTT (deadlineOf RDeadline c) now defaultRTT) now = EOF then Ok None
            else Err (KafkaError RequestTimedOut), c') \<and>
    cn_offset c' = cn_offset c \<and> \<not> nt_closed (cn_net c') \<and> cn_rbuf c' = \<lparr>rd_bytes = rest, rd_err = e\<rparr>"
proof -
  let ?cfg = "\<lparr>rb_MinBytes = 1, rb_MaxBytes = maxBytes, rb_IsolationLevel = 0\<rparr>"
  let ?body = "fetchHeaderV2 throttle topic part 0 (cn_offset c) 0"
  let ?adjusted = "adjustDeadlineForRTT (deadlineOf RDeadline c) now defaultRTT"
  have bounds: "checkBounds ?cfg c = None" using assms(2,3) by (simp add: checkBounds_def)
  have len: "length ?body < 2 ^ 31 - 4" using assms(7) by (simp add: fetchHeaderV2_def wire okString_def)
  obtain c2 where c2: "Conn_ReadBatchWith now ?cfg c = Some (openBatch ?adjusted now (cn_offset c) (int (length ?body)) c2)"
    "exchanged c (fetchBytes now ?cfg c) \<lparr>rd_bytes = ?body @ rest, rd_err = e\<rparr> False c2"
    using Conn_ReadBatchWith_response [OF assms(1) bounds assms(4,5) len assms(8)] by blast
  let ?b = "fetchedBatch ?adjusted (cn_offset c) throttle (cn_offset c) EmptySet c2"
  let ?c3 = "c2\<lparr>cn_rbuf := \<lparr>rd_bytes = rest, rd_err = e\<rparr>\<rparr>"
  have opened: "openBatch ?adjusted now (cn_offset c) (int (length ?body)) c2 = (Ok (), ?b, ?c3)"
    using c2(2) assms(6) readFetchResponseHeaderV2_ok [OF assms(7), of "[]" throttle part "cn_offset c" rest e]
    by (simp add: openBatch_def exchanged_def sameConfig_def fetchedBatch_def Let_def)
  have "readNewMessage codecs now (?b, ?c3) = Some (Err (checkTimeoutErr ?adjusted now),
      ?b\<lparr>ba_err := Some (checkTimeoutErr ?adjusted now)\<rparr>, ?c3)"
    by (simp add: readNewMessage_def Batch_readMessage_def setErr_def storeReader_def Let_def fetchedBatch_def)
  moreover have "skipLoop f (Err x) bc = Some (Err x, bc)" for f x bc
    by (subst skipLoop.simps) simp
  ultimately show ?thesis
    using c2 opened
    by (auto simp: Conn_ReadMessage_def Conn_ReadBatch_def readOne_def Batch_ReadMessage_def Batch_close_def silentEOF_def
        storeReader_def exchanged_def sameConfig_def checkTimeoutErr_def deadline_defs Let_def)
qed

theorem Conn_ReadMessage_end_witness:
  "\<exists>c'. Conn_ReadMessage Map.empty (- 5) 100
      (exampleConn False (responseBytes 1 (fetchHeaderV2 0 [116] 0 0 0 0) @ [])) = Some (Ok None, c')"
  using Conn_ReadMessage_end [OF usable_exampleConn, where maxBytes = 100 and topic = "[116]" and throttle = 0 and part = 0 and
      rest = "[]" and e = EOF and codecs = Map.empty and now = "- 5"]
  by (auto simp: exampleConn_def okString_def checkTimeoutErr_def adjustDeadlineForRTT_def IsZero_def zeroTime_def deadlineOf_def
      Sub_def defaultRTT_def Add_def go_div_def)

text \<open>The header of a version 5 fetch response, up to the size of the message set.\<close>

definition fetchHeaderV5 :: "int32 \<Rightarrow> gostring \<Rightarrow> int32 \<Rightarrow> int16 \<Rightarrow> int64 \<Rightarrow> int64 \<Rightarrow> int64 \<Rightarrow> byte list" where
  "fetchHeaderV5 throttle topic part code highWaterMark lastStable logStart =
     PutUint32 throttle @ PutUint32 1 @ writeString [] topic @ PutUint32 1 @ PutUint32 part @ PutUint16 code @
     PutUint64 highWaterMark @ PutUint64 lastStable @ PutUint64 logStart @ PutUint32 0"

lemma stops_readFetchResponseHeaderV5:
  assumes "okString topic" "code \<noteq> 0"
  shows "stops readFetchResponseHeaderV5 (fetchHeaderV5 throttle topic part code highWaterMark lastStable logStart)
    (KafkaError (sint code))"
proof -
  have len: "parses readArrayLen (PutUint32 0) 0"
    unfolding readArrayLen_def by (rule parses_rbind_ret [OF parse_ints(3)]) simp
  have "parses readAbortedTransactions (PutUint32 0 @ []) []"
    unfolding readAbortedTransactions_def by (rule parses_rbind [OF len]) simp
  then have txs: "parses readAbortedTransactions (PutUint32 0) []" by simp
  have count: "parses (checkCount what 1) [] ()" for what by (simp add: checkCount_def)
  have "stops readFetchResponseHeaderV5
      (PutUint32 throttle @ PutUint32 1 @ [] @ writeString [] topic @ PutUint32 1 @ [] @ PutUint32 part @ PutUint16 code @
       PutUint64 highWaterMark @ PutUint64 lastStable @ PutUint64 logStart @ PutUint32 0 @ []) (KafkaError (sint code))"
    unfolding readFetchResponseHeaderV5_def
    by (rule stops_rbind_parses, rule parse_ints(3) parse_ints(2) parse_ints(4) count parses_discardString [OF assms(1)] txs)+
      (simp add: assms(2) stops_rfail)
  then show ?thesis by (simp add: fetchHeaderV5_def)
qed

text \<open>C34. When the broker answers a version 5 fetch with an error code, the batch reports the error and the
  connection stays open, but the size of the (empty) message set is left in the stream: the next operation does
  not return, unless the size of the next response happens to be its identifier.\<close>

theorem Conn_ReadBatch_desync:
  assumes "usable c" "checkBounds cfg c = None" "cn_offset c \<noteq> FirstOffset" "cn_offset c \<noteq> LastOffset" "cn_fetchVersion c = 5"
    and "okString topic" "code \<noteq> 0"
    and "cn_rbuf c = \<lparr>rd_bytes = responseBytes (cn_correlationID c + 1)
        (fetchHeaderV5 throttle topic part code highWaterMark lastStable logStart @ PutUint32 0) @ responseBytes corr body @ rest, rd_err = e\<rparr>"
    and "of_nat (4 + length body) \<noteq> cn_correlationID c + 2"
  shows "\<exists>b c1 b' c'. Conn_ReadBatchWith now cfg c = Some (Ok (), b, c1) \<and>
    Batch_close (b, c1) = (Some (KafkaError (sint code)), b', c') \<and> \<not> nt_closed (cn_net c') \<and> Conn_readOffset t c' = None"
proof -
  let ?head = "fetchHeaderV5 throttle topic part code highWaterMark lastStable logStart"
  let ?next = "responseBytes corr body @ rest"
  let ?adjusted = "adjustDeadlineForRTT (deadlineOf RDeadline c) now defaultRTT"
  have len: "length (?head @ PutUint32 0) < 2 ^ 31 - 4" using assms(6) by (simp add: fetchHeaderV5_def wire okString_def)
  obtain c2 where c2: "Conn_ReadBatchWith now cfg c = Some (openBatch ?adjusted now (cn_offset c) (int (length (?head @ PutUint32 0))) c2)"
    "exchanged c (fetchBytes now cfg c) \<lparr>rd_bytes = (?head @ PutUint32 0) @ ?next, rd_err = e\<rparr> False c2"
    using Conn_ReadBatchWith_response [OF assms(1-4) len assms(8)] by blast
  have stop: "readFetchResponseHeaderV5 (\<lparr>rd_bytes = (?head @ PutUint32 0) @ ?next, rd_err = e\<rparr>, int (length (?head @ PutUint32 0))) =
      (Err (KafkaError (sint code)), \<lparr>rd_bytes = PutUint32 0 @ ?next, rd_err = e\<rparr>, 4)"
    using stopsD [OF stops_readFetchResponseHeaderV5 [OF assms(6,7)], of 4 "int (length (?head @ PutUint32 0))" _ _ _ _ _ "PutUint32 0 @ ?next" e]
    by simp
  let ?c3 = "c2\<lparr>cn_rbuf := \<lparr>rd_bytes = PutUint32 0 @ ?next, rd_err = e\<rparr>\<rparr>"
  obtain b where b: "openBatch ?adjusted now (cn_offset c) (int (length (?head @ PutUint32 0))) c2 = (Ok (), b, ?c3)"
    "ba_err b = Some (KafkaError (sint code))" "ba_msgs b = None" "ba_conn b"
    using c2(2) assms(5) stop
    by (auto simp: openBatch_def exchanged_def sameConfig_def Let_def dontExpectEOF_def)
  obtain b' c' where close: "Batch_close (b, ?c3) = (Some (KafkaError (sint code)), b', c')"
    "exchanged c (fetchBytes now cfg c) \<lparr>rd_bytes = PutUint32 0 @ ?next, rd_err = e\<rparr> False (c'\<lparr>cn_offset := cn_offset c\<rparr>)"
    using b c2(2) by (auto simp: Batch_close_def silentEOF_def Let_def exchanged_def sameConfig_def deadline_defs)
  have u: "usable c'" "\<not> nt_closed (cn_net c')" "cn_correlationID c' = cn_correlationID c + 1"
    "peekResponseSizeAndID (cn_rbuf c') = Ok (0, of_nat (4 + length body))"
    using close(2) assms(1)
    by (simp_all add: exchanged_def sameConfig_def usable_def peekResponseSizeAndID_def Peek_def bufSize_def responseBytes_def)
  have "Conn_readOffset t c' = None"
    unfolding Conn_readOffset_def readOperation_def
    by (rule Conn_do_stuck [OF u(1) _ u(4),
          where bs = "writeListOffsetRequestV1 [] (cn_correlationID c' + 1) (cn_clientID c') (cn_topic c') (cn_partition c') t"])
      (use u(3) assms(9) in \<open>simp_all add: sameConfig_def add.assoc\<close>)
  then show ?thesis using c2(1) b(1) close(1) u(2) by auto
qed

theorem Conn_ReadBatch_desync_witness:
  "\<exists>b c1 b' c'. Conn_ReadBatchWith 5 \<lparr>rb_MinBytes = 1, rb_MaxBytes = 100, rb_IsolationLevel = 0\<rparr>
      ((exampleConn False (responseBytes 1 (fetchHeaderV5 0 [116] 0 1 9 9 0 @ PutUint32 0) @ responseBytes 2 [0, 0, 0, 0] @ []))
         \<lparr>cn_fetchVersion := 5\<rparr>) = Some (Ok (), b, c1) \<and>
    Batch_close (b, c1) = (Some (KafkaError 1), b', c') \<and> \<not> nt_closed (cn_net c') \<and> Conn_readOffset (- 1) c' = None"
proof -
  let ?c = "(exampleConn False (responseBytes 1 (fetchHeaderV5 0 [116] 0 1 9 9 0 @ PutUint32 0) @ responseBytes 2 [0, 0, 0, 0] @ []))
         \<lparr>cn_fetchVersion := 5\<rparr>"
  have "usable ?c" by (simp add: usable_def exampleConn_def)
  from Conn_ReadBatch_desync [OF this, where cfg = "\<lparr>rb_MinBytes = 1, rb_MaxBytes = 100, rb_IsolationLevel = 0\<rparr>" and
      topic = "[116]" and throttle = 0 and part = 0 and code = 1 and highWaterMark = 9 and lastStable = 9 and logStart = 0 and
      corr = 2 and body = "[0, 0, 0, 0]" and rest = "[]" and e = EOF and now = 5 and t = "- 1"]
  show ?thesis by (simp add: exampleConn_def checkBounds_def okString_def)
qed

end
