(* ===== verification/Writer.thy ===== *)
theory Writer
  imports Balancer Stats Batch
begin

section \<open>Writers (writer.go)\<close>

text \<open>
  A \<open>Writer\<close> takes messages from its callers, lets a balancer choose a partition for each, and passes it to the
  partition writer of that partition, a goroutine that groups messages into batches and produces them over a
  connection. The parts and their models:

  \<^item> \<open>writer.write\<close>, \<open>dial\<close>: a batch is produced with retries (\<open>writeLoop\<close>, \<open>writer_write\<close>). Dialling goes through the
    network; the outcome of the dial of each broker in each attempt is a parameter, as is the order in which
    \<open>shuffledStrings\<close> puts the brokers. On a connection the write is \<^const>\<open>Conn_WriteCompressedMessages\<close>.
  \<^item> \<open>writer.run\<close>: the loop of the goroutine, one iteration (\<open>writer_step\<close>) for each value that its \<open>select\<close>
    receives: a message, the closing of its channel, or the batch timer.
  \<^item> \<open>Writer.run\<close>: the goroutine that routes messages and follows changes of the partitions.
  \<^item> \<open>Writer.WriteMessages\<close>: the caller's side with its attempts.

  A channel on which a caller waits for results is a number, and \<open>None\<close> is the nil channel. Logging and the three
  summaries of durations are left out.
\<close>

subsection \<open>Configuration\<close>

record WriterConfig =
  wc_Brokers :: "gostring list"
  wc_Topic :: gostring
  wc_MaxAttempts :: int
  wc_QueueCapacity :: int
  wc_BatchSize :: int
  wc_Retries :: int
  wc_RetryBackoffInterval :: duration
  wc_BatchBytes :: int
  wc_BatchTimeout :: duration
  wc_ReadTimeout :: duration
  wc_WriteTimeout :: duration
  wc_RebalanceInterval :: duration
  wc_RequiredAcks :: int
  wc_Async :: bool
  wc_CompressionCodec :: "CompressionCodec option"

record writerStats =
  ws_dials :: int64
  ws_writes :: int64
  ws_messages :: int64
  ws_bytes :: int64
  ws_rebalances :: int64
  ws_errors :: int64
  ws_retries :: summary
  ws_batchSize :: summary
  ws_batchSizeBytes :: summary

text \<open>The configuration that \<open>NewWriter\<close> completes and the statistics it starts from.\<close>

definition NewWriter :: "WriterConfig \<Rightarrow> (go_error, WriterConfig \<times> writerStats) result" where
  "NewWriter config =
     (if wc_Brokers config = [] then Panic (PanicMessage ''cannot create a kafka writer with an empty list of brokers'')
      else if wc_Topic config = [] then Panic (PanicMessage ''cannot create a kafka writer with an empty topic'')
      else
        let default = (\<lambda>x d. if x = 0 then d else x);
            defaultTime = (\<lambda>x d. if x = 0 then d else x)
        in Ok (config\<lparr>
            wc_MaxAttempts := default (wc_MaxAttempts config) 10,
            wc_RetryBackoffInterval := defaultTime (wc_RetryBackoffInterval config) (100 * Millisecond),
            wc_QueueCapacity := default (wc_QueueCapacity config) 100,
            wc_BatchSize := default (wc_BatchSize config) 100,
            wc_BatchBytes := default (wc_BatchBytes config) 1048576,
            wc_BatchTimeout := defaultTime (wc_BatchTimeout config) (1 * Second),
            wc_ReadTimeout := defaultTime (wc_ReadTimeout config) (10 * Second),
            wc_WriteTimeout := defaultTime (wc_WriteTimeout config) (10 * Second),
            wc_RebalanceInterval := defaultTime (wc_RebalanceInterval config) (15 * Second)\<rparr>,
          \<lparr>ws_dials = 0, ws_writes = 0, ws_messages = 0, ws_bytes = 0, ws_rebalances = 0, ws_errors = 0,
           ws_retries = makeSummary, ws_batchSize = zeroSummary, ws_batchSizeBytes = zeroSummary\<rparr>))"

record partition_writer =
  pw_brokers :: "gostring list"
  pw_topic :: gostring
  pw_partition :: int
  pw_requiredAcks :: int
  pw_batchSize :: int
  pw_maxMessageBytes :: int
  pw_retries :: int
  pw_writeTimeout :: duration
  pw_codec :: "CompressionCodec option"

definition newWriter :: "int \<Rightarrow> WriterConfig \<Rightarrow> partition_writer" where
  "newWriter part config =
     \<lparr>pw_brokers = wc_Brokers config, pw_topic = wc_Topic config, pw_partition = part,
      pw_requiredAcks = wc_RequiredAcks config, pw_batchSize = wc_BatchSize config,
      pw_maxMessageBytes = wc_BatchBytes config, pw_retries = wc_Retries config,
      pw_writeTimeout = wc_WriteTimeout config, pw_codec = wc_CompressionCodec config\<rparr>"

subsection \<open>Producing a batch\<close>

text \<open>
  \<open>shuffledStrings\<close> with the numbers that the random generator returns: in the step \<open>i\<close> a number up to \<open>i\<close>.
\<close>

definition shuffledStrings :: "(nat \<Rightarrow> nat) \<Rightarrow> gostring list \<Rightarrow> gostring list" where
  "shuffledStrings rnd xs =
     fold (\<lambda>i xs. let j = rnd i mod (i + 1) in xs[i := xs ! j, j := xs ! i]) [0..<length xs] xs"

text \<open>The dial of a broker fails (\<open>Inl\<close>) or gives a connection.\<close>

fun writer_dial ::
  "partition_writer \<Rightarrow> (gostring \<Rightarrow> go_error + Conn) \<Rightarrow> gostring list \<Rightarrow> writerStats \<Rightarrow>
   go_error option \<times> Conn option \<times> writerStats" where
  "writer_dial w dialLeader [] stats = (None, None, stats)"
| "writer_dial w dialLeader (broker # brokers) stats =
     (case dialLeader broker of
        Inr conn \<Rightarrow>
          (None, Some (case Conn_SetRequiredAcks (pw_requiredAcks w) conn of Some (_, c) \<Rightarrow> c | None \<Rightarrow> conn),
           stats\<lparr>ws_dials := counter_observe 1 (ws_dials stats)\<rparr>)
      | Inl e \<Rightarrow> (if brokers = [] then (Some e, None, stats) else writer_dial w dialLeader brokers stats))"

definition needsReconnect :: "go_error \<Rightarrow> bool" where
  "needsReconnect err \<longleftrightarrow> implements_net_Error err \<or> err = KafkaError NotLeaderForPartition"

definition shouldRetry :: "go_error \<Rightarrow> int \<Rightarrow> int \<Rightarrow> bool" where
  "shouldRetry err maxRetries attempts \<longleftrightarrow> \<not> attempts \<ge> maxRetries \<and> (isTemporary err \<or> needsReconnect err)"

text \<open>
  \<open>writeCompressedMessages\<close> sets the missing times in the slice that it is given, which is the batch: later attempts and
  the errors for the callers have them. It stops at the first message that it refuses.
\<close>

fun stampTimes :: "gostring \<Rightarrow> gotime \<Rightarrow> Message list \<Rightarrow> Message list" where
  "stampTimes topic writeTime [] = []"
| "stampTimes topic writeTime (msg # msgs) =
     (if msg_Topic msg \<noteq> [] \<and> msg_Topic msg \<noteq> topic \<or> msg_Partition msg \<noteq> 0 then msg # msgs
      else (if IsZero (msg_Time msg) then msg\<lparr>msg_Time := writeTime\<rparr> else msg) # stampTimes topic writeTime msgs)"

datatype write_outcome =
    DialFailed go_error "Message list" writerStats
  | Finished "go_error option" Conn "Message list" writerStats

datatype attempt = Again "Conn option" "Message list" writerStats | Stop write_outcome

text \<open>
  One iteration of the loop of \<open>write\<close>, with the number of attempts made so far. Its dial tries the brokers in the
  order \<open>order attempts\<close>. The connection that a retry gives up is closed and forgotten.
\<close>

definition writeAttempt ::
  "partition_writer \<Rightarrow> gotime \<Rightarrow> (int \<Rightarrow> gostring list) \<Rightarrow> (int \<Rightarrow> gostring \<Rightarrow> go_error + Conn) \<Rightarrow>
   int \<Rightarrow> Conn option \<Rightarrow> Message list \<Rightarrow> writerStats \<Rightarrow> (go_error, attempt) result option" where
  "writeAttempt w now order dialLeader attempts conn batch stats =
     (let (err, conn, stats) =
            (case conn of Some c \<Rightarrow> (None, conn, stats) | None \<Rightarrow> writer_dial w (dialLeader attempts) (order attempts) stats);
          failed = (\<lambda>stats. stats\<lparr>ws_errors := counter_observe 1 (ws_errors stats)\<rparr>);
          retried = (\<lambda>stats. stats\<lparr>ws_retries := summary_observe (word_of_int (attempts + 1)) (ws_retries stats)\<rparr>)
      in (case err of
            Some e \<Rightarrow>
              if shouldRetry e (pw_retries w) attempts then Some (Ok (Again None batch (retried (failed stats))))
              else Some (Ok (Stop (DialFailed e batch (failed stats))))
          | None \<Rightarrow>
              (case conn of
                 None \<Rightarrow> Some (Panic NilDereference)
               | Some c \<Rightarrow>
                   let stats = stats\<lparr>ws_writes := counter_observe 1 (ws_writes stats)\<rparr>;
                       c = Conn_SetWriteDeadline (Add now (pw_writeTimeout w)) c;
                       batch' = stampTimes (cn_topic c) now batch
                   in (case Conn_WriteCompressedMessages now (pw_codec w) batch c of
                         None \<Rightarrow> None
                       | Some (Panic p, c) \<Rightarrow> Some (Panic p)
                       | Some (Ok _, c) \<Rightarrow> Some (Ok (Stop (Finished None c batch' stats)))
                       | Some (Err e, c) \<Rightarrow>
                           if e = KafkaError DuplicateSequenceNumber then Some (Ok (Stop (Finished None c batch' stats)))
                           else if shouldRetry e (pw_retries w) attempts then
                             Some (Ok (Again (if needsReconnect e then None else Some c) batch' (retried (failed stats))))
                           else Some (Ok (Stop (Finished (Some (Errorf ''error writing messages'')) c batch' (failed stats))))))))"

lemma writeAttempt_Again:
  "writeAttempt w now order dial attempts conn batch stats = Some (Ok (Again conn' batch' stats')) \<Longrightarrow> attempts < pw_retries w"
  by (auto simp: writeAttempt_def Let_def shouldRetry_def split: prod.splits option.splits if_splits result.splits)

function writeLoop ::
  "partition_writer \<Rightarrow> gotime \<Rightarrow> (int \<Rightarrow> gostring list) \<Rightarrow> (int \<Rightarrow> gostring \<Rightarrow> go_error + Conn) \<Rightarrow>
   int \<Rightarrow> Conn option \<Rightarrow> Message list \<Rightarrow> writerStats \<Rightarrow> (go_error, write_outcome) result option" where
  "writeLoop w now order dialLeader attempts conn batch stats =
     (case writeAttempt w now order dialLeader attempts conn batch stats of
        None \<Rightarrow> None
      | Some (Panic p) \<Rightarrow> Some (Panic p)
      | Some (Err e) \<Rightarrow> Some (Err e)
      | Some (Ok (Stop out)) \<Rightarrow> Some (Ok out)
      | Some (Ok (Again conn batch stats)) \<Rightarrow> writeLoop w now order dialLeader (attempts + 1) conn batch stats)"
  by pat_completeness auto
termination
  by (relation "measure (\<lambda>(w, _, _, _, attempts, _). nat (pw_retries w - attempts))") (auto dest: writeAttempt_Again)

declare writeLoop.simps [simp del]

text \<open>What a caller receives for a message: success, or a \<open>writerError\<close>.\<close>

datatype reply = Delivered | Failed Message go_error

definition writer_write ::
  "partition_writer \<Rightarrow> gotime \<Rightarrow> (int \<Rightarrow> gostring list) \<Rightarrow> (int \<Rightarrow> gostring \<Rightarrow> go_error + Conn) \<Rightarrow>
   Conn option \<Rightarrow> Message list \<Rightarrow> nat option list \<Rightarrow> writerStats \<Rightarrow>
   (go_error, (nat option \<times> reply) list \<times> Conn option \<times> go_error option \<times> writerStats) result option" where
  "writer_write w now order dialLeader conn batch resch stats =
     (case writeLoop w now order dialLeader 0 conn batch stats of
        None \<Rightarrow> None
      | Some (Panic p) \<Rightarrow> Some (Panic p)
      | Some (Err e) \<Rightarrow> Some (Err e)
      | Some (Ok (DialFailed e batch stats)) \<Rightarrow>
          Some (Ok (zip resch (map (\<lambda>m. Failed m e) batch), None, Some e, stats))
      | Some (Ok (Finished err c batch stats)) \<Rightarrow>
          let (replies, stats) =
                (case err of
                   Some e \<Rightarrow> (zip resch (map (\<lambda>m. Failed m e) batch), stats)
                 | None \<Rightarrow>
                     (map (\<lambda>res. (res, Delivered)) resch,
                      fold (\<lambda>m stats. stats\<lparr>ws_messages := counter_observe 1 (ws_messages stats),
                          ws_bytes := counter_observe (of_nat (msgBytes m)) (ws_bytes stats)\<rparr>) batch stats));
              stats = stats\<lparr>ws_batchSize := summary_observe (of_nat (length batch)) (ws_batchSize stats)\<rparr>
          in Some (Ok (replies, Some c, err, stats)))"

subsection \<open>The loop of a partition writer\<close>

record writerMessage =
  wm_msg :: Message
  wm_res :: "nat option"

definition zeroWriterMessage :: writerMessage where
  "zeroWriterMessage = \<lparr>wm_msg = zeroMessage, wm_res = None\<rparr>"

record batcher =
  bt_conn :: "Conn option"
  bt_done :: bool
  bt_batch :: "Message list"
  bt_resch :: "nat option list"
  bt_lastMsg :: writerMessage
  bt_batchSizeBytes :: int
  bt_batchTimerRunning :: bool
  bt_stats :: writerStats

definition newBatcher :: "writerStats \<Rightarrow> batcher" where
  "newBatcher stats =
     \<lparr>bt_conn = None, bt_done = False, bt_batch = [], bt_resch = [], bt_lastMsg = zeroWriterMessage,
      bt_batchSizeBytes = 0, bt_batchTimerRunning = False, bt_stats = stats\<rparr>"

definition sizeOf :: "Message \<Rightarrow> int" where
  "sizeOf msg = sint (message_size (Message_message msg))"

text \<open>What the \<open>select\<close> of an iteration receives.\<close>

datatype writer_event = Received writerMessage | MsgsClosed | TimerFired

text \<open>A message that did not fit into the last batch starts the new one.\<close>

definition takeLast :: "batcher \<Rightarrow> batcher" where
  "takeLast b =
     (let lastMsg = bt_lastMsg b in
      if contents (msg_Value (wm_msg lastMsg)) \<noteq> [] then
        b\<lparr>bt_batch := bt_batch b @ [wm_msg lastMsg], bt_resch := bt_resch b @ [wm_res lastMsg],
          bt_batchSizeBytes := bt_batchSizeBytes b + sizeOf (wm_msg lastMsg),
          bt_lastMsg := zeroWriterMessage, bt_batchTimerRunning := True\<rparr>
      else b)"

text \<open>The \<open>select\<close>: the new state, and whether the batch must be flushed.\<close>

fun onEvent :: "partition_writer \<Rightarrow> writer_event \<Rightarrow> batcher \<Rightarrow> batcher \<times> bool" where
  "onEvent w MsgsClosed b = (b\<lparr>bt_done := True, bt_batchTimerRunning := True\<rparr>, True)"
| "onEvent w (Received wm) b =
     (if sizeOf (wm_msg wm) + bt_batchSizeBytes b > pw_maxMessageBytes w then (b\<lparr>bt_lastMsg := wm\<rparr>, True)
      else
        let b = b\<lparr>bt_batch := bt_batch b @ [wm_msg wm], bt_resch := bt_resch b @ [wm_res wm],
                  bt_batchSizeBytes := bt_batchSizeBytes b + sizeOf (wm_msg wm), bt_batchTimerRunning := True\<rparr>
        in (b, int (length (bt_batch b)) \<ge> pw_batchSize w \<or> bt_batchSizeBytes b \<ge> pw_maxMessageBytes w))"
| "onEvent w TimerFired b = (b\<lparr>bt_batchTimerRunning := False\<rparr>, True)"

text \<open>
  The flush, with the \<open>write\<close> of the partition writer. Its output is the batches that were written, one at most, each
  with the replies to the callers.
\<close>

type_synonym write_fun =
  "Conn option \<Rightarrow> Message list \<Rightarrow> nat option list \<Rightarrow> writerStats \<Rightarrow>
   (go_error, (nat option \<times> reply) list \<times> Conn option \<times> go_error option \<times> writerStats) result option"

type_synonym written = "(Message list \<times> (nat option \<times> reply) list) list"

definition flush :: "write_fun \<Rightarrow> batcher \<Rightarrow> (go_error, written \<times> batcher) result option" where
  "flush wr b =
     (let stats = bt_stats b;
          b = b\<lparr>bt_stats := stats\<lparr>ws_batchSizeBytes := summary_observe (word_of_int (bt_batchSizeBytes b)) (ws_batchSizeBytes stats)\<rparr>,
                bt_batchTimerRunning := False\<rparr>
      in if bt_batch b = [] then Some (Ok ([], b))
         else (case wr (bt_conn b) (bt_batch b) (bt_resch b) (bt_stats b) of
             None \<Rightarrow> None
           | Some (Panic p) \<Rightarrow> Some (Panic p)
           | Some (Err e) \<Rightarrow> Some (Err e)
           | Some (Ok (replies, conn, err, stats)) \<Rightarrow>
               Some (Ok ([(bt_batch b, replies)],
                 b\<lparr>bt_conn := (if err \<noteq> None then None else conn), bt_batch := [], bt_resch := [],
                   bt_batchSizeBytes := 0, bt_stats := stats\<rparr>))))"

definition writer_step :: "partition_writer \<Rightarrow> write_fun \<Rightarrow> writer_event \<Rightarrow> batcher \<Rightarrow> (go_error, written \<times> batcher) result option" where
  "writer_step w wr ev b =
     (case onEvent w ev (takeLast b) of (b, mustFlush) \<Rightarrow> if mustFlush then flush wr b else Some (Ok ([], b)))"

text \<open>The loop over a sequence of events; \<open>wr i\<close> is the \<open>write\<close> of the iteration \<open>i\<close>.\<close>

fun writer_run ::
  "partition_writer \<Rightarrow> (nat \<Rightarrow> write_fun) \<Rightarrow> nat \<Rightarrow> writer_event list \<Rightarrow> batcher \<Rightarrow> (go_error, written \<times> batcher) result option" where
  "writer_run w wr i [] b = Some (Ok ([], b))"
| "writer_run w wr i (ev # evs) b =
     (if bt_done b then Some (Ok ([], b))
      else (case writer_step w (wr i) ev b of
          None \<Rightarrow> None
        | Some (Panic p) \<Rightarrow> Some (Panic p)
        | Some (Err e) \<Rightarrow> Some (Err e)
        | Some (Ok (out, b)) \<Rightarrow>
            (case writer_run w wr (i + 1) evs b of
               None \<Rightarrow> None
             | Some (Panic p) \<Rightarrow> Some (Panic p)
             | Some (Err e) \<Rightarrow> Some (Err e)
             | Some (Ok (out', b)) \<Rightarrow> Some (Ok (out @ out', b)))))"

subsection \<open>The writes of a batch\<close>

lemma length_stampTimes [simp]: "length (stampTimes topic now batch) = length batch"
  by (induction batch) simp_all

text \<open>Two messages that differ in their times only.\<close>

definition sameButTime :: "Message \<Rightarrow> Message \<Rightarrow> bool" where
  "sameButTime m m' \<longleftrightarrow> m\<lparr>msg_Time := zeroTime\<rparr> = m'\<lparr>msg_Time := zeroTime\<rparr>"

lemma sameButTime_refl [simp]: "sameButTime m m"
  by (simp add: sameButTime_def)

lemma sameButTime_trans: "sameButTime a b \<Longrightarrow> sameButTime b c \<Longrightarrow> sameButTime a c"
  by (auto simp: sameButTime_def)

lemma stampTimes_same: "list_all2 sameButTime batch (stampTimes topic now batch)"
  by (induction batch) (auto simp: sameButTime_def list.rel_refl)

fun outcomeBatch :: "write_outcome \<Rightarrow> Message list" where
  "outcomeBatch (DialFailed e batch stats) = batch"
| "outcomeBatch (Finished err c batch stats) = batch"

fun outcomeStats :: "write_outcome \<Rightarrow> writerStats" where
  "outcomeStats (DialFailed e batch stats) = stats"
| "outcomeStats (Finished err c batch stats) = stats"

lemma writer_dial_writes: "ws_writes (snd (snd (writer_dial w dial brokers stats))) = ws_writes stats"
  by (induction brokers) (simp_all split: sum.split)

lemma writeAttempt_outcome:
  assumes "writeAttempt w now order dial attempts conn batch stats = Some (Ok res)"
  shows "case res of
      Again conn' batch' stats' \<Rightarrow> list_all2 sameButTime batch batch' \<and> ws_writes stats' \<in> {ws_writes stats, ws_writes stats + 1}
    | Stop out \<Rightarrow> list_all2 sameButTime batch (outcomeBatch out) \<and>
        ws_writes (outcomeStats out) \<in> {ws_writes stats, ws_writes stats + 1}"
proof -
  have writes: "ws_writes stats' = ws_writes stats" if "writer_dial w d bs stats = (err, conn', stats')" for d bs err conn' stats'
    using writer_dial_writes [of w d bs stats] that by simp
  show ?thesis
    using assms
    by (auto simp: writeAttempt_def Let_def counter_observe_def list.rel_refl stampTimes_same
        split: prod.splits option.splits if_splits result.splits dest!: writes)
qed

lemma writeLoop_outcome:
  assumes "writeLoop w now order dial attempts conn batch stats = Some (Ok out)"
  shows "list_all2 sameButTime batch (outcomeBatch out) \<and>
    (\<exists>k. ws_writes (outcomeStats out) = ws_writes stats + of_nat k \<and> int k \<le> max 0 (pw_retries w - attempts) + 1)"
  using assms
proof (induction w now order dial attempts conn batch stats rule: writeLoop.induct)
  case (1 w now order dial attempts conn batch stats)
  have step: "\<exists>k\<le>1. v = u + of_nat k" if "v \<in> {u, u + 1}" for u v :: int64
    using that by (elim insertE emptyE) (rule exI [of _ 0], simp, rule exI [of _ 1], simp)
  from 1(2) obtain res where res: "writeAttempt w now order dial attempts conn batch stats = Some (Ok res)"
    by (subst (asm) writeLoop.simps) (auto split: option.splits result.splits)
  note one = writeAttempt_outcome [OF res]
  show ?case
  proof (cases res)
    case (Stop out')
    with 1(2) res have "out' = out" by (subst (asm) writeLoop.simps) simp
    with one Stop step [of "ws_writes (outcomeStats out)" "ws_writes stats"] show ?thesis by force
  next
    case (Again conn' batch' stats')
    with 1(2) res have "writeLoop w now order dial (attempts + 1) conn' batch' stats' = Some (Ok out)"
      by (subst (asm) writeLoop.simps) simp
    from 1(1) [OF res refl Again this] obtain k where k: "list_all2 sameButTime batch' (outcomeBatch out)"
      "ws_writes (outcomeStats out) = ws_writes stats' + of_nat k" "int k \<le> max 0 (pw_retries w - (attempts + 1)) + 1"
      by blast
    obtain j where j: "j \<le> 1" "ws_writes stats' = ws_writes stats + of_nat j"
      using one Again step by auto
    have "list_all2 sameButTime batch (outcomeBatch out)"
      using one Again k(1) list_all2_trans [OF sameButTime_trans] by auto
    moreover have "attempts < pw_retries w"
      using writeAttempt_Again res Again by blast
    ultimately show ?thesis
      using k(2,3) j by (intro conjI exI [of _ "j + k"]) simp_all
  qed
qed

text \<open>
  What the loop of a partition writer needs of \<open>write\<close>: one reply for each message, on its channel, all of them
  positive or all of them with the same error.
\<close>

locale batch_sink =
  fixes wr :: "nat \<Rightarrow> write_fun"
  assumes answers: "wr i conn batch resch stats = Some (Ok (replies, conn', err, stats')) \<Longrightarrow> length batch = length resch \<Longrightarrow>
    map fst replies = resch \<and>
    (case err of
       None \<Rightarrow> \<forall>r\<in>set replies. snd r = Delivered
     | Some e \<Rightarrow> \<exists>batch'. list_all2 sameButTime batch batch' \<and> map snd replies = map (\<lambda>m. Failed m e) batch')"

lemma writer_write_answers:
  assumes "writer_write w now order dial conn batch resch stats = Some (Ok (replies, conn', err, stats'))"
    "length batch = length resch"
  shows "map fst replies = resch \<and>
    (case err of
       None \<Rightarrow> \<forall>r\<in>set replies. snd r = Delivered
     | Some e \<Rightarrow> \<exists>batch'. list_all2 sameButTime batch batch' \<and> map snd replies = map (\<lambda>m. Failed m e) batch')"
proof -
  obtain out where out: "writeLoop w now order dial 0 conn batch stats = Some (Ok out)"
    using assms(1) by (auto simp: writer_write_def split: option.splits result.splits)
  then have same: "list_all2 sameButTime batch (outcomeBatch out)"
    using writeLoop_outcome by blast
  then have "length (outcomeBatch out) = length resch"
    using assms(2) by (simp add: list_all2_lengthD [symmetric])
  with assms(1) out same show ?thesis
    by (cases out) (auto simp: writer_write_def Let_def comp_def split: option.splits prod.splits)
qed

interpretation ww: batch_sink "\<lambda>i. writer_write w (now i) (order i) (dial i)"
  by unfold_locales (rule writer_write_answers)

subsection \<open>Nothing is lost\<close>

text \<open>The messages that a partition writer holds, in the order of their arrival, each with the channel of its caller.\<close>

definition heldBack :: "batcher \<Rightarrow> (Message \<times> nat option) list" where
  "heldBack b =
     (if contents (msg_Value (wm_msg (bt_lastMsg b))) \<noteq> [] then [(wm_msg (bt_lastMsg b), wm_res (bt_lastMsg b))] else [])"

definition pending :: "batcher \<Rightarrow> (Message \<times> nat option) list" where
  "pending b = zip (bt_batch b) (bt_resch b) @ heldBack b"

text \<open>The messages that were answered, each with the channel on which it was.\<close>

definition answered :: "written \<Rightarrow> (Message \<times> nat option) list" where
  "answered out = concat (map (\<lambda>(batch, replies). zip batch (map fst replies)) out)"

text \<open>The messages that arrive before the channel is closed.\<close>

fun arrivals :: "writer_event list \<Rightarrow> (Message \<times> nat option) list" where
  "arrivals [] = []"
| "arrivals (Received wm # evs) = (wm_msg wm, wm_res wm) # arrivals evs"
| "arrivals (TimerFired # evs) = arrivals evs"
| "arrivals (MsgsClosed # evs) = []"

fun hasValue :: "writer_event \<Rightarrow> bool" where
  "hasValue (Received wm) \<longleftrightarrow> contents (msg_Value (wm_msg wm)) \<noteq> []"
| "hasValue _ \<longleftrightarrow> True"

lemma heldBack_zero [simp]: "contents (msg_Value (wm_msg zeroWriterMessage)) = []"
  by (simp add: zeroWriterMessage_def zeroMessage_def)

lemma takeLast_pending:
  "length (bt_batch b) = length (bt_resch b) \<Longrightarrow>
   length (bt_batch (takeLast b)) = length (bt_resch (takeLast b)) \<and> pending (takeLast b) = pending b \<and>
   heldBack (takeLast b) = [] \<and> bt_done (takeLast b) = bt_done b"
  by (simp add: takeLast_def Let_def pending_def heldBack_def)

lemma onEvent_pending:
  assumes "onEvent w ev b = (b', must)" "length (bt_batch b) = length (bt_resch b)" "heldBack b = []" "hasValue ev"
  shows "length (bt_batch b') = length (bt_resch b') \<and>
    pending b' = pending b @ (case ev of Received wm \<Rightarrow> [(wm_msg wm, wm_res wm)] | _ \<Rightarrow> []) \<and>
    (if ev = MsgsClosed then must \<and> bt_done b' \<and> heldBack b' = [] else bt_done b' = bt_done b)"
  using assms by (cases ev) (auto simp: Let_def pending_def heldBack_def split: if_splits)

context batch_sink
begin

lemma flush_answers:
  assumes "flush (wr i) b = Some (Ok (out, b'))" "length (bt_batch b) = length (bt_resch b)"
  shows "answered out @ pending b' = pending b \<and> length (bt_batch b') = length (bt_resch b') \<and>
    bt_batch b' = [] \<and> heldBack b' = heldBack b \<and> bt_done b' = bt_done b"
  using assms answers [OF _ assms(2)]
  by (auto simp: flush_def Let_def pending_def heldBack_def answered_def split: if_splits option.splits result.splits)

lemma step_answers:
  assumes "writer_step w (wr i) ev b = Some (Ok (out, b'))" "length (bt_batch b) = length (bt_resch b)" "hasValue ev"
  shows "answered out @ pending b' = pending b @ (case ev of Received wm \<Rightarrow> [(wm_msg wm, wm_res wm)] | _ \<Rightarrow> []) \<and>
    length (bt_batch b') = length (bt_resch b') \<and>
    (if ev = MsgsClosed then bt_done b' \<and> pending b' = [] else bt_done b' = bt_done b)"
proof -
  obtain b1 must where ev: "onEvent w ev (takeLast b) = (b1, must)" by fastforce
  have b1: "length (bt_batch b1) = length (bt_resch b1)"
    "pending b1 = pending b @ (case ev of Received wm \<Rightarrow> [(wm_msg wm, wm_res wm)] | _ \<Rightarrow> [])"
    "if ev = MsgsClosed then must \<and> bt_done b1 \<and> heldBack b1 = [] else bt_done b1 = bt_done b"
    using onEvent_pending [OF ev _ _ assms(3)] takeLast_pending [OF assms(2)] by simp_all
  have step: "(if must then flush (wr i) b1 else Some (Ok ([], b1))) = Some (Ok (out, b'))"
    using assms(1) ev by (simp add: writer_step_def)
  show ?thesis
  proof (cases must)
    case True
    with step have "flush (wr i) b1 = Some (Ok (out, b'))" by simp
    from flush_answers [OF this b1(1)] b1 show ?thesis
      by (auto simp: pending_def)
  next
    case False
    with step b1 show ?thesis by (auto simp: answered_def)
  qed
qed

lemma run_answers:
  assumes "writer_run w wr i evs b = Some (Ok (out, b'))" "length (bt_batch b) = length (bt_resch b)" "list_all hasValue evs"
    "\<not> bt_done b"
  shows "answered out @ pending b' = pending b @ arrivals evs \<and> (MsgsClosed \<in> set evs \<longrightarrow> pending b' = [])"
  using assms
proof (induction evs arbitrary: b out i)
  case (Cons ev evs)
  then obtain out1 b1 out2 where o: "writer_step w (wr i) ev b = Some (Ok (out1, b1))"
    "writer_run w wr (i + 1) evs b1 = Some (Ok (out2, b'))" "out = out1 @ out2"
    by (auto split: option.splits result.splits)
  note st = step_answers [OF o(1) Cons.prems(2)]
  show ?case
  proof (cases "ev = MsgsClosed")
    case True
    with st Cons.prems(3) o(2) have "bt_done b1" "pending b1 = []" "answered out1 = pending b" by auto
    moreover from this o(2) have "out2 = []" "b' = b1" by (cases evs; simp)+
    ultimately show ?thesis using o(3) True by (simp add: answered_def)
  next
    case False
    then have *: "answered out1 @ pending b1 = pending b @ (case ev of Received wm \<Rightarrow> [(wm_msg wm, wm_res wm)] | _ \<Rightarrow> [])"
      "length (bt_batch b1) = length (bt_resch b1)" "\<not> bt_done b1"
      using st Cons.prems(3,4) by simp_all
    have "answered out2 @ pending b' = pending b1 @ arrivals evs \<and> (MsgsClosed \<in> set evs \<longrightarrow> pending b' = [])"
      using Cons.IH [OF o(2) *(2) _ *(3)] Cons.prems(3) by simp
    with * o(3) False show ?thesis
      by (cases ev) (auto simp: answered_def)
  qed
qed (simp add: answered_def)

end

subsection \<open>The size of batches\<close>

definition batchBytesOf :: "Message list \<Rightarrow> int" where
  "batchBytesOf batch = (\<Sum>m\<leftarrow>batch. sizeOf m)"

text \<open>The invariant at the start of an iteration: the batch is below the limits, and empty when a message was held back.\<close>

definition batchInv :: "partition_writer \<Rightarrow> batcher \<Rightarrow> bool" where
  "batchInv w b \<longleftrightarrow>
     bt_batchSizeBytes b = batchBytesOf (bt_batch b) \<and> bt_batchSizeBytes b \<le> pw_maxMessageBytes w \<and>
     int (length (bt_batch b)) < max 2 (pw_batchSize w) \<and>
     (contents (msg_Value (wm_msg (bt_lastMsg b))) \<noteq> [] \<longrightarrow>
        bt_batch b = [] \<and> sizeOf (wm_msg (bt_lastMsg b)) \<le> pw_maxMessageBytes w)"

definition withinLimits :: "partition_writer \<Rightarrow> Message list \<Rightarrow> bool" where
  "withinLimits w batch \<longleftrightarrow>
     batch \<noteq> [] \<and> int (length batch) \<le> max 2 (pw_batchSize w) \<and> batchBytesOf batch \<le> pw_maxMessageBytes w"

fun fits :: "partition_writer \<Rightarrow> writer_event \<Rightarrow> bool" where
  "fits w (Received wm) \<longleftrightarrow> sizeOf (wm_msg wm) \<le> pw_maxMessageBytes w"
| "fits w _ \<longleftrightarrow> True"

lemma takeLast_inv: "batchInv w b \<Longrightarrow> batchInv w (takeLast b) \<and> contents (msg_Value (wm_msg (bt_lastMsg (takeLast b)))) = []"
  by (auto simp: batchInv_def takeLast_def Let_def batchBytesOf_def)

lemma onEvent_inv:
  assumes "onEvent w ev b = (b', must)" "batchInv w b" "contents (msg_Value (wm_msg (bt_lastMsg b))) = []" "fits w ev"
    "0 \<le> pw_maxMessageBytes w"
  shows "(if must then (bt_batch b' = [] \<or> withinLimits w (bt_batch b')) \<and>
        (bt_batch b' = [] \<longrightarrow> bt_batchSizeBytes b' = 0) \<and>
        (contents (msg_Value (wm_msg (bt_lastMsg b'))) \<noteq> [] \<longrightarrow> sizeOf (wm_msg (bt_lastMsg b')) \<le> pw_maxMessageBytes w)
      else batchInv w b')"
  using assms
  by (cases ev) (auto simp: batchInv_def withinLimits_def batchBytesOf_def Let_def split: if_splits)

lemma flush_inv:
  assumes "flush wr b = Some (Ok (out, b'))" "bt_batch b = [] \<or> withinLimits w (bt_batch b)"
    "bt_batch b = [] \<longrightarrow> bt_batchSizeBytes b = 0" "0 \<le> pw_maxMessageBytes w"
    "contents (msg_Value (wm_msg (bt_lastMsg b))) \<noteq> [] \<longrightarrow> sizeOf (wm_msg (bt_lastMsg b)) \<le> pw_maxMessageBytes w"
  shows "(\<forall>batch\<in>set (map fst out). withinLimits w batch) \<and> batchInv w b'"
  using assms
  by (auto simp: flush_def Let_def batchInv_def batchBytesOf_def split: if_splits option.splits result.splits)

lemma step_inv:
  assumes "writer_step w wr ev b = Some (Ok (out, b'))" "batchInv w b" "fits w ev" "0 \<le> pw_maxMessageBytes w"
  shows "(\<forall>batch\<in>set (map fst out). withinLimits w batch) \<and> batchInv w b'"
proof -
  obtain b1 must where ev: "onEvent w ev (takeLast b) = (b1, must)" by fastforce
  note inv = onEvent_inv [OF ev _ _ assms(3,4)] takeLast_inv [OF assms(2)]
  have step: "(if must then flush wr b1 else Some (Ok ([], b1))) = Some (Ok (out, b'))"
    using assms(1) ev by (simp add: writer_step_def)
  show ?thesis
  proof (cases must)
    case True
    with step have "flush wr b1 = Some (Ok (out, b'))" by simp
    from flush_inv [OF this, of w] inv True assms(4) show ?thesis by simp
  next
    case False
    with step inv show ?thesis by auto
  qed
qed

lemma run_inv:
  assumes "writer_run w wr i evs b = Some (Ok (out, b'))" "batchInv w b" "list_all (fits w) evs" "0 \<le> pw_maxMessageBytes w"
  shows "\<forall>batch\<in>set (map fst out). withinLimits w batch"
  using assms
proof (induction evs arbitrary: b out i)
  case (Cons ev evs)
  show ?case
  proof (cases "bt_done b")
    case False
    with Cons.prems(1) obtain out1 b1 out2 where o: "writer_step w (wr i) ev b = Some (Ok (out1, b1))"
      "writer_run w wr (i + 1) evs b1 = Some (Ok (out2, b'))" "out = out1 @ out2"
      by (auto split: option.splits result.splits)
    have "(\<forall>batch\<in>set (map fst out1). withinLimits w batch) \<and> batchInv w b1"
      using step_inv [OF o(1) Cons.prems(2) _ Cons.prems(4)] Cons.prems(3) by simp
    with Cons.IH [OF o(2) _ _ Cons.prems(4)] Cons.prems(3) o(3) show ?thesis by auto
  qed (use Cons.prems(1) in simp)
qed simp

subsection \<open>Properties of partition writers\<close>

lemma newBatcher_facts [simp]:
  "bt_batch (newBatcher stats) = []" "bt_resch (newBatcher stats) = []" "\<not> bt_done (newBatcher stats)"
  "pending (newBatcher stats) = []"
  by (simp_all add: newBatcher_def pending_def heldBack_def)

text \<open>An example: a partition writer whose brokers cannot be dialled, and a message for it.\<close>

definition exampleWriter :: partition_writer where
  "exampleWriter =
     \<lparr>pw_brokers = [lit ''b''], pw_topic = lit ''t'', pw_partition = 0, pw_requiredAcks = -1, pw_batchSize = 10,
      pw_maxMessageBytes = 30, pw_retries = 0, pw_writeTimeout = 1, pw_codec = None\<rparr>"

definition exampleStats :: writerStats where
  "exampleStats =
     \<lparr>ws_dials = 0, ws_writes = 0, ws_messages = 0, ws_bytes = 0, ws_rebalances = 0, ws_errors = 0,
      ws_retries = makeSummary, ws_batchSize = zeroSummary, ws_batchSizeBytes = zeroSummary\<rparr>"

definition exampleMsg :: "nat \<Rightarrow> bytes \<Rightarrow> bytes \<Rightarrow> writerMessage" where
  "exampleMsg ch key val = \<lparr>wm_msg = zeroMessage\<lparr>msg_Key := key, msg_Value := val\<rparr>, wm_res = Some ch\<rparr>"

lemma sizeOf_eq: "sizeOf msg = sint (14 + sizeofBytes (msg_Key msg) + sizeofBytes (msg_Value msg))"
  by (simp add: sizeOf_def message_size_def Message_message_def Let_def ac_simps)

lemma example_run:
  "\<exists>out b. writer_run exampleWriter (\<lambda>i. writer_write exampleWriter 5 (\<lambda>_. [lit ''b'']) (\<lambda>_ _. Inl EOF)) 0
     [Received (exampleMsg 1 None (Some [7])), Received (exampleMsg 2 None (Some [8])), MsgsClosed] (newBatcher exampleStats) =
     Some (Ok (out, b)) \<and> out \<noteq> []"
  by (simp add: writer_step_def takeLast_def newBatcher_def Let_def exampleMsg_def exampleWriter_def exampleStats_def zeroMessage_def
      zeroWriterMessage_def sizeOf_eq sizeofBytes_def flush_def writer_write_def writeLoop.simps writeAttempt_def shouldRetry_def
      needsReconnect_def)

lemma writer_write_writes:
  assumes "writer_write w now order dial conn batch resch stats = Some (Ok (replies, conn', err, stats'))"
  shows "\<exists>k. ws_writes stats' = ws_writes stats + of_nat k \<and> int k \<le> max 0 (pw_retries w) + 1"
proof -
  obtain out where out: "writeLoop w now order dial 0 conn batch stats = Some (Ok out)"
    using assms by (auto simp: writer_write_def split: option.splits result.splits)
  have fold: "ws_writes (fold (\<lambda>m stats. stats\<lparr>ws_messages := f m stats, ws_bytes := g m stats\<rparr>) ms st) = ws_writes st" for f g ms st
    by (induction ms arbitrary: st) simp_all
  have "ws_writes stats' = ws_writes (outcomeStats out)"
    using assms out by (cases out) (auto simp: writer_write_def Let_def fold split: option.splits prod.splits)
  then show ?thesis
    using writeLoop_outcome [OF out] by simp
qed





text \<open>C38. A message without a value (a deletion marker) that does not fit into the current batch is dropped, and its caller is
  never answered: it is held back like any other message, but the loop takes a held message for none when its value is
  empty.\<close>

theorem writer_drops_tombstone:
  assumes "sizeOf (wm_msg m) < pw_maxMessageBytes w" "1 < pw_batchSize w" "sizeOf (wm_msg t) + sizeOf (wm_msg m) > pw_maxMessageBytes w"
    "contents (msg_Value (wm_msg t)) = []"
    "wr 1 None [wm_msg m] [wm_res m] (stats\<lparr>ws_batchSizeBytes := summary_observe (word_of_int (sizeOf (wm_msg m))) (ws_batchSizeBytes stats)\<rparr>) =
       Some (Ok ([(wm_res m, r)], conn, err, stats'))"
  shows "\<exists>b. writer_run w wr 0 [Received m, Received t, MsgsClosed] (newBatcher stats) =
    Some (Ok ([([wm_msg m], [(wm_res m, r)])], b)) \<and> bt_done b \<and> bt_batch b = []"
  using assms
  by (simp add: writer_step_def takeLast_def newBatcher_def Let_def flush_def)

theorem writer_drops_tombstone_witness:
  "\<exists>b. writer_run exampleWriter (\<lambda>_ conn batch resch stats. Some (Ok (map (\<lambda>r. (r, Delivered)) resch, conn, None, stats))) 0
     [Received (exampleMsg 1 None (Some [7])), Received (exampleMsg 2 (Some [3]) None), MsgsClosed] (newBatcher exampleStats) =
    Some (Ok ([([wm_msg (exampleMsg 1 None (Some [7]))], [(Some 1, Delivered)])], b)) \<and> bt_done b \<and> bt_batch b = []"
  using writer_drops_tombstone [of "exampleMsg 1 None (Some [7])" exampleWriter "exampleMsg 2 (Some [3]) None"
      "\<lambda>_ conn batch resch stats. Some (Ok (map (\<lambda>r. (r, Delivered)) resch, conn, None, stats))" exampleStats Delivered None None]
  by (simp add: exampleMsg_def exampleWriter_def exampleStats_def sizeOf_eq sizeofBytes_def zeroMessage_def)



end
