(* ===== verification/TopicWriter.thy ===== *)
theory TopicWriter
  imports Writer
begin

section \<open>Routing and the callers of a writer (writer.go)\<close>

text \<open>
  The goroutine \<open>Writer.run\<close>, which follows the partitions of the topic and passes each message to a partition writer,
  and \<open>WriteMessages\<close>, the side of the callers, with \<open>Stats\<close> and \<open>Close\<close>. An iteration of \<open>Writer.run\<close> is a step; what happens outside is in its
  arguments: the result of \<open>partitions()\<close> when it rebalances, and what its \<open>select\<close> receives. For a call of
  \<open>WriteMessages\<close> the replies of the partition writers, the end of its context and the closing of the writer are
  arguments.
\<close>

subsection \<open>Routing\<close>

definition diffp :: "int list \<Rightarrow> int list \<Rightarrow> int list" where
  "diffp new old =
     fold (\<lambda>p diff. let i = sortSearch (length old) (\<lambda>i. old ! i \<ge> p) in
         if i = length old \<or> old ! i \<noteq> p then diff @ [p] else diff) new []"

text \<open>The brokers are tried in the shuffled order; \<open>err\<close> is the error of the last one.\<close>

fun Writer_partitions ::
  "WriterConfig \<Rightarrow> gotime \<Rightarrow> (gostring \<Rightarrow> go_error + Conn) \<Rightarrow> gostring list \<Rightarrow> go_error option \<Rightarrow>
   (go_error, go_error option \<times> int list) result option" where
  "Writer_partitions config now dial [] err = Some (Ok (err, []))"
| "Writer_partitions config now dial (broker # brokers) err =
     (case dial broker of
        Inl e \<Rightarrow> Writer_partitions config now dial brokers (Some e)
      | Inr conn \<Rightarrow>
          (case Conn_ReadPartitions [wc_Topic config] (Conn_SetReadDeadline (Add now (wc_ReadTimeout config)) conn) of
             None \<Rightarrow> None
           | Some (Panic p, _) \<Rightarrow> Some (Panic p)
           | Some (Err e, _) \<Rightarrow> Writer_partitions config now dial brokers (Some e)
           | Some (Ok plist, _) \<Rightarrow> Some (Ok (None, sort (map pt_ID plist)))))"

record 'b router =
  rt_rebalance :: bool
  rt_writers :: "int \<rightharpoonup> partition_writer"
  rt_partitions :: "int list"
  rt_err :: "go_error option"
  rt_balancer :: 'b
  rt_rebalances :: int64

definition newRouter :: "'b \<Rightarrow> 'b router" where
  "newRouter bal =
     \<lparr>rt_rebalance = True, rt_writers = Map.empty, rt_partitions = [], rt_err = None, rt_balancer = bal, rt_rebalances = 0\<rparr>"

datatype router_event = RouterMsg writerMessage | RouterClosed | RouterTick

text \<open>What an iteration does to the outside.\<close>

datatype route_action = ToPartition int writerMessage | Refused writerMessage go_error | ClosedWriter int

text \<open>The start of an iteration: the writers of partitions that are gone are closed, those of new ones are opened.\<close>

definition rebalance :: "WriterConfig \<Rightarrow> go_error option \<times> int list \<Rightarrow> 'b router \<Rightarrow> route_action list \<times> 'b router" where
  "rebalance config found r =
     (if rt_rebalance r then
        let r = r\<lparr>rt_rebalances := counter_observe 1 (rt_rebalances r), rt_rebalance := False\<rparr>;
            (err, newPartitions) = found;
            oldPartitions = rt_partitions r
        in (case err of
              Some e \<Rightarrow> ([], r\<lparr>rt_err := Some e\<rparr>)
            | None \<Rightarrow>
                let gone = diffp oldPartitions newPartitions;
                    writers = fold (\<lambda>p ws. ws(p := None)) gone (rt_writers r);
                    writers = fold (\<lambda>p ws. ws(p \<mapsto> newWriter p config)) (diffp newPartitions oldPartitions) writers
                in (map ClosedWriter gone, r\<lparr>rt_err := None, rt_writers := writers, rt_partitions := newPartitions\<rparr>))
      else ([], r))"

definition route ::
  "('b \<Rightarrow> Message \<Rightarrow> int list \<Rightarrow> (go_error, int \<times> 'b) result) \<Rightarrow> writerMessage \<Rightarrow> 'b router \<Rightarrow>
   (go_error, route_action list \<times> 'b router) result" where
  "route balance wm r =
     (if rt_partitions r \<noteq> [] then
        (case balance (rt_balancer r) (wm_msg wm) (rt_partitions r) of
           Panic p \<Rightarrow> Panic p
         | Err e \<Rightarrow> Err e
         | Ok (selectedPartition, b) \<Rightarrow>
             (case rt_writers r selectedPartition of
                None \<Rightarrow> Panic NilDereference
              | Some w \<Rightarrow> Ok ([ToPartition selectedPartition wm], r\<lparr>rt_balancer := b\<rparr>)))
      else
        let e = (case rt_err r of None \<Rightarrow> Errorf ''failed to find any partitions for topic'' | Some e \<Rightarrow> e)
        in Ok ([Refused wm e], r\<lparr>rt_err := Some e\<rparr>))"

text \<open>One iteration of \<open>Writer.run\<close>; \<open>None\<close> in the place of the next state says that the goroutine ended. The order in which the
  remaining writers are closed at the end is the one of \<open>rt_partitions\<close> here.\<close>

definition router_step ::
  "WriterConfig \<Rightarrow> ('b \<Rightarrow> Message \<Rightarrow> int list \<Rightarrow> (go_error, int \<times> 'b) result) \<Rightarrow> go_error option \<times> int list \<Rightarrow> router_event \<Rightarrow>
   'b router \<Rightarrow> (go_error, route_action list \<times> 'b router option) result" where
  "router_step config balance found ev r =
     (let (closed, r) = rebalance config found r in
      case ev of
        RouterTick \<Rightarrow> Ok (closed, Some (r\<lparr>rt_rebalance := True\<rparr>))
      | RouterClosed \<Rightarrow> Ok (closed @ map ClosedWriter (filter (\<lambda>p. rt_writers r p \<noteq> None) (remdups (rt_partitions r))), None)
      | RouterMsg wm \<Rightarrow>
          (case route balance wm r of
             Panic p \<Rightarrow> Panic p
           | Err e \<Rightarrow> Err e
           | Ok (out, r) \<Rightarrow> Ok (closed @ out, Some r)))"

fun router_run ::
  "WriterConfig \<Rightarrow> ('b \<Rightarrow> Message \<Rightarrow> int list \<Rightarrow> (go_error, int \<times> 'b) result) \<Rightarrow>
   ((go_error option \<times> int list) \<times> router_event) list \<Rightarrow> 'b router \<Rightarrow> (go_error, route_action list \<times> 'b router option) result" where
  "router_run config balance [] r = Ok ([], Some r)"
| "router_run config balance ((found, ev) # evs) r =
     (case router_step config balance found ev r of
        Panic p \<Rightarrow> Panic p
      | Err e \<Rightarrow> Err e
      | Ok (out, None) \<Rightarrow> Ok (out, None)
      | Ok (out, Some r) \<Rightarrow>
          (case router_run config balance evs r of Ok (out', r) \<Rightarrow> Ok (out @ out', r) | Err e \<Rightarrow> Err e | Panic p \<Rightarrow> Panic p))"

subsection \<open>The partitions that have a writer\<close>

lemma diffp_eq:
  assumes "sorted old"
  shows "diffp new old = filter (\<lambda>p. p \<notin> set old) new"
proof -
  have "(let i = sortSearch (length old) (\<lambda>i. old ! i \<ge> p) in i = length old \<or> old ! i \<noteq> p) \<longleftrightarrow> p \<notin> set old" for p
    using sortSearch_key [of "length old" "\<lambda>i. old ! i" p] sorted_nth_mono [OF assms]
    by (auto simp: Let_def in_set_conv_nth)
  then have "diffp new old = fold (\<lambda>p diff. if p \<notin> set old then diff @ [p] else diff) new []"
    by (simp add: diffp_def Let_def)
  also have "\<dots> = filter (\<lambda>p. p \<notin> set old) new"
  proof -
    have "fold (\<lambda>p diff. if p \<notin> set old then diff @ [p] else diff) new acc = acc @ filter (\<lambda>p. p \<notin> set old) new" for acc
      by (induction new arbitrary: acc) simp_all
    then show ?thesis by simp
  qed
  finally show ?thesis .
qed

text \<open>The invariant: the partitions are in order, and exactly they have a writer, the one that was opened for them.\<close>

definition routerInv :: "WriterConfig \<Rightarrow> 'b router \<Rightarrow> bool" where
  "routerInv config r \<longleftrightarrow> sorted (rt_partitions r) \<and>
     rt_writers r = (\<lambda>p. if p \<in> set (rt_partitions r) then Some (newWriter p config) else None)"

lemma fold_delete: "fold (\<lambda>p ws. ws(p := None)) ps ws = (\<lambda>p. if p \<in> set ps then None else ws p)"
  by (induction ps arbitrary: ws) (auto simp: fun_eq_iff)

lemma fold_open: "fold (\<lambda>p ws. ws(p \<mapsto> f p)) ps ws = (\<lambda>p. if p \<in> set ps then Some (f p) else ws p)"
  by (induction ps arbitrary: ws) (auto simp: fun_eq_iff)

lemma rebalance_inv:
  assumes "routerInv config r" "sorted (snd found)"
  shows "routerInv config (snd (rebalance config found r)) \<and> rt_balancer (snd (rebalance config found r)) = rt_balancer r"
proof (cases "rt_rebalance r \<and> fst found = None")
  case True
  then show ?thesis
    using assms by (auto simp: rebalance_def routerInv_def Let_def diffp_eq fold_delete fold_open fun_eq_iff split: prod.splits)
next
  case False
  then show ?thesis
    using assms(1) by (cases found) (auto simp: rebalance_def routerInv_def Let_def split: option.splits)
qed

text \<open>What was done with each message, in order.\<close>

fun actionOn :: "route_action \<Rightarrow> writerMessage list" where
  "actionOn (ToPartition p wm) = [wm]"
| "actionOn (Refused wm e) = [wm]"
| "actionOn (ClosedWriter p) = []"

definition handled :: "route_action list \<Rightarrow> writerMessage list" where
  "handled out = concat (map actionOn out)"

lemma handled_simps [simp]: "handled [] = []" "handled (xs @ ys) = handled xs @ handled ys" "handled (map ClosedWriter ps) = []"
  "handled (x # xs) = actionOn x @ handled xs"
  by (simp_all add: handled_def comp_def)

text \<open>The messages that reach the goroutine before its channel is closed.\<close>

fun incoming :: "((go_error option \<times> int list) \<times> router_event) list \<Rightarrow> writerMessage list" where
  "incoming [] = []"
| "incoming ((_, RouterMsg wm) # evs) = wm # incoming evs"
| "incoming ((_, RouterTick) # evs) = incoming evs"
| "incoming ((_, RouterClosed) # evs) = []"

lemma handled_rebalance [simp]: "handled (fst (rebalance config found r)) = []"
  by (simp add: rebalance_def Let_def split: prod.split option.split)

definition onlyOffered :: "(int list \<Rightarrow> bool) \<Rightarrow> ((go_error option \<times> int list) \<times> router_event) list \<Rightarrow> bool" where
  "onlyOffered offered evs \<longleftrightarrow> list_all (\<lambda>((_, ps), _). sorted ps \<and> offered ps) evs"

lemma rebalance_partitions:
  "rt_partitions (snd (rebalance config found r)) \<in> {rt_partitions r, snd found}"
  by (cases found) (auto simp: rebalance_def Let_def split: option.split)

context steady_balancer
begin

lemma route_ok:
  assumes "routerInv config r" "offered (rt_partitions r)"
  shows "\<exists>out r'. route balance wm r = Ok (out, r') \<and> handled out = [wm] \<and> routerInv config r' \<and> rt_partitions r' = rt_partitions r \<and>
    (\<forall>p wm'. ToPartition p wm' \<in> set out \<longrightarrow> p \<in> set (rt_partitions r))"
proof (cases "rt_partitions r = []")
  case True
  with assms(1) show ?thesis
    by (simp add: route_def Let_def routerInv_def)
next
  case False
  obtain p b where "balance (rt_balancer r) (wm_msg wm) (rt_partitions r) = Ok (p, b)" "p \<in> set (rt_partitions r)"
    using chooses_offered [OF assms(2) False] by blast
  with False assms(1) show ?thesis
    by (simp add: route_def routerInv_def)
qed

lemma step_ok:
  assumes "routerInv config r" "offered (rt_partitions r)" "sorted ps" "offered ps"
  shows "\<exists>out r'. router_step config balance (err, ps) ev r = Ok (out, r') \<and>
    handled out = (case ev of RouterMsg wm \<Rightarrow> [wm] | _ \<Rightarrow> []) \<and> (r' = None \<longleftrightarrow> ev = RouterClosed) \<and>
    (\<forall>r1. r' = Some r1 \<longrightarrow> routerInv config r1 \<and> offered (rt_partitions r1))"
proof -
  define r0 where "r0 = snd (rebalance config (err, ps) r)"
  define closed where "closed = fst (rebalance config (err, ps) r)"
  have r0: "routerInv config r0" "offered (rt_partitions r0)" "handled closed = []"
    using rebalance_inv [OF assms(1), of "(err, ps)"] rebalance_partitions [of config "(err, ps)" r] assms(2-4)
    by (auto simp: r0_def closed_def)
  have split: "rebalance config (err, ps) r = (closed, r0)"
    by (simp add: closed_def r0_def)
  show ?thesis
  proof (cases ev)
    case (RouterMsg wm)
    obtain out r' where "route balance wm r0 = Ok (out, r')" "handled out = [wm]" "routerInv config r'" "rt_partitions r' = rt_partitions r0"
      using route_ok [OF r0(1,2), of wm] by blast
    with RouterMsg r0 show ?thesis by (simp add: router_step_def split)
  next
    case RouterClosed
    with r0 show ?thesis by (simp add: router_step_def split)
  next
    case RouterTick
    with r0 show ?thesis by (simp add: router_step_def split routerInv_def)
  qed
qed

lemma run_ok:
  assumes "routerInv config r" "offered (rt_partitions r)" "onlyOffered offered evs"
  shows "\<exists>out r'. router_run config balance evs r = Ok (out, r') \<and> handled out = incoming evs \<and>
    (\<forall>r1. r' = Some r1 \<longrightarrow> routerInv config r1)"
  using assms
proof (induction evs arbitrary: r)
  case (Cons e evs)
  obtain err ps ev where e: "e = ((err, ps), ev)" by (metis prod.collapse)
  with Cons.prems(3) have ps: "sorted ps" "offered ps" and rest: "onlyOffered offered evs"
    by (simp_all add: onlyOffered_def)
  obtain out r' where st: "router_step config balance (err, ps) ev r = Ok (out, r')"
    "handled out = (case ev of RouterMsg wm \<Rightarrow> [wm] | _ \<Rightarrow> [])" "r' = None \<longleftrightarrow> ev = RouterClosed"
    "\<forall>r1. r' = Some r1 \<longrightarrow> routerInv config r1 \<and> offered (rt_partitions r1)"
    using step_ok [OF Cons.prems(1,2) ps, of err ev] by blast
  show ?case
  proof (cases r')
    case None
    with st e show ?thesis by simp
  next
    case (Some r1)
    with st obtain out2 r2 where "router_run config balance evs r1 = Ok (out2, r2)" "handled out2 = incoming evs"
      "\<forall>r3. r2 = Some r3 \<longrightarrow> routerInv config r3"
      using Cons.IH [OF _ _ rest, of r1] by blast
    with Some st e show ?thesis by (cases ev) simp_all
  qed
qed simp

end

subsection \<open>The callers\<close>

datatype waited = TimerC | CtxDone go_error | WriterDone

text \<open>
  What happens outside a call, by the number of the attempt: whether the writer is closed, after how many messages sent
  or replies received the context ends, the replies to the messages of the attempt in the order of their arrival, and
  what ends the wait for the next attempt. A reply is nil or a \<open>writerError\<close>, as the goroutines of the writer send them.
\<close>

record call_env =
  ce_closed :: "int \<Rightarrow> bool"
  ce_cancelSend :: "int \<Rightarrow> (nat \<times> go_error) option"
  ce_replies :: "int \<Rightarrow> Message list \<Rightarrow> reply list"
  ce_cancelRecv :: "int \<Rightarrow> (nat \<times> go_error) option"
  ce_wait :: "int \<Rightarrow> waited"

text \<open>
  The messages of an attempt: those above the limit are skipped. The result has the messages sent, whether the context ended
  first, and the number of errors counted.
\<close>

fun sendMsgs :: "int \<Rightarrow> nat option \<Rightarrow> Message list \<Rightarrow> Message list \<times> bool \<times> nat" where
  "sendMsgs limit cancel [] = ([], False, 0)"
| "sendMsgs limit cancel (msg # msgs) =
     (if sizeOf msg > limit then (let (sent, cancelled, skipped) = sendMsgs limit cancel msgs in (sent, cancelled, skipped + 1))
      else if cancel = Some 0 then ([], True, 0)
      else (let (sent, cancelled, skipped) = sendMsgs limit (map_option (\<lambda>n. n - 1) cancel) msgs in (msg # sent, cancelled, skipped)))"

text \<open>The messages to send again and the last error.\<close>

fun failures :: "reply list \<Rightarrow> (Message \<times> go_error) list" where
  "failures [] = []"
| "failures (Delivered # rs) = failures rs"
| "failures (Failed m e # rs) = (m, e) # failures rs"

record write_call =
  wk_err :: "go_error option"
  wk_sent :: "Message list list"
  wk_stats :: writerStats

definition observeRetries :: "reply list \<Rightarrow> write_call \<Rightarrow> write_call" where
  "observeRetries replies k =
     k\<lparr>wk_stats := fold (\<lambda>_ stats. stats\<lparr>ws_retries := summary_observe 1 (ws_retries stats)\<rparr>) (failures replies) (wk_stats k)\<rparr>"

text \<open>The end of an attempt whose messages were sent: the replies, and the wait before the next attempt.\<close>

definition receiveReplies ::
  "WriterConfig \<Rightarrow> call_env \<Rightarrow> int \<Rightarrow> reply list \<Rightarrow> write_call \<Rightarrow> write_call \<times> Message list option" where
  "receiveReplies config env attempt replies k =
     (let fs = failures replies;
          k = observeRetries replies k;
          k = (if fs = [] then k else k\<lparr>wk_err := Some (snd (last fs))\<rparr>)
      in if fs = [] then (k, None)
         else (case ce_wait env attempt of
             TimerC \<Rightarrow> if attempt < wc_MaxAttempts config - 1 then (k\<lparr>wk_err := None\<rparr>, Some (map fst fs)) else (k, None)
           | CtxDone e \<Rightarrow> (k\<lparr>wk_err := Some e\<rparr>, None)
           | WriterDone \<Rightarrow> (k\<lparr>wk_err := Some ErrClosedPipe\<rparr>, None)))"

text \<open>One attempt: the call returns, or goes on with the messages that failed.\<close>

definition callAttempt ::
  "WriterConfig \<Rightarrow> call_env \<Rightarrow> int \<Rightarrow> Message list \<Rightarrow> write_call \<Rightarrow> write_call \<times> Message list option" where
  "callAttempt config env attempt msgs k =
     (if ce_closed env attempt then (k\<lparr>wk_err := Some ErrClosedPipe\<rparr>, None)
      else
        let (sent, cancelled, skipped) = sendMsgs (wc_BatchBytes config) (map_option fst (ce_cancelSend env attempt)) msgs;
            k = k\<lparr>wk_sent := wk_sent k @ [sent],
                  wk_stats := (wk_stats k)\<lparr>ws_errors := counter_observe (of_nat skipped) (ws_errors (wk_stats k))\<rparr>\<rparr>;
            replies = ce_replies env attempt sent
        in if cancelled then (k\<lparr>wk_err := map_option snd (ce_cancelSend env attempt)\<rparr>, None)
           else if wc_Async config then (k, None)
           else
             (case ce_cancelRecv env attempt of
                Some (n, e) \<Rightarrow>
                  if n < length sent then ((observeRetries (take n replies) k)\<lparr>wk_err := Some e\<rparr>, None)
                  else receiveReplies config env attempt replies k
              | None \<Rightarrow> receiveReplies config env attempt replies k))"

function writeAttempts :: "WriterConfig \<Rightarrow> call_env \<Rightarrow> int \<Rightarrow> Message list \<Rightarrow> write_call \<Rightarrow> write_call" where
  "writeAttempts config env attempt msgs k =
     (if attempt < wc_MaxAttempts config then
        (case callAttempt config env attempt msgs k of
           (k, None) \<Rightarrow> k
         | (k, Some msgs) \<Rightarrow> writeAttempts config env (attempt + 1) msgs k)
      else k)"
  by pat_completeness auto
termination
  by (relation "measure (\<lambda>(config, _, attempt, _). nat (wc_MaxAttempts config - attempt))") auto

declare writeAttempts.simps [simp del]

definition Writer_WriteMessages :: "WriterConfig \<Rightarrow> call_env \<Rightarrow> Message list \<Rightarrow> writerStats \<Rightarrow> write_call" where
  "Writer_WriteMessages config env msgs stats =
     (let k = \<lparr>wk_err = None, wk_sent = [], wk_stats = stats\<rparr> in
      if msgs = [] then k else writeAttempts config env 0 msgs k)"

subsection \<open>Statistics and closing\<close>

record WriterStats =
  wst_Dials :: int64
  wst_Writes :: int64
  wst_Messages :: int64
  wst_Bytes :: int64
  wst_Rebalances :: int64
  wst_Errors :: int64
  wst_Retries :: SummaryStats
  wst_BatchSize :: SummaryStats
  wst_BatchBytes :: SummaryStats
  wst_MaxAttempts :: int64
  wst_MaxRetries :: int64
  wst_RetryBackoffInterval :: duration
  wst_MaxBatchSize :: int64
  wst_BatchTimeout :: duration
  wst_ReadTimeout :: duration
  wst_WriteTimeout :: duration
  wst_RebalanceInterval :: duration
  wst_RequiredAcks :: int64
  wst_Async :: bool
  wst_QueueLength :: int64
  wst_QueueCapacity :: int64
  wst_ClientID :: gostring
  wst_Topic :: gostring

text \<open>The snapshot resets the counters. The client id is that of the dialer and the length that of the queue of messages.\<close>

definition Writer_Stats ::
  "(int64 \<Rightarrow> int64 \<Rightarrow> int64) \<Rightarrow> gostring \<Rightarrow> int \<Rightarrow> WriterConfig \<Rightarrow> writerStats \<Rightarrow> WriterStats \<times> writerStats" where
  "Writer_Stats quot clientID queued config stats =
     (let (dials, dials') = counter_snapshot (ws_dials stats);
          (writes, writes') = counter_snapshot (ws_writes stats);
          (messages, messages') = counter_snapshot (ws_messages stats);
          (byteCount, bytes') = counter_snapshot (ws_bytes stats);
          (rebalances, rebalances') = counter_snapshot (ws_rebalances stats);
          (errors, errors') = counter_snapshot (ws_errors stats);
          (retries, retries') = summary_snapshot quot (ws_retries stats);
          (batchSize, batchSize') = summary_snapshot quot (ws_batchSize stats);
          (batchBytes, batchBytes') = summary_snapshot quot (ws_batchSizeBytes stats)
      in (\<lparr>wst_Dials = dials, wst_Writes = writes, wst_Messages = messages, wst_Bytes = byteCount, wst_Rebalances = rebalances,
           wst_Errors = errors, wst_Retries = retries, wst_BatchSize = batchSize, wst_BatchBytes = batchBytes,
           wst_MaxAttempts = word_of_int (wc_MaxAttempts config), wst_MaxRetries = word_of_int (wc_Retries config),
           wst_RetryBackoffInterval = wc_RetryBackoffInterval config, wst_MaxBatchSize = word_of_int (wc_BatchSize config),
           wst_BatchTimeout = wc_BatchTimeout config, wst_ReadTimeout = wc_ReadTimeout config,
           wst_WriteTimeout = wc_WriteTimeout config, wst_RebalanceInterval = wc_RebalanceInterval config,
           wst_RequiredAcks = word_of_int (wc_RequiredAcks config), wst_Async = wc_Async config,
           wst_QueueLength = word_of_int queued, wst_QueueCapacity = word_of_int (wc_QueueCapacity config),
           wst_ClientID = clientID, wst_Topic = wc_Topic config\<rparr>,
          \<lparr>ws_dials = dials', ws_writes = writes', ws_messages = messages', ws_bytes = bytes', ws_rebalances = rebalances',
           ws_errors = errors', ws_retries = retries', ws_batchSize = batchSize', ws_batchSizeBytes = batchBytes'\<rparr>))"

text \<open>After a snapshot everything is at its initial value; the summaries that \<open>NewWriter\<close> does not initialise are initialised from then on.\<close>

lemma Writer_Stats_reset:
  "snd (Writer_Stats quot clientID queued config stats) =
     \<lparr>ws_dials = 0, ws_writes = 0, ws_messages = 0, ws_bytes = 0, ws_rebalances = 0, ws_errors = 0,
      ws_retries = makeSummary, ws_batchSize = makeSummary, ws_batchSizeBytes = makeSummary\<rparr>"
  by (simp add: Writer_Stats_def counter_snapshot_def summary_snapshot_def minimum_snapshot_def maximum_snapshot_def makeSummary_def Let_def)

text \<open>Closing closes the channel of the router once, whatever the number of calls; the flag is what \<open>ce_closed\<close> reads.\<close>

definition Writer_Close :: "bool \<Rightarrow> router_event list \<times> bool" where
  "Writer_Close closed = (if \<not> closed then ([RouterClosed], True) else ([], closed))"

subsection \<open>What a call without an error has done\<close>

definition fitting :: "WriterConfig \<Rightarrow> Message list \<Rightarrow> Message list" where
  "fitting config msgs = filter (\<lambda>m. sizeOf m \<le> wc_BatchBytes config) msgs"

lemma sendMsgs_all:
  "sendMsgs limit cancel msgs = (sent, False, n) \<Longrightarrow> sent = filter (\<lambda>m. sizeOf m \<le> limit) msgs"
  by (induction limit cancel msgs arbitrary: sent n rule: sendMsgs.induct) (auto split: if_splits prod.splits)

lemma sendMsgs_cancelled:
  "sendMsgs limit cancel msgs = (sent, True, n) \<Longrightarrow> cancel \<noteq> None"
  by (induction limit cancel msgs arbitrary: sent n rule: sendMsgs.induct) (auto split: if_splits prod.splits)

text \<open>
  The attempts of a call in which everything was delivered in the end: each sent the messages that fit of those that
  failed in the one before, and in the last none failed.
\<close>

fun deliveredIn :: "WriterConfig \<Rightarrow> call_env \<Rightarrow> int \<Rightarrow> Message list \<Rightarrow> Message list list \<Rightarrow> bool" where
  "deliveredIn config env attempt msgs [] \<longleftrightarrow> False"
| "deliveredIn config env attempt msgs (sent # rest) \<longleftrightarrow>
     sent = fitting config msgs \<and>
     (let fs = failures (ce_replies env attempt sent) in
      if rest = [] then fs = [] else fs \<noteq> [] \<and> deliveredIn config env (attempt + 1) (map fst fs) rest)"

lemma observeRetries_simps [simp]: "wk_err (observeRetries rs k) = wk_err k" "wk_sent (observeRetries rs k) = wk_sent k"
  by (simp_all add: observeRetries_def)

lemma callAttempt_cases:
  assumes "callAttempt config env attempt msgs k = (k', next_msgs)" "\<not> wc_Async config" "wk_err k = None" "wk_err k' = None"
    "attempt < wc_MaxAttempts config"
  shows "\<exists>sent. wk_sent k' = wk_sent k @ [sent] \<and> sent = fitting config msgs \<and>
    (let fs = failures (ce_replies env attempt sent) in
     if next_msgs = None then fs = [] else fs \<noteq> [] \<and> next_msgs = Some (map fst fs))"
proof -
  obtain sent cancelled skipped where s: "sendMsgs (wc_BatchBytes config) (map_option fst (ce_cancelSend env attempt)) msgs = (sent, cancelled, skipped)"
    by (metis prod.collapse)
  have "\<not> cancelled"
  proof
    assume c: cancelled
    with s sendMsgs_cancelled have "ce_cancelSend env attempt \<noteq> None" by fastforce
    with assms(1,4) s c show False
      by (auto simp: callAttempt_def Let_def split: if_splits)
  qed
  moreover from this s have "sent = fitting config msgs"
    using sendMsgs_all by (auto simp: fitting_def)
  ultimately show ?thesis
    using assms s
    by (auto simp: callAttempt_def receiveReplies_def Let_def split: if_splits option.splits waited.splits prod.splits)
qed

lemma callAttempt_goes_on:
  "callAttempt config env attempt msgs k = (k', Some msgs') \<Longrightarrow> wk_err k' = None \<and> attempt + 1 < wc_MaxAttempts config"
  by (auto simp: callAttempt_def receiveReplies_def Let_def split: if_splits option.splits waited.splits prod.splits)

lemma writeAttempts_delivered:
  assumes "wk_err (writeAttempts config env attempt msgs k) = None" "\<not> wc_Async config" "wk_err k = None"
    "attempt < wc_MaxAttempts config"
  shows "\<exists>rounds. wk_sent (writeAttempts config env attempt msgs k) = wk_sent k @ rounds \<and>
    deliveredIn config env attempt msgs rounds \<and> int (length rounds) \<le> wc_MaxAttempts config - attempt"
  using assms
proof (induction config env attempt msgs k rule: writeAttempts.induct)
  case (1 config env attempt msgs k)
  obtain k' more where c: "callAttempt config env attempt msgs k = (k', more)" by fastforce
  show ?case
  proof (cases more)
    case None
    with c 1(5) have eq: "writeAttempts config env attempt msgs k = k'"
      by (subst writeAttempts.simps) simp
    with callAttempt_cases [OF c 1(3,4) _ 1(5)] 1(2,5) None show ?thesis
      by (auto simp: Let_def)
  next
    case (Some msgs')
    with c 1(5) have eq: "writeAttempts config env attempt msgs k = writeAttempts config env (attempt + 1) msgs' k'"
      by (subst writeAttempts.simps) simp
    have on: "wk_err k' = None" "attempt + 1 < wc_MaxAttempts config"
      using callAttempt_goes_on c Some by blast+
    obtain rounds where r: "wk_sent (writeAttempts config env (attempt + 1) msgs' k') = wk_sent k' @ rounds"
      "deliveredIn config env (attempt + 1) msgs' rounds" "int (length rounds) \<le> wc_MaxAttempts config - (attempt + 1)"
      using 1(1) [OF 1(5) c [symmetric] Some _ 1(3) on] 1(2) eq by auto
    from r(2) have "rounds \<noteq> []" by auto
    with callAttempt_cases [OF c 1(3,4) on(1) 1(5)] Some r show ?thesis
      by (intro exI [of _ "fitting config msgs # rounds"]) (auto simp: eq Let_def)
  qed
qed

subsection \<open>Properties\<close>

lemma newRouter_inv [simp]: "routerInv config (newRouter b)" "rt_partitions (newRouter b) = []"
  by (simp_all add: routerInv_def newRouter_def)

lemma LeastBytes_panics:
  "router_run config LeastBytes_Balance
     [((None, [1, 2]), RouterMsg zeroWriterMessage), ((None, []), RouterTick), ((None, [2]), RouterMsg zeroWriterMessage)] (newRouter []) =
     Panic NilDereference"
  by (simp add: router_step_def rebalance_def newRouter_def diffp_def sortSearch_def searchLoop.simps Let_def route_def
      LeastBytes_Balance_def LeastBytes_counterOf_def LeastBytes_makeCounters_def zeroWriterMessage_def zeroMessage_def)


definition exampleConfig :: WriterConfig where
  "exampleConfig =
     \<lparr>wc_Brokers = [lit ''b''], wc_Topic = lit ''t'', wc_MaxAttempts = 3, wc_QueueCapacity = 1, wc_BatchSize = 10, wc_Retries = 0,
      wc_RetryBackoffInterval = 1, wc_BatchBytes = 30, wc_BatchTimeout = 1, wc_ReadTimeout = 1, wc_WriteTimeout = 1,
      wc_RebalanceInterval = 1, wc_RequiredAcks = -1, wc_Async = False, wc_CompressionCodec = None\<rparr>"



text \<open>An environment in which the first attempt fails and the second succeeds.\<close>

definition exampleEnv :: call_env where
  "exampleEnv =
     \<lparr>ce_closed = (\<lambda>_. False), ce_cancelSend = (\<lambda>_. None),
      ce_replies = (\<lambda>k. map (\<lambda>m. if k = 0 then Failed m EOF else Delivered)), ce_cancelRecv = (\<lambda>_. None), ce_wait = (\<lambda>_. TimerC)\<rparr>"


text \<open>C37. A message larger than \<open>BatchBytes\<close> is dropped without an error: a call whose messages are all too large returns nil and
  has sent nothing.\<close>

theorem WriteMessages_oversize:
  assumes "\<forall>m\<in>set msgs. wc_BatchBytes config < sizeOf m" "\<not> ce_closed env 0" "ce_cancelRecv env 0 = None"
    "ce_replies env 0 [] = []"
  shows "wk_err (Writer_WriteMessages config env msgs stats) = None \<and> concat (wk_sent (Writer_WriteMessages config env msgs stats)) = []"
proof -
  have "sendMsgs limit cancel msgs = ([], False, length msgs)" if "\<forall>m\<in>set msgs. limit < sizeOf m" for limit cancel
    using that by (induction msgs) auto
  from this [OF assms(1)] assms(2-) show ?thesis
    by (simp add: Writer_WriteMessages_def writeAttempts.simps callAttempt_def receiveReplies_def Let_def)
qed

theorem WriteMessages_oversize_witness:
  "wk_err (Writer_WriteMessages exampleConfig exampleEnv [zeroMessage\<lparr>msg_Value := Some (replicate 20 1)\<rparr>] exampleStats) = None \<and>
    concat (wk_sent (Writer_WriteMessages exampleConfig exampleEnv [zeroMessage\<lparr>msg_Value := Some (replicate 20 1)\<rparr>] exampleStats)) = []"
  using WriteMessages_oversize [of "[zeroMessage\<lparr>msg_Value := Some (replicate 20 1)\<rparr>]" exampleConfig exampleEnv exampleStats]
  by (simp add: exampleConfig_def exampleEnv_def sizeOf_eq zeroMessage_def sizeofBytes_def)

end
