(* ===== verification/ReaderBase.thy ===== *)
theory ReaderBase
  imports Conn GroupAssign Stats
begin

section \<open>Readers: configuration and state (reader.go)\<close>

text \<open>
  The configuration of a \<open>Reader\<close> as \<open>NewReader\<close> checks and completes it, the fields of a \<open>Reader\<close> that its operations
  share, and \<open>start\<close>. The contexts, wait groups and channels are not fields here: \<open>start\<close> returns the partition readers
  that it spawns, and the theories of the operations say what is in the channels. The dialer and the loggers are left
  out of the configuration; the summaries of durations are left out of the statistics.
\<close>

subsection \<open>Configuration\<close>

record ReaderConfig =
  rc_Brokers :: "gostring list"
  rc_GroupID :: gostring
  rc_Topic :: gostring
  rc_Partition :: int
  rc_QueueCapacity :: int
  rc_MinBytes :: int
  rc_MaxBytes :: int
  rc_MaxWait :: duration
  rc_ReadLagInterval :: duration
  rc_GroupBalancers :: "GroupBalancer list"
  rc_HeartbeatInterval :: duration
  rc_CommitInterval :: duration
  rc_PartitionWatchInterval :: duration
  rc_WatchPartitionChanges :: bool
  rc_SessionTimeout :: duration
  rc_RebalanceTimeout :: duration
  rc_RetentionTime :: duration
  rc_AutoOffsetReset :: int64

definition rangeBalancer :: GroupBalancer where
  "rangeBalancer = \<lparr>gb_ProtocolName = RangeGroupBalancer_ProtocolName, gb_UserData = None, gb_AssignGroups = RangeGroupBalancer_AssignGroups\<rparr>"

definition roundRobinBalancer :: GroupBalancer where
  "roundRobinBalancer =
     \<lparr>gb_ProtocolName = RoundRobinGroupBalancer_ProtocolName, gb_UserData = None, gb_AssignGroups = RoundRobinGroupBalancer_AssignGroups\<rparr>"

text \<open>A duration that \<open>NewReader\<close> refuses: negative, or too long for an \<open>int32\<close> of milliseconds.\<close>

definition intervalOutOfBounds :: "duration \<Rightarrow> bool" where
  "intervalOutOfBounds d \<longleftrightarrow> sint d < 0 \<or> sint (go_div d Millisecond) \<ge> 2 ^ 31 - 1"

definition checkReaderConfig :: "ReaderConfig \<Rightarrow> string option" where
  "checkReaderConfig config =
     (if rc_Brokers config = [] then Some ''cannot create a new kafka reader with an empty list of broker addresses''
      else if rc_Topic config = [] then Some ''cannot create a new kafka reader with an empty topic''
      else if rc_Partition config < 0 \<or> rc_Partition config \<ge> 2 ^ 31 - 1 then Some ''partition number out of bounds''
      else if rc_MinBytes config < 0 then Some ''invalid negative minimum batch size''
      else if rc_MaxBytes config < 0 then Some ''invalid negative maximum batch size''
      else if rc_GroupID config \<noteq> [] \<and> rc_Partition config \<noteq> 0 then Some ''either Partition or GroupID may be specified, but not both''
      else if rc_GroupID config \<noteq> [] then
        if intervalOutOfBounds (rc_HeartbeatInterval config) then Some ''HeartbeatInterval out of bounds''
        else if intervalOutOfBounds (rc_SessionTimeout config) then Some ''SessionTimeout out of bounds''
        else if intervalOutOfBounds (rc_RebalanceTimeout config) then Some ''RebalanceTimeout out of bounds''
        else if sint (rc_RetentionTime config) < 0 then Some ''RetentionTime out of bounds''
        else if intervalOutOfBounds (rc_CommitInterval config) then Some ''CommitInterval out of bounds''
        else if intervalOutOfBounds (rc_PartitionWatchInterval config) then Some ''PartitionWachInterval out of bounds''
        else None
      else None)"

text \<open>The defaults.\<close>

definition completeReaderConfig :: "ReaderConfig \<Rightarrow> ReaderConfig" where
  "completeReaderConfig config =
     (let time = (\<lambda>d default. if d = 0 then default else d :: duration);
          maxBytes = (if rc_MaxBytes config = 0 then 1000000 else rc_MaxBytes config);
          minBytes = (if rc_MinBytes config = 0 then maxBytes else rc_MinBytes config)
      in config\<lparr>
          rc_GroupBalancers :=
            (if rc_GroupID config \<noteq> [] \<and> rc_GroupBalancers config = [] then [rangeBalancer, roundRobinBalancer] else rc_GroupBalancers config),
          rc_MaxBytes := maxBytes,
          rc_MinBytes := minBytes,
          rc_MaxWait := time (rc_MaxWait config) (10 * Second),
          rc_ReadLagInterval := time (rc_ReadLagInterval config) (60 * Second),
          rc_HeartbeatInterval := time (rc_HeartbeatInterval config) (3 * Second),
          rc_SessionTimeout := time (rc_SessionTimeout config) (30 * Second),
          rc_PartitionWatchInterval := time (rc_PartitionWatchInterval config) (5 * Second),
          rc_RebalanceTimeout := time (rc_RebalanceTimeout config) (30 * Second),
          rc_RetentionTime := time (rc_RetentionTime config) (24 * 3600 * Second),
          rc_QueueCapacity := (if rc_QueueCapacity config = 0 then 100 else rc_QueueCapacity config),
          rc_AutoOffsetReset := (if rc_AutoOffsetReset config \<noteq> LastOffset then FirstOffset else LastOffset)\<rparr>)"

subsection \<open>The state of a reader\<close>

record readerStats =
  rst_dials :: int64
  rst_fetches :: int64
  rst_messages :: int64
  rst_bytes :: int64
  rst_rebalances :: int64
  rst_timeouts :: int64
  rst_errors :: int64
  rst_fetchSize :: summary
  rst_fetchBytes :: summary
  rst_offset :: int64
  rst_lag :: int64

definition zeroReaderStats :: readerStats where
  "zeroReaderStats =
     \<lparr>rst_dials = 0, rst_fetches = 0, rst_messages = 0, rst_bytes = 0, rst_rebalances = 0, rst_timeouts = 0, rst_errors = 0,
      rst_fetchSize = makeSummary, rst_fetchBytes = makeSummary, rst_offset = 0, rst_lag = 0\<rparr>"

record Reader =
  rd_config :: ReaderConfig
  rd_version :: int64
  rd_offset :: int64
  rd_lag :: int64
  rd_closed :: bool
  rd_address :: gostring
  rd_generationID :: int32
  rd_memberID :: gostring
  rd_once :: bool
  rd_stats :: readerStats

text \<open>\<open>make\<close> panics for a channel of negative capacity.\<close>

definition NewReader :: "ReaderConfig \<Rightarrow> (go_error, Reader) result" where
  "NewReader config =
     (case checkReaderConfig config of
        Some msg \<Rightarrow> Panic (PanicMessage msg)
      | None \<Rightarrow>
          let config = completeReaderConfig config in
          if rc_MinBytes config > rc_MaxBytes config then Panic (PanicMessage ''minimum batch size greater than the maximum'')
          else if rc_QueueCapacity config < 0 then Panic MakeNegativeLen
          else Ok \<lparr>rd_config = config, rd_version = (if rc_GroupID config \<noteq> [] then 1 else 0), rd_offset = FirstOffset, rd_lag = 0,
                   rd_closed = False, rd_address = [], rd_generationID = 0, rd_memberID = [], rd_once = False, rd_stats = zeroReaderStats\<rparr>)"

definition useConsumerGroup :: "Reader \<Rightarrow> bool" where
  "useConsumerGroup r \<longleftrightarrow> rc_GroupID (rd_config r) \<noteq> []"

definition useSyncCommits :: "Reader \<Rightarrow> bool" where
  "useSyncCommits r \<longleftrightarrow> rc_CommitInterval (rd_config r) = 0"

definition membership :: "Reader \<Rightarrow> int32 \<times> gostring" where
  "membership r = (rd_generationID r, rd_memberID r)"

text \<open>
  A partition reader that \<open>start\<close> spawns. The map of offsets is the list of its entries in the order in which \<open>range\<close> visits
  them. The readers of the versions before are cancelled.
\<close>

record spawned =
  sp_partition :: int
  sp_offset :: int64
  sp_version :: int64

definition Reader_start :: "(int \<times> int64) list \<Rightarrow> Reader \<Rightarrow> spawned list \<times> Reader" where
  "Reader_start offsetsByPartition r =
     (if rd_closed r then ([], r)
      else
        let r = r\<lparr>rd_version := rd_version r + 1\<rparr>
        in (map (\<lambda>(part, offset). \<lparr>sp_partition = part, sp_offset = offset, sp_version = rd_version r\<rparr>) offsetsByPartition, r))"

definition activateReadLag :: "Reader \<Rightarrow> bool \<times> Reader" where
  "activateReadLag r =
     (if sint (rc_ReadLagInterval (rd_config r)) > 0 \<and> \<not> rd_once r then (\<not> useConsumerGroup r, r\<lparr>rd_once := True\<rparr>)
      else (False, r))"

subsection \<open>Well-formed configurations\<close>

text \<open>What the operations rely on: sizes and offsets in their ranges, and intervals that the requests can carry.\<close>

definition readerConfigOk :: "ReaderConfig \<Rightarrow> bool" where
  "readerConfigOk config \<longleftrightarrow>
     rc_Brokers config \<noteq> [] \<and> rc_Topic config \<noteq> [] \<and> 0 \<le> rc_Partition config \<and> rc_Partition config < 2 ^ 31 - 1 \<and>
     0 < rc_MinBytes config \<and> rc_MinBytes config \<le> rc_MaxBytes config \<and> 0 < rc_QueueCapacity config \<and>
     rc_AutoOffsetReset config \<in> {FirstOffset, LastOffset} \<and> rc_MaxWait config \<noteq> 0 \<and>
     (rc_GroupID config \<noteq> [] \<longrightarrow>
        rc_Partition config = 0 \<and> rc_GroupBalancers config \<noteq> [] \<and>
        (\<forall>d\<in>{rc_HeartbeatInterval config, rc_SessionTimeout config, rc_RebalanceTimeout config, rc_PartitionWatchInterval config}.
           0 < sint d \<and> sint d div 1000000 < 2 ^ 31 - 1) \<and>
        0 \<le> sint (rc_CommitInterval config) \<and> 0 < sint (rc_RetentionTime config))"

lemma intervalOutOfBounds_eq:
  "intervalOutOfBounds d \<longleftrightarrow> sint d < 0 \<or> sint d div 1000000 \<ge> 2 ^ 31 - 1"
proof (cases "sint d < 0")
  case False
  then have "sint (go_div d Millisecond) = sint d div 1000000"
    by (subst sint_go_div) (simp_all add: sdiv_pos)
  with False show ?thesis by (simp add: intervalOutOfBounds_def)
qed (simp add: intervalOutOfBounds_def)

lemma checkReaderConfig_None:
  "checkReaderConfig config = None \<longleftrightarrow>
     rc_Brokers config \<noteq> [] \<and> rc_Topic config \<noteq> [] \<and> 0 \<le> rc_Partition config \<and> rc_Partition config < 2 ^ 31 - 1 \<and>
     0 \<le> rc_MinBytes config \<and> 0 \<le> rc_MaxBytes config \<and>
     (rc_GroupID config \<noteq> [] \<longrightarrow> rc_Partition config = 0 \<and>
        \<not> intervalOutOfBounds (rc_HeartbeatInterval config) \<and> \<not> intervalOutOfBounds (rc_SessionTimeout config) \<and>
        \<not> intervalOutOfBounds (rc_RebalanceTimeout config) \<and> 0 \<le> sint (rc_RetentionTime config) \<and>
        \<not> intervalOutOfBounds (rc_CommitInterval config) \<and> \<not> intervalOutOfBounds (rc_PartitionWatchInterval config))"
  by (simp add: checkReaderConfig_def not_less not_le)

text \<open>An interval that passed the check, completed by a default that would pass it.\<close>

lemma completed_interval:
  assumes "\<not> intervalOutOfBounds d" "0 < sint dflt" "sint dflt div 1000000 < 2 ^ 31 - 1"
  shows "0 < sint (if d = 0 then dflt else d :: duration) \<and> sint (if d = 0 then dflt else d) div 1000000 < 2 ^ 31 - 1"
proof (cases "d = 0")
  case False
  then have "sint d \<noteq> 0" by (metis sint_0 signed_word_eqI)
  with False assms(1) show ?thesis by (simp add: intervalOutOfBounds_eq not_less not_le)
qed (use assms in simp)

lemma complete_fields:
  "rc_Brokers (completeReaderConfig config) = rc_Brokers config"
  "rc_Topic (completeReaderConfig config) = rc_Topic config"
  "rc_GroupID (completeReaderConfig config) = rc_GroupID config"
  "rc_Partition (completeReaderConfig config) = rc_Partition config"
  "rc_CommitInterval (completeReaderConfig config) = rc_CommitInterval config"
  "rc_MinBytes (completeReaderConfig config) =
     (if rc_MinBytes config = 0 then rc_MaxBytes (completeReaderConfig config) else rc_MinBytes config)"
  "rc_MaxBytes (completeReaderConfig config) = (if rc_MaxBytes config = 0 then 1000000 else rc_MaxBytes config)"
  "rc_QueueCapacity (completeReaderConfig config) = (if rc_QueueCapacity config = 0 then 100 else rc_QueueCapacity config)"
  "rc_AutoOffsetReset (completeReaderConfig config) \<in> {FirstOffset, LastOffset}"
  "rc_MaxWait (completeReaderConfig config) = (if rc_MaxWait config = 0 then 10 * Second else rc_MaxWait config)"
  "rc_GroupID config \<noteq> [] \<Longrightarrow> rc_GroupBalancers (completeReaderConfig config) \<noteq> []"
  "rc_HeartbeatInterval (completeReaderConfig config) = (if rc_HeartbeatInterval config = 0 then 3 * Second else rc_HeartbeatInterval config)"
  "rc_SessionTimeout (completeReaderConfig config) = (if rc_SessionTimeout config = 0 then 30 * Second else rc_SessionTimeout config)"
  "rc_PartitionWatchInterval (completeReaderConfig config) = (if rc_PartitionWatchInterval config = 0 then 5 * Second else rc_PartitionWatchInterval config)"
  "rc_RebalanceTimeout (completeReaderConfig config) = (if rc_RebalanceTimeout config = 0 then 30 * Second else rc_RebalanceTimeout config)"
  "rc_RetentionTime (completeReaderConfig config) = (if rc_RetentionTime config = 0 then 24 * 3600 * Second else rc_RetentionTime config)"
  by (simp_all add: completeReaderConfig_def Let_def)

lemma completeReaderConfig_ok:
  assumes "checkReaderConfig config = None" "\<not> rc_QueueCapacity (completeReaderConfig config) < 0"
    "\<not> rc_MinBytes (completeReaderConfig config) > rc_MaxBytes (completeReaderConfig config)"
  shows "readerConfigOk (completeReaderConfig config)"
proof -
  note c = assms(1) [unfolded checkReaderConfig_None]
  have default: "0 < sint (5 * Second)" "sint (5 * Second :: duration) div 1000000 < 2 ^ 31 - 1"
    "0 < sint (3 * Second)" "sint (3 * Second :: duration) div 1000000 < 2 ^ 31 - 1"
    "0 < sint (30 * Second)" "sint (30 * Second :: duration) div 1000000 < 2 ^ 31 - 1"
    by simp_all
  have "0 < sint (if rc_RetentionTime config = 0 then 24 * 3600 * Second else rc_RetentionTime config)"
    if "0 \<le> sint (rc_RetentionTime config)"
    using that signed_word_eqI [of "rc_RetentionTime config" 0] by (cases "rc_RetentionTime config = 0") (auto simp: less_le)
  moreover have "0 \<le> sint (rc_CommitInterval config)" if "\<not> intervalOutOfBounds (rc_CommitInterval config)"
    using that by (simp add: intervalOutOfBounds_def)
  ultimately have group: "rc_Partition config = 0 \<and> rc_GroupBalancers (completeReaderConfig config) \<noteq> [] \<and>
      (\<forall>d\<in>{rc_HeartbeatInterval (completeReaderConfig config), rc_SessionTimeout (completeReaderConfig config),
             rc_RebalanceTimeout (completeReaderConfig config), rc_PartitionWatchInterval (completeReaderConfig config)}.
         0 < sint d \<and> sint d div 1000000 < 2 ^ 31 - 1) \<and>
      0 \<le> sint (rc_CommitInterval config) \<and> 0 < sint (rc_RetentionTime (completeReaderConfig config))"
    if "rc_GroupID config \<noteq> []"
    using that c complete_fields(11) [OF that]
      completed_interval [OF _ default(1,2), of "rc_PartitionWatchInterval config"]
      completed_interval [OF _ default(3,4), of "rc_HeartbeatInterval config"]
      completed_interval [OF _ default(5,6), of "rc_SessionTimeout config"]
      completed_interval [OF _ default(5,6), of "rc_RebalanceTimeout config"]
    unfolding complete_fields(12-16) by blast
  have "0 < rc_MinBytes (completeReaderConfig config)" "0 < rc_QueueCapacity (completeReaderConfig config)"
    "rc_MaxWait (completeReaderConfig config) \<noteq> 0"
    using c assms(2) by (simp_all add: complete_fields split: if_splits)
  with c assms(3) group complete_fields(9) [of config] show ?thesis
    unfolding readerConfigOk_def complete_fields(1-5) by simp
qed

text \<open>C18. A reader that \<open>NewReader\<close> returns has a well-formed configuration, whatever it was given: the sizes of fetch requests are
  positive and in order, the intervals of a group fit the requests, and the offset to reset to is one of the two
  sentinels. A configuration that cannot be completed makes it panic; it returns no error.\<close>

theorem NewReader_typed:
  "case NewReader config of
     Ok r \<Rightarrow> readerConfigOk (rd_config r) \<and> rd_offset r = FirstOffset \<and> rd_version r = (if useConsumerGroup r then 1 else 0)
   | Err e \<Rightarrow> False
   | Panic p \<Rightarrow> (\<exists>msg. checkReaderConfig config = Some msg) \<or> rc_QueueCapacity (completeReaderConfig config) < 0 \<or>
       rc_MinBytes (completeReaderConfig config) > rc_MaxBytes (completeReaderConfig config)"
  using completeReaderConfig_ok [of config]
  by (simp add: NewReader_def Let_def useConsumerGroup_def split: option.split)

end
