(* ===== verification/ReaderGroup.thy ===== *)
theory ReaderGroup
  imports ReaderBase "HOL-Library.AList"
begin

section \<open>Readers in a consumer group (reader.go)\<close>

text \<open>
  How a reader takes part in a group: it finds the coordinator, joins, assigns the partitions when it is the leader, fetches its
  assignment and the committed offsets, and starts the partition readers. The operations change the \<open>Reader\<close> and use a
  connection to the coordinator, so they are transformers of both. Go maps are association lists or functions; the order in
  which \<open>range\<close> visits a map is an argument. Dialling is an argument. Errors that \<open>fmt.Errorf\<close> builds carry the start
  of their text.

  The lemmas follow an assignment through the group: what the members send, what the leader decodes and assigns, what it
  sends and what each member decodes.
\<close>

type_synonym 'a group_op = "Reader \<Rightarrow> Conn \<Rightarrow> ((go_error, 'a) result \<times> Reader \<times> Conn) option"

subsection \<open>Coordinator\<close>

fun Reader_connect :: "(gostring \<Rightarrow> go_error + Conn) \<Rightarrow> gostring list \<Rightarrow> go_error option \<Rightarrow> go_error option \<times> Conn option" where
  "Reader_connect dial [] err = (err, None)"
| "Reader_connect dial (broker # brokers) err =
     (case dial broker of Inr conn \<Rightarrow> (None, Some conn) | Inl e \<Rightarrow> Reader_connect dial brokers (Some e))"

text \<open>The connection is closed before the call returns.\<close>

definition lookupCoordinator :: "(gostring \<Rightarrow> go_error + Conn) \<Rightarrow> Reader \<Rightarrow> (go_error, gostring) result option" where
  "lookupCoordinator dial r =
     (case Reader_connect dial (rc_Brokers (rd_config r)) None of
        (Some e, _) \<Rightarrow> Some (Err (Errorf ''unable to coordinator to any connect for group''))
      | (None, None) \<Rightarrow> Some (Panic NilDereference)
      | (None, Some conn) \<Rightarrow>
          (case Conn_findCoordinator \<lparr>fcReq_CoordinatorKey = rc_GroupID (rd_config r)\<rparr> conn of
             None \<Rightarrow> None
           | Some (Panic p, _) \<Rightarrow> Some (Panic p)
           | Some (Err e, _) \<Rightarrow> Some (Err (Errorf ''unable to find coordinator for group''))
           | Some (Ok out, _) \<Rightarrow>
               Some (Ok (fcCoo_Host (fcRes_Coordinator out) @ lit '':'' @ itoa (sint (fcCoo_Port (fcRes_Coordinator out)))))))"

text \<open>
  The loop ends when an attempt succeeds, or when the reader is stopped during the \<open>sleep\<close> before an attempt. \<open>dial attempt\<close>
  and \<open>sleeps attempt\<close> are what an attempt meets; it may run forever.
\<close>

partial_function (option) refreshCoordinator ::
  "(nat \<Rightarrow> gostring \<Rightarrow> go_error + Conn) \<Rightarrow> (nat \<Rightarrow> bool) \<Rightarrow> nat \<Rightarrow> Reader \<Rightarrow> ((go_error, unit) result \<times> Reader) option" where
  "refreshCoordinator dial sleeps attempt r =
     (if attempt \<noteq> 0 \<and> \<not> sleeps attempt then Some (Err ContextCanceled, r)
      else (case lookupCoordinator (dial attempt) r of
          None \<Rightarrow> None
        | Some (Panic p) \<Rightarrow> Some (Panic p, r)
        | Some (Ok address) \<Rightarrow> Some (Ok (), r\<lparr>rd_address := address\<rparr>)
        | Some (Err e) \<Rightarrow> refreshCoordinator dial sleeps (attempt + 1) r))"

subsection \<open>Joining\<close>

definition defaultProtocolType :: gostring where
  "defaultProtocolType = lit ''consumer''"

definition makejoinGroupRequestV1 :: "Reader \<Rightarrow> joinGroupRequestV1" where
  "makejoinGroupRequestV1 r =
     (let (_, memberID) = membership r; config = rd_config r in
      \<lparr>jgReq_GroupID = rc_GroupID config,
       jgReq_SessionTimeout = ucast (go_div (rc_SessionTimeout config) Millisecond),
       jgReq_RebalanceTimeout = ucast (go_div (rc_RebalanceTimeout config) Millisecond),
       jgReq_MemberID = memberID,
       jgReq_ProtocolType = defaultProtocolType,
       jgReq_GroupProtocols = map (\<lambda>balancer.
         \<lparr>jgPro_ProtocolName = gb_ProtocolName balancer,
          jgPro_ProtocolMetadata = Some (groupMetadata_bytes
            \<lparr>gm_Version = 1, gm_Topics = [rc_Topic config], gm_UserData = gb_UserData balancer\<rparr>)\<rparr>) (rc_GroupBalancers config)\<rparr>)"

fun makeMemberProtocolMetadata :: "joinGroupResponseMemberV1 list \<Rightarrow> (go_error, GroupMember list) result" where
  "makeMemberProtocolMetadata [] = Ok []"
| "makeMemberProtocolMetadata (item # items) =
     (let metadata = contents (jgMem_MemberMetadata item) in
      case groupMetadata_readFrom (NewReader_bytes metadata, int (length metadata)) of
        (Panic p, _) \<Rightarrow> Panic p
      | (Err e, _) \<Rightarrow> Err (Errorf ''unable to read metadata for member'')
      | (Ok m, _, remain) \<Rightarrow>
          if remain \<noteq> 0 then Err (Errorf ''unable to read metadata for member'')
          else (case makeMemberProtocolMetadata items of
              Ok members \<Rightarrow>
                Ok (\<lparr>gm_ID = jgMem_MemberID item, gm_MemberTopics = gm_Topics m, gm_MemberUserData = gm_UserData m\<rparr> # members)
            | Err e \<Rightarrow> Err e
            | Panic p \<Rightarrow> Panic p))"

definition extractTopics :: "GroupMember list \<Rightarrow> gostring list" where
  "extractTopics members =
     sort (fold (\<lambda>member topics. fold (\<lambda>topic topics. if topic \<in> set topics then topics else topics @ [topic])
       (gm_MemberTopics member) topics) members [])"

definition assignTopicPartitions :: "gostring list \<Rightarrow> Reader \<Rightarrow> joinGroupResponseV1 \<Rightarrow> GroupMemberAssignments conn_op" where
  "assignTopicPartitions order r response c =
     (case findGroupBalancer (jgRes_GroupProtocol response) (rc_GroupBalancers (rd_config r)) of
        None \<Rightarrow> cfail (Errorf ''unable to find selected balancer'') c
      | Some balancer \<Rightarrow>
          (case makeMemberProtocolMetadata (jgRes_Members response) of
             Panic p \<Rightarrow> Some (Panic p, c)
           | Err e \<Rightarrow> cfail (Errorf ''unable to construct MemberProtocolMetadata'') c
           | Ok members \<Rightarrow>
               (case Conn_ReadPartitions (extractTopics members) c of
                  None \<Rightarrow> None
                | Some (Panic p, c) \<Rightarrow> Some (Panic p, c)
                | Some (Err e, c) \<Rightarrow> Some (Err (Errorf ''unable to read partitions''), c)
                | Some (Ok partitions, c) \<Rightarrow> Some (Ok (gb_AssignGroups balancer order members partitions), c))))"

definition Reader_leaveGroup :: "Reader \<Rightarrow> unit conn_op" where
  "Reader_leaveGroup r c =
     (case Conn_leaveGroup \<lparr>lvReq_GroupID = rc_GroupID (rd_config r), lvReq_MemberID = snd (membership r)\<rparr> c of
        None \<Rightarrow> None
      | Some (Ok _, c) \<Rightarrow> Some (Ok (), c)
      | Some (Err e, c) \<Rightarrow> Some (Err (Errorf ''leave group failed''), c)
      | Some (Panic p, c) \<Rightarrow> Some (Panic p, c))"

text \<open>The end of an operation that leaves the group and ignores how that went.\<close>

definition leaveAndFail :: "go_error \<Rightarrow> 'a group_op" where
  "leaveAndFail e r c =
     (case Reader_leaveGroup r c of
        None \<Rightarrow> None
      | Some (Panic p, c) \<Rightarrow> Some (Panic p, r, c)
      | Some (_, c) \<Rightarrow> Some (Err e, r, c))"

text \<open>The assignments are nil (\<open>None\<close>) for members that do not lead.\<close>

definition Reader_joinGroup :: "gostring list \<Rightarrow> GroupMemberAssignments option group_op" where
  "Reader_joinGroup order r c =
     (case Conn_joinGroup (makejoinGroupRequestV1 r) c of
        None \<Rightarrow> None
      | Some (Panic p, c) \<Rightarrow> Some (Panic p, r, c)
      | Some (Err e, c) \<Rightarrow>
          Some (Err (Errorf ''joinGroup failed''), if e = KafkaError UnknownMemberId then r\<lparr>rd_memberID := []\<rparr> else r, c)
      | Some (Ok response, c) \<Rightarrow>
          let r = r\<lparr>rd_generationID := jgRes_GenerationID response, rd_memberID := jgRes_MemberID response\<rparr> in
          if jgRes_MemberID response = jgRes_LeaderID response then
            (case assignTopicPartitions order r response c of
               None \<Rightarrow> None
             | Some (Panic p, c) \<Rightarrow> Some (Panic p, r, c)
             | Some (Err e, c) \<Rightarrow> leaveAndFail e r c
             | Some (Ok assignments, c) \<Rightarrow> Some (Ok (Some assignments), r, c))
          else Some (Ok None, r, c))"

subsection \<open>Synchronising\<close>

text \<open>
  The orders in which the two nested maps of assignments are visited: of the members, and for each member of its topics.
\<close>

definition memberAssignmentOf :: "gostring list \<Rightarrow> (gostring \<rightharpoonup> int list) \<Rightarrow> groupAssignment" where
  "memberAssignmentOf topicOrder topics =
     \<lparr>ga_Version = 1, ga_Topics = map (\<lambda>topic. (topic, map word_of_int (the (topics topic)))) topicOrder, ga_UserData = None\<rparr>"

definition makeSyncGroupRequestV0 ::
  "gostring list \<Rightarrow> (gostring \<Rightarrow> gostring list) \<Rightarrow> GroupMemberAssignments option \<Rightarrow> Reader \<Rightarrow> syncGroupRequestV0" where
  "makeSyncGroupRequestV0 memberOrder topicOrder memberAssignments r =
     (let (generationID, memberID) = membership r in
      \<lparr>sgReq_GroupID = rc_GroupID (rd_config r), sgReq_GenerationID = generationID, sgReq_MemberID = memberID,
       sgReq_GroupAssignments =
         (case memberAssignments of
            None \<Rightarrow> []
          | Some ga \<Rightarrow> map (\<lambda>mid.
              \<lparr>sgAsg_MemberID = mid,
               sgAsg_MemberAssignments = Some (groupAssignment_bytes (memberAssignmentOf (topicOrder mid) (the (ga mid))))\<rparr>) memberOrder)\<rparr>)"

definition decodeAssignment :: "bytes \<Rightarrow> (go_error, groupAssignment) result" where
  "decodeAssignment bs = fst (groupAssignment_readFrom (NewReader_bytes (contents bs), int (length (contents bs))))"

definition Reader_syncGroup ::
  "gostring list \<Rightarrow> (gostring \<Rightarrow> gostring list) \<Rightarrow> GroupMemberAssignments option \<Rightarrow> (gostring \<rightharpoonup> int32 list) group_op" where
  "Reader_syncGroup memberOrder topicOrder memberAssignments r c =
     (case Conn_syncGroups (makeSyncGroupRequestV0 memberOrder topicOrder memberAssignments r) c of
        None \<Rightarrow> None
      | Some (Panic p, c) \<Rightarrow> Some (Panic p, r, c)
      | Some (Err e, c) \<Rightarrow>
          if e = KafkaError RebalanceInProgress then Some (Err (Errorf ''syncGroup failed''), r, c)
          else if e = KafkaError UnknownMemberId then leaveAndFail (Errorf ''syncGroup failed'') (r\<lparr>rd_memberID := []\<rparr>) c
          else leaveAndFail (Errorf ''syncGroup failed'') r c
      | Some (Ok response, c) \<Rightarrow>
          (case decodeAssignment (sgRes_MemberAssignments response) of
             Panic p \<Rightarrow> Some (Panic p, r, c)
           | Err e \<Rightarrow> leaveAndFail (Errorf ''unable to read SyncGroup response for group'') r c
           | Ok assignments \<Rightarrow> Some (Ok (mapOf (ga_Topics assignments)), r, c)))"

definition Reader_rebalance ::
  "gostring list \<Rightarrow> gostring list \<Rightarrow> (gostring \<Rightarrow> gostring list) \<Rightarrow> (gostring \<rightharpoonup> int32 list) group_op" where
  "Reader_rebalance order memberOrder topicOrder r c =
     (let r = r\<lparr>rd_stats := (rd_stats r)\<lparr>rst_rebalances := counter_observe 1 (rst_rebalances (rd_stats r))\<rparr>\<rparr> in
      case Reader_joinGroup order r c of
        None \<Rightarrow> None
      | Some (Panic p, r, c) \<Rightarrow> Some (Panic p, r, c)
      | Some (Err e, r, c) \<Rightarrow> Some (Err e, r, c)
      | Some (Ok members, r, c) \<Rightarrow> Reader_syncGroup memberOrder topicOrder members r c)"

subsection \<open>Subscribing\<close>

definition subscribedTo :: "(gostring \<rightharpoonup> int32 list) \<Rightarrow> Reader \<Rightarrow> int32 list" where
  "subscribedTo subs r = (case subs (rc_Topic (rd_config r)) of None \<Rightarrow> [] | Some ps \<Rightarrow> ps)"

definition offsetsOf :: "int64 \<Rightarrow> int32 list \<Rightarrow> offsetFetchResponseV1PartitionResponse list \<Rightarrow> (int \<times> int64) list" where
  "offsetsOf autoOffsetReset partitions responses =
     fold (\<lambda>pr m. fold (\<lambda>part m.
         if part = ofPRes_Partition pr then
           AList.update (sint part) (if sint (ofPRes_Offset pr) < 0 then autoOffsetReset else ofPRes_Offset pr) m
         else m) partitions m) responses []"

definition fetchOffsets :: "(gostring \<rightharpoonup> int32 list) \<Rightarrow> Reader \<Rightarrow> (int \<times> int64) list conn_op" where
  "fetchOffsets subs r c =
     (let config = rd_config r; partitions = subscribedTo subs r in
      case Conn_offsetFetch \<lparr>ofReq_GroupID = rc_GroupID config,
             ofReq_Topics = [\<lparr>ofTReq_Topic = rc_Topic config, ofTReq_Partitions = partitions\<rparr>]\<rparr> c of
        None \<Rightarrow> None
      | Some (Panic p, c) \<Rightarrow> Some (Panic p, c)
      | Some (Err e, c) \<Rightarrow> Some (Err e, c)
      | Some (Ok offsets, c) \<Rightarrow>
          (case ofRes_Responses offsets of
             [] \<Rightarrow> Some (Panic IndexOutOfRange, c)
           | res # _ \<Rightarrow> Some (Ok (offsetsOf (rc_AutoOffsetReset config) partitions (ofTRes_PartitionResponses res)), c)))"

definition Reader_subscribe :: "(gostring \<rightharpoonup> int32 list) \<Rightarrow> spawned list group_op" where
  "Reader_subscribe subs r c =
     (if subscribedTo subs r = [] then Some (Ok [], r, c)
      else (case fetchOffsets subs r c of
          None \<Rightarrow> None
        | Some (Panic p, c) \<Rightarrow> Some (Panic p, r, c)
        | Some (Err e, c) \<Rightarrow> Some (Err e, r, c)
        | Some (Ok offsets, c) \<Rightarrow> (let (readers, r) = Reader_start offsets r in Some (Ok readers, r, c))))"

definition Reader_heartbeat :: "Reader \<Rightarrow> unit conn_op" where
  "Reader_heartbeat r c =
     (let (generationID, memberID) = membership r in
      if generationID = 0 \<and> memberID = [] then cret () c
      else (case Conn_heartbeat \<lparr>hbReq_GroupID = rc_GroupID (rd_config r), hbReq_GenerationID = generationID, hbReq_MemberID = memberID\<rparr> c of
          None \<Rightarrow> None
        | Some (Ok _, c) \<Rightarrow> Some (Ok (), c)
        | Some (Err e, c) \<Rightarrow> Some (Err (Errorf ''heartbeat failed''), c)
        | Some (Panic p, c) \<Rightarrow> Some (Panic p, c)))"

subsection \<open>A generation of the group\<close>

text \<open>
  The background loops on the connection. Of the heartbeat loop and of the partition watcher, the events of the \<open>select\<close> are the
  argument: ticks of their ticker, or the signal to stop. The result says whether the loop returned; then \<open>runGroup\<close> stops
  the other loops, and the handshake ends.
\<close>

datatype loop_event = Tick | Stop

fun heartbeatLoop :: "Reader \<Rightarrow> loop_event list \<Rightarrow> Conn \<Rightarrow> ((go_error, bool) result \<times> Conn) option" where
  "heartbeatLoop r [] c = Some (Ok False, c)"
| "heartbeatLoop r (Stop # evs) c = Some (Ok True, c)"
| "heartbeatLoop r (Tick # evs) c =
     (case Reader_heartbeat r c of
        None \<Rightarrow> None
      | Some (Panic p, c) \<Rightarrow> Some (Panic p, c)
      | Some (Err e, c) \<Rightarrow> Some (Ok True, c)
      | Some (Ok _, c) \<Rightarrow> heartbeatLoop r evs c)"

fun watchLoop :: "Reader \<Rightarrow> nat \<Rightarrow> loop_event list \<Rightarrow> Conn \<Rightarrow> ((go_error, bool) result \<times> Conn) option" where
  "watchLoop r oParts [] c = Some (Ok False, c)"
| "watchLoop r oParts (Stop # evs) c = Some (Ok True, c)"
| "watchLoop r oParts (Tick # evs) c =
     (case Conn_ReadPartitions [rc_Topic (rd_config r)] c of
        None \<Rightarrow> None
      | Some (Panic p, c) \<Rightarrow> Some (Panic p, c)
      | Some (Err e, c) \<Rightarrow> Some (Ok True, c)
      | Some (Ok ops, c) \<Rightarrow> if length ops \<noteq> oParts then Some (Ok True, c) else watchLoop r oParts evs c)"

definition partitionWatcher :: "Reader \<Rightarrow> loop_event list \<Rightarrow> Conn \<Rightarrow> ((go_error, bool) result \<times> Conn) option" where
  "partitionWatcher r evs c =
     (case Conn_ReadPartitions [rc_Topic (rd_config r)] c of
        None \<Rightarrow> None
      | Some (Panic p, c) \<Rightarrow> Some (Panic p, c)
      | Some (Err e, c) \<Rightarrow> Some (Ok True, c)
      | Some (Ok ops, c) \<Rightarrow> watchLoop r (length ops) evs c)"

text \<open>
  A handshake up to \<open>rg.Wait\<close>: the partition readers it starts and the connection that the loops share. \<open>unsubscribe\<close> cancels the
  readers of the generation before and waits for them. \<open>env\<close> holds what the handshake meets: the outcome of dialling, whether a
  sleep ends before the reader is stopped, the orders of the maps, and whether the reader is stopped when it returns.
\<close>

record handshake_env =
  he_dial :: "nat \<Rightarrow> gostring \<Rightarrow> go_error + Conn"
  he_sleeps :: "nat \<Rightarrow> bool"
  he_dialCoordinator :: "gostring \<Rightarrow> go_error + Conn"
  he_order :: "gostring list"
  he_memberOrder :: "gostring list"
  he_topicOrder :: "gostring \<Rightarrow> gostring list"
  he_stopped :: bool

definition handshakeDeferred :: "bool \<Rightarrow> (go_error, 'a) result \<Rightarrow> Reader \<Rightarrow> Conn \<Rightarrow> ((go_error, 'a) result \<times> Reader) option" where
  "handshakeDeferred stopped res r c =
     (if stopped then
        (case Reader_leaveGroup r c of
           None \<Rightarrow> None
         | Some (Panic p, _) \<Rightarrow> Some (Panic p, r)
         | Some _ \<Rightarrow> Some (res, r))
      else Some (res, r))"

definition handshake :: "handshake_env \<Rightarrow> Reader \<Rightarrow> ((go_error, spawned list \<times> Conn) result \<times> Reader) option" where
  "handshake env r =
     (case refreshCoordinator (he_dial env) (he_sleeps env) 0 r of
        None \<Rightarrow> None
      | Some (Panic p, r) \<Rightarrow> Some (Panic p, r)
      | Some (Err e, r) \<Rightarrow> Some (Err e, r)
      | Some (Ok _, r) \<Rightarrow>
          (case he_dialCoordinator env (rd_address r) of
             Inl e \<Rightarrow> Some (Err (Errorf ''unable to connect to coordinator''), r)
           | Inr c \<Rightarrow>
               (case Reader_rebalance (he_order env) (he_memberOrder env) (he_topicOrder env) r c of
                  None \<Rightarrow> None
                | Some (Panic p, r, c) \<Rightarrow> Some (Panic p, r)
                | Some (Err e, r, c) \<Rightarrow> handshakeDeferred (he_stopped env) (Err (Errorf ''rebalance failed for consumer group'')) r c
                | Some (Ok assignments, r, c) \<Rightarrow>
                    (case Reader_subscribe assignments r c of
                       None \<Rightarrow> None
                     | Some (Panic p, r, c) \<Rightarrow> Some (Panic p, r)
                     | Some (Err e, r, c) \<Rightarrow> handshakeDeferred (he_stopped env) (Err (Errorf ''subscribe failed for consumer group'')) r c
                     | Some (Ok readers, r, c) \<Rightarrow> Some (Ok (readers, c), r)))))"

text \<open>
  \<open>run\<close> repeats the handshake until the reader is stopped; each handshake meets its own environment. The partition readers of
  each generation are collected.
\<close>

fun Reader_run :: "handshake_env list \<Rightarrow> Reader \<Rightarrow> ((go_error, spawned list list) result \<times> Reader) option" where
  "Reader_run [] r = Some (Ok [], r)"
| "Reader_run (env # envs) r =
     (if \<not> useConsumerGroup r then Some (Ok [], r)
      else (case handshake env r of
          None \<Rightarrow> None
        | Some (Panic p, r) \<Rightarrow> Some (Panic p, r)
        | Some (res, r) \<Rightarrow>
            let (readers, r) = (case res of
                Ok (readers, _) \<Rightarrow> (readers, r)
              | _ \<Rightarrow> ([], r\<lparr>rd_stats := (rd_stats r)\<lparr>rst_errors := counter_observe 1 (rst_errors (rd_stats r))\<rparr>\<rparr>))
            in if he_stopped env then Some (Ok [readers], r)
               else (case Reader_run envs r of
                   Some (Ok later, r) \<Rightarrow> Some (Ok (readers # later), r)
                 | other \<Rightarrow> other)))"

subsection \<open>An assignment from the members to the members\<close>

text \<open>
  A generation of a group: its members, each with the identifier that the coordinator gave it. The coordinator passes on what the
  members send: to the leader the metadata of the chosen protocol, and to each member the assignment that the leader
  sent for it, or nothing.
\<close>

definition joinedAs :: "gostring \<Rightarrow> gostring \<times> Reader \<Rightarrow> joinGroupResponseMemberV1" where
  "joinedAs protocol = (\<lambda>(mid, r).
     \<lparr>jgMem_MemberID = mid,
      jgMem_MemberMetadata =
        (case find (\<lambda>p. jgPro_ProtocolName p = protocol) (jgReq_GroupProtocols (makejoinGroupRequestV1 r)) of
           None \<Rightarrow> None | Some p \<Rightarrow> jgPro_ProtocolMetadata p)\<rparr>)"

definition assignmentSent :: "syncGroupRequestV0 \<Rightarrow> gostring \<Rightarrow> bytes" where
  "assignmentSent req mid =
     (case find (\<lambda>a. sgAsg_MemberID a = mid) (sgReq_GroupAssignments req) of
        None \<Rightarrow> None | Some a \<Rightarrow> sgAsg_MemberAssignments a)"

text \<open>What a member reads from a partition assignment, for the topic it is configured with.\<close>

definition subscription :: "bytes \<Rightarrow> Reader \<Rightarrow> int32 list" where
  "subscription bs r = (case decodeAssignment bs of Ok a \<Rightarrow> subscribedTo (mapOf (ga_Topics a)) r | _ \<Rightarrow> [])"

definition memberOf :: "GroupBalancer \<Rightarrow> gostring \<times> Reader \<Rightarrow> GroupMember" where
  "memberOf b = (\<lambda>(mid, r). \<lparr>gm_ID = mid, gm_MemberTopics = [rc_Topic (rd_config r)], gm_MemberUserData = gb_UserData b\<rparr>)"

text \<open>The members have different identifiers and all offer the balancer under the chosen name.\<close>

definition generationOk :: "gostring \<Rightarrow> GroupBalancer \<Rightarrow> (gostring \<times> Reader) list \<Rightarrow> bool" where
  "generationOk protocol b ms \<longleftrightarrow>
     distinct (map fst ms) \<and> length ms < 2 ^ 31 \<and> okBytes (gb_UserData b) \<and>
     list_all (\<lambda>(mid, r). findGroupBalancer protocol (rc_GroupBalancers (rd_config r)) = Some b \<and>
       okString (rc_Topic (rd_config r))) ms"

text \<open>The partitions that the brokers list: of each topic different ones, with numbers that fit the protocol.\<close>

definition partitionsOk :: "Partition list \<Rightarrow> bool" where
  "partitionsOk ps \<longleftrightarrow>
     length ps < 2 ^ 31 \<and> distinct (map (\<lambda>p. (pt_Topic p, pt_ID p)) ps) \<and> list_all (\<lambda>p. 0 \<le> pt_ID p \<and> pt_ID p < 2 ^ 31) ps"

text \<open>Orders in which \<open>range\<close> may visit the assignments.\<close>

definition visits :: "gostring list \<Rightarrow> (gostring \<Rightarrow> gostring list) \<Rightarrow> GroupMemberAssignments \<Rightarrow> bool" where
  "visits memberOrder topicOrder ga \<longleftrightarrow>
     distinct memberOrder \<and> set memberOrder = dom ga \<and>
     list_all (\<lambda>mid. distinct (topicOrder mid) \<and> set (topicOrder mid) = dom (the (ga mid))) memberOrder"

lemma find_protocol:
  "find (\<lambda>p. jgPro_ProtocolName p = protocol) (map (\<lambda>b. \<lparr>jgPro_ProtocolName = gb_ProtocolName b, jgPro_ProtocolMetadata = f b\<rparr>) bs) =
     map_option (\<lambda>b. \<lparr>jgPro_ProtocolName = gb_ProtocolName b, jgPro_ProtocolMetadata = f b\<rparr>) (findGroupBalancer protocol bs)"
  by (induction bs) simp_all

lemma read_all:
  "parses rd bs x \<Longrightarrow> rd (NewReader_bytes bs, int (length bs)) = (Ok x, NewReader_bytes [], 0)"
  using parsesD [of rd bs x 0 "int (length bs)" "[]" EOF] by (simp add: NewReader_bytes_def)

lemma joinedAs_metadata:
  assumes "findGroupBalancer protocol (rc_GroupBalancers (rd_config r)) = Some b"
  shows "joinedAs protocol (mid, r) =
    \<lparr>jgMem_MemberID = mid, jgMem_MemberMetadata = Some (groupMetadata_bytes
       \<lparr>gm_Version = 1, gm_Topics = [rc_Topic (rd_config r)], gm_UserData = gb_UserData b\<rparr>)\<rparr>"
  using assms by (simp add: joinedAs_def makejoinGroupRequestV1_def Let_def find_protocol split: prod.split)

lemma makeMemberProtocolMetadata_joined:
  assumes "okBytes (gb_UserData b)"
    "list_all (\<lambda>(mid, r). findGroupBalancer protocol (rc_GroupBalancers (rd_config r)) = Some b \<and> okString (rc_Topic (rd_config r))) ms"
  shows "makeMemberProtocolMetadata (map (joinedAs protocol) ms) = Ok (map (memberOf b) ms)"
  using assms(2)
proof (induction ms)
  case (Cons m ms)
  obtain mid r where m: "m = (mid, r)" by (cases m)
  let ?t = "\<lparr>gm_Version = 1, gm_Topics = [rc_Topic (rd_config r)], gm_UserData = gb_UserData b\<rparr>"
  have "groupMetadata_ok ?t" using Cons.prems assms(1) by (simp add: m groupMetadata_ok_def okArray_def)
  then have "groupMetadata_readFrom (NewReader_bytes (groupMetadata_bytes ?t), int (length (groupMetadata_bytes ?t))) =
      (Ok ?t, NewReader_bytes [], 0)"
    using read_all [OF gm.rd_parses] by (simp add: groupMetadata_bytes_def)
  then show ?case
    using Cons by (simp add: m joinedAs_metadata memberOf_def)
qed simp

lemma wfMembers_memberOf: "distinct (map fst ms) \<Longrightarrow> wfMembers (map (memberOf b) ms)"
  by (simp add: wfMembers_def memberOf_def comp_def case_prod_beta list_all_iff)

lemma findPartitions_filter: "findPartitions t ps = map pt_ID (filter (\<lambda>p. pt_Topic p = t) ps)"
proof -
  have "fold (\<lambda>p ids. if pt_Topic p = t then ids @ [pt_ID p] else ids) qs acc = acc @ map pt_ID (filter (\<lambda>p. pt_Topic p = t) qs)" for qs :: "Partition list" and acc
    by (induction qs arbitrary: acc) simp_all
  then show ?thesis by (simp add: findPartitions_def)
qed

lemma partitionsOkD:
  assumes "partitionsOk ps"
  shows "distinct (findPartitions t ps)" "length (findPartitions t ps) < 2 ^ 31"
    "p \<in> set (findPartitions t ps) \<Longrightarrow> 0 \<le> p \<and> p < 2 ^ 31"
proof -
  have "distinct (map (\<lambda>p. (pt_Topic p, pt_ID p)) (filter (\<lambda>p. pt_Topic p = t) ps))"
    using assms by (simp add: partitionsOk_def distinct_map_filter)
  then show "distinct (findPartitions t ps)"
    by (auto simp: findPartitions_filter distinct_map inj_on_def)
  show "length (findPartitions t ps) < 2 ^ 31"
    using assms by (simp add: findPartitions_filter partitionsOk_def le_less_trans [OF length_filter_le])
  show "p \<in> set (findPartitions t ps) \<Longrightarrow> 0 \<le> p \<and> p < 2 ^ 31"
    using assms by (auto simp: findPartitions_filter partitionsOk_def list_all_iff)
qed

lemma mapOf_entries:
  assumes "distinct ks"
  shows "mapOf (map (\<lambda>k. (k, f k)) ks) k = (if k \<in> set ks then Some (f k) else None)"
proof -
  have "fold (\<lambda>(k, v) m. m(k \<mapsto> v)) (map (\<lambda>k. (k, f k)) ks) m k = (if k \<in> set ks then Some (f k) else m k)" for m
    using assms by (induction ks arbitrary: m) auto
  then show ?thesis by (simp add: mapOf_def)
qed

lemma decode_memberAssignment:
  assumes "groupAssignment_ok a"
  shows "decodeAssignment (Some (groupAssignment_bytes a)) = Ok a"
  using read_all [OF ga.rd_parses [OF assms]] by (simp add: decodeAssignment_def groupAssignment_bytes_def)

lemma decodeAssignment_None: "decodeAssignment None = Ok \<lparr>ga_Version = 0, ga_Topics = [], ga_UserData = None\<rparr>"
  by (simp add: decodeAssignment_def groupAssignment_readFrom_def remaining_def rbind_def rret_def)

lemma find_member:
  "distinct ks \<Longrightarrow> find (\<lambda>a. sgAsg_MemberID a = mid) (map (\<lambda>k. \<lparr>sgAsg_MemberID = k, sgAsg_MemberAssignments = f k\<rparr>) ks) =
     (if mid \<in> set ks then Some \<lparr>sgAsg_MemberID = mid, sgAsg_MemberAssignments = f mid\<rparr> else None)"
  by (induction ks) auto

lemma assignmentSent_eq:
  assumes "visits memberOrder topicOrder ga"
  shows "assignmentSent (makeSyncGroupRequestV0 memberOrder topicOrder (Some ga) leader) mid =
    (case ga mid of None \<Rightarrow> None | Some m \<Rightarrow> Some (groupAssignment_bytes (memberAssignmentOf (topicOrder mid) m)))"
proof -
  have "distinct memberOrder" "set memberOrder = dom ga" using assms by (simp_all add: visits_def)
  then show ?thesis
    by (cases "ga mid") (auto simp: assignmentSent_def makeSyncGroupRequestV0_def Let_def find_member domIff split: prod.split)
qed

text \<open>A member reads back the assignment of the leader, when the topics and the lists fit the protocol.\<close>

lemma subscription_eq:
  assumes vis: "visits memberOrder topicOrder ga"
    and topics: "\<And>m. ga mid = Some m \<Longrightarrow> dom m \<subseteq> set order" and order: "length order < 2 ^ 31" "list_all okString order"
    and lists: "\<And>t. length (assigned ga mid t) < 2 ^ 31"
  shows "subscription (assignmentSent (makeSyncGroupRequestV0 memberOrder topicOrder (Some ga) leader) mid) r =
    map word_of_int (assigned ga mid (rc_Topic (rd_config r)))"
proof (cases "ga mid")
  case None
  then show ?thesis
    by (simp add: assignmentSent_eq [OF vis] subscription_def decodeAssignment_None subscribedTo_def mapOf_def assigned_def)
next
  case (Some m)
  let ?ts = "topicOrder mid"
  have ts: "distinct ?ts" "set ?ts = dom m"
    using vis Some by (auto simp: visits_def list_all_iff dom_def)
  then have "length ?ts \<le> length order"
    using topics [OF Some] card_mono [OF _ topics [OF Some]] card_length [of order] by (simp add: distinct_card [symmetric])
  moreover have "length (the (m t)) < 2 ^ 31" if "t \<in> dom m" for t
    using lists [of t] that Some by (auto simp: assigned_def)
  ultimately have "groupAssignment_ok (memberAssignmentOf ?ts m)"
    using order topics [OF Some] ts(2)
    by (auto simp: groupAssignment_ok_def memberAssignmentOf_def okArray_def okBytes_def list_all_iff)
  then show ?thesis
    using Some ts by (auto simp: assignmentSent_eq [OF vis] subscription_def decode_memberAssignment subscribedTo_def assigned_def
        memberAssignmentOf_def mapOf_entries split: option.splits)
qed

lemma set_subscribers_memberOf:
  "distinct (map fst ms) \<Longrightarrow>
   set (subscribers (map (memberOf b) ms) t) = fst ` {m \<in> set ms. rc_Topic (rd_config (snd m)) = t}"
  using set_subscribers [OF wfMembers_memberOf, of ms b t] by (auto simp: memberOf_def image_iff) force

lemma dom_groupByTopic: "dom (groupByTopic members) = (\<Union>m\<in>set members. set (gm_MemberTopics m))"
proof -
  have inner: "dom (fold (\<lambda>topic m. appendTo m topic x) ts acc) = dom acc \<union> set ts" for x ts and acc :: "gostring \<rightharpoonup> GroupMember list"
    by (induction ts arbitrary: acc) (simp_all add: appendTo_def)
  have "dom (fold (\<lambda>member m. fold (\<lambda>topic m. appendTo m topic member) (gm_MemberTopics member) m) members acc) =
      dom acc \<union> (\<Union>m\<in>set members. set (gm_MemberTopics m))" for acc
    by (induction members arbitrary: acc) (simp_all add: inner Un_assoc)
  then show ?thesis by (simp add: groupByTopic_def)
qed

lemma dom_findMembersByTopic_memberOf:
  "dom (findMembersByTopic (map (memberOf b) ms)) = (\<lambda>m. rc_Topic (rd_config (snd m))) ` set ms"
proof -
  have "(\<Union>m\<in>set ms. set (gm_MemberTopics (memberOf b m))) = (\<lambda>m. rc_Topic (rd_config (snd m))) ` set ms"
    by (simp add: memberOf_def case_prod_beta UNION_singleton_eq_range)
  then show ?thesis
    by (simp add: findMembersByTopic_def dom_map_option_comp dom_groupByTopic)
qed

lemma iterationOrder_memberOf:
  assumes "iterationOrder (map (memberOf b) ms) order" "generationOk protocol b ms"
  shows "length order < 2 ^ 31" "list_all okString order"
proof -
  let ?T = "(\<lambda>m. rc_Topic (rd_config (snd m))) ` set ms"
  have sub: "set order \<subseteq> ?T" and "distinct order"
    using assms(1) dom_findMembersByTopic_memberOf [of b ms] by (simp_all add: iterationOrder_def)
  then have "length order \<le> card ?T" using card_mono [OF _ sub] by (simp add: distinct_card [symmetric])
  also have "\<dots> \<le> length ms" using card_image_le [of "set ms"] card_length [of ms] le_trans by blast
  finally show "length order < 2 ^ 31" using assms(2) by (simp add: generationOk_def)
  show "list_all okString order"
    using assms(2) subsetD [OF sub] by (fastforce simp: generationOk_def list_all_iff)
qed

context group_balancer
begin

lemma assigned_subset:
  assumes "iterationOrder members order" "wfMembers members"
  shows "set (assigned (AssignGroups order members ps) mid t) \<subseteq> set (findPartitions t ps) \<and>
    length (assigned (AssignGroups order members ps) mid t) \<le> length (findPartitions t ps)"
proof (cases "mid \<in> set (subscribers members t)")
  case True
  let ?a = "\<lambda>mid. assigned (AssignGroups order members ps) mid t"
  have m: "mset (concat (map ?a (subscribers members t))) = mset (findPartitions t ps)"
    using True by (intro divides [OF assms]) auto
  obtain xs ys where "subscribers members t = xs @ mid # ys" using True by (auto simp: in_set_conv_decomp)
  then have "length (?a mid) \<le> length (concat (map ?a (subscribers members t)))" by simp
  then show ?thesis using True mset_eq_setD [OF m] mset_eq_length [OF m] by auto
qed (simp add: only_subscribers [OF assms])

text \<open>Each member reads exactly the partitions that the balancer gives it.\<close>

lemma subscription_assigned:
  assumes gen: "generationOk protocol b ms" and order: "iterationOrder (map (memberOf b) ms) order" and ps: "partitionsOk ps"
    and vis: "visits memberOrder topicOrder (AssignGroups order (map (memberOf b) ms) ps)"
  shows "subscription (assignmentSent (makeSyncGroupRequestV0 memberOrder topicOrder
      (Some (AssignGroups order (map (memberOf b) ms) ps)) leader) mid) r =
    map word_of_int (assigned (AssignGroups order (map (memberOf b) ms) ps) mid (rc_Topic (rd_config r)))"
proof (rule subscription_eq [OF vis known_topics])
  have wf: "wfMembers (map (memberOf b) ms)" using gen by (intro wfMembers_memberOf) (simp add: generationOk_def)
  show "length (assigned (AssignGroups order (map (memberOf b) ms) ps) mid t) < 2 ^ 31" for t
    using assigned_subset [OF order wf, of ps mid t] partitionsOkD(2) [OF ps, of t] by simp
qed (use iterationOrder_memberOf [OF order gen] in auto)

lemma generation_exclusive:
  assumes gen: "generationOk protocol b ms" and order: "iterationOrder (map (memberOf b) ms) order" and ps: "partitionsOk ps"
    and vis: "visits memberOrder topicOrder (AssignGroups order (map (memberOf b) ms) ps)"
    and p: "p \<in> set (findPartitions t ps)" and some: "\<exists>m\<in>set ms. rc_Topic (rd_config (snd m)) = t"
  shows "\<exists>!m. m \<in> set ms \<and> rc_Topic (rd_config (snd m)) = t \<and>
    word_of_int p \<in> set (subscription (assignmentSent (makeSyncGroupRequestV0 memberOrder topicOrder
      (Some (AssignGroups order (map (memberOf b) ms) ps)) leader) (fst m)) (snd m))"
proof -
  let ?members = "map (memberOf b) ms"
  let ?a = "\<lambda>mid. assigned (AssignGroups order ?members ps) mid t"
  have d: "distinct (map fst ms)" and wf: "wfMembers ?members"
    using gen wfMembers_memberOf [of ms b] by (simp_all add: generationOk_def)
  have "word_of_int p \<in> set (map word_of_int (?a mid) :: int32 list) \<longleftrightarrow> p \<in> set (?a mid)" for mid
  proof -
    have inj: "x = p" if "(word_of_int p :: int32) = word_of_int x" "x \<in> set (?a mid)" for x
    proof -
      have "0 \<le> x \<and> x < 2 ^ 31" "0 \<le> p \<and> p < 2 ^ 31"
        using that(2) assigned_subset [OF order wf, of ps mid t] partitionsOkD(3) [OF ps, of _ t] p by auto
      with that(1) show ?thesis by (simp add: word_of_int_eq_iff take_bit_int_eq_self)
    qed
    show ?thesis using inj by (auto simp: image_iff)
  qed
  then have read: "word_of_int p \<in> set (subscription (assignmentSent (makeSyncGroupRequestV0 memberOrder topicOrder
      (Some (AssignGroups order ?members ps)) leader) (fst m)) (snd m)) \<longleftrightarrow> p \<in> set (?a (fst m))"
    if "rc_Topic (rd_config (snd m)) = t" for m
    using that unfolding subscription_assigned [OF gen order ps vis] by simp
  have subs: "set (subscribers ?members t) = fst ` {m \<in> set ms. rc_Topic (rd_config (snd m)) = t}"
    by (rule set_subscribers_memberOf [OF d])
  then have sub: "subscribers ?members t \<noteq> []"
    using some by (metis (mono_tags, lifting) empty_iff image_is_empty list.set(1) mem_Collect_eq)
  obtain mid where mid: "p \<in> set (?a mid)" and only: "\<And>mid'. p \<in> set (?a mid') \<Longrightarrow> mid' = mid"
    using exactly_one_consumer [OF order wf sub partitionsOkD(1) [OF ps] p] by (elim ex1E) blast
  have "mid \<in> set (subscribers ?members t)"
    using mid only_subscribers [OF order wf, of mid t ps] by (cases "mid \<in> set (subscribers ?members t)") simp_all
  then obtain m where m: "m \<in> set ms" "rc_Topic (rd_config (snd m)) = t" "fst m = mid"
    unfolding subs by blast
  show ?thesis
  proof (rule ex1I [of _ m], intro conjI)
    fix m'
    assume m': "m' \<in> set ms \<and> rc_Topic (rd_config (snd m')) = t \<and>
      word_of_int p \<in> set (subscription (assignmentSent (makeSyncGroupRequestV0 memberOrder topicOrder
        (Some (AssignGroups order ?members ps)) leader) (fst m')) (snd m'))"
    then have "fst m' = fst m" using read [of m'] only m(3) by simp
    then show "m' = m" using inj_onD [of fst "set ms" m' m] m' m(1) d by (simp add: distinct_map)
  qed (use m mid read [of m] in simp_all)
qed

end

subsection \<open>Properties\<close>

text \<open>A reader of a topic in a group, with the balancers that \<open>NewReader\<close> configures.\<close>

definition exampleGroupReader :: Reader where
  "exampleGroupReader =
     \<lparr>rd_config = \<lparr>rc_Brokers = [[98]], rc_GroupID = [103], rc_Topic = [116], rc_Partition = 0, rc_QueueCapacity = 100, rc_MinBytes = 1,
        rc_MaxBytes = 1000000, rc_MaxWait = Second, rc_ReadLagInterval = 0, rc_GroupBalancers = [rangeBalancer, roundRobinBalancer],
        rc_HeartbeatInterval = Second, rc_CommitInterval = 0, rc_PartitionWatchInterval = Second, rc_WatchPartitionChanges = False,
        rc_SessionTimeout = Second, rc_RebalanceTimeout = Second, rc_RetentionTime = Second, rc_AutoOffsetReset = FirstOffset\<rparr>,
      rd_version = 1, rd_offset = FirstOffset, rd_lag = 0, rd_closed = False, rd_address = [], rd_generationID = 1, rd_memberID = [99, 48],
      rd_once = False, rd_stats = zeroReaderStats\<rparr>"

lemma balancers_found:
  "findGroupBalancer (gb_ProtocolName b) [rangeBalancer, roundRobinBalancer] = Some b" if "b \<in> {rangeBalancer, roundRobinBalancer}"
  using that by (auto simp: rangeBalancer_def roundRobinBalancer_def RangeGroupBalancer_ProtocolName_def
      RoundRobinGroupBalancer_ProtocolName_def lit_def)

lemma assignPartitions_empty:
  "assignPartitions takes topic ps Map.empty = (if picks takes ps = [] then Map.empty else [topic \<mapsto> picks takes ps])"
proof (induction ps rule: rev_induct)
  case (snoc p ps)
  have "assignPartitions takes topic (ps @ [p]) Map.empty =
      (if takes (length ps) then appendTo (assignPartitions takes topic ps Map.empty) topic p else assignPartitions takes topic ps Map.empty)"
    by (simp add: assignPartitions_def enumerate_append_eq)
  with snoc show ?case by (auto simp: picks_snoc appendTo_def fun_upd_def)
qed (simp add: assignPartitions_def picks_def)

lemma example_generation:
  "map (memberOf rangeBalancer) [([99, 49], exampleGroupReader), ([99, 48], exampleGroupReader)] = exampleMembers"
  "generationOk (gb_ProtocolName rangeBalancer) rangeBalancer [([99, 49], exampleGroupReader), ([99, 48], exampleGroupReader)]"
  "partitionsOk examplePartitions"
  "RangeGroupBalancer_AssignGroups [[116]] exampleMembers examplePartitions = [[99, 48] \<mapsto> [[116] \<mapsto> [0, 1]], [99, 49] \<mapsto> [[116] \<mapsto> [2, 3, 4]]]"
  "visits [[99, 48], [99, 49]] (\<lambda>_. [[116]]) (RangeGroupBalancer_AssignGroups [[116]] exampleMembers examplePartitions)"
proof -
  show "map (memberOf rangeBalancer) [([99, 49], exampleGroupReader), ([99, 48], exampleGroupReader)] = exampleMembers"
    by (simp add: memberOf_def exampleMembers_def exampleGroupReader_def rangeBalancer_def)
  show "generationOk (gb_ProtocolName rangeBalancer) rangeBalancer [([99, 49], exampleGroupReader), ([99, 48], exampleGroupReader)]"
    using balancers_found [of rangeBalancer]
    by (simp add: generationOk_def exampleGroupReader_def okBytes_def okString_def rangeBalancer_def)
  show "partitionsOk examplePartitions" by (simp add: partitionsOk_def examplePartitions_def)
  have g: "findMembersByTopic exampleMembers [116] = Some
      [\<lparr>gm_ID = [99, 48], gm_MemberTopics = [[116]], gm_MemberUserData = None\<rparr>, \<lparr>gm_ID = [99, 49], gm_MemberTopics = [[116]], gm_MemberUserData = None\<rparr>]"
    by (simp add: findMembersByTopic_def groupByTopic_def exampleMembers_def appendTo_def)
  show ga: "RangeGroupBalancer_AssignGroups [[116]] exampleMembers examplePartitions = [[99, 48] \<mapsto> [[116] \<mapsto> [0, 1]], [99, 49] \<mapsto> [[116] \<mapsto> [2, 3, 4]]]"
  proof -
    have p: "picks (rangeTakes 5 2 0) [0, 1, 2, 3, 4] = [0, 1 :: int]" "picks (rangeTakes 5 2 1) [0, 1, 2, 3, 4] = [2, 3, 4 :: int]"
      by (simp_all add: picks_rangeTakes)
    have l: "length [0, 1, 2, 3, 4 :: int] = 5" "length [x, y] = 2" for x y :: GroupMember by simp_all
    show ?thesis
      unfolding RangeGroupBalancer_assignGroups assignGroups_def assignMembers_def Let_def
      by (simp add: g example_wf(2) assignPartitions_empty l p p(2) [simplified] del: list.size(4) length_Cons)
  qed
  show "visits [[99, 48], [99, 49]] (\<lambda>_. [[116]]) (RangeGroupBalancer_AssignGroups [[116]] exampleMembers examplePartitions)"
    by (auto simp: visits_def ga)
qed

text \<open>C1. In a generation of a group whose members agree on one of the two balancers, the leader decodes the metadata that the members
  encoded, and every partition of a topic that some member is configured with is read by exactly one of the members of that
  topic. This is so after the assignments are encoded, sent to the members and decoded, and for every order in which Go visits
  the maps on the way.\<close>

theorem group_generation_exclusive:
  assumes "b \<in> {rangeBalancer, roundRobinBalancer}" "generationOk protocol b ms" "partitionsOk ps"
    and "iterationOrder (map (memberOf b) ms) order"
    and "visits memberOrder topicOrder (gb_AssignGroups b order (map (memberOf b) ms) ps)"
    and "p \<in> set (findPartitions t ps)" "\<exists>m\<in>set ms. rc_Topic (rd_config (snd m)) = t"
  shows "makeMemberProtocolMetadata (map (joinedAs protocol) ms) = Ok (map (memberOf b) ms) \<and>
    (\<exists>!m. m \<in> set ms \<and> rc_Topic (rd_config (snd m)) = t \<and>
      word_of_int p \<in> set (subscription (assignmentSent (makeSyncGroupRequestV0 memberOrder topicOrder
        (Some (gb_AssignGroups b order (map (memberOf b) ms) ps)) leader) (fst m)) (snd m)))" (is "?decoded \<and> ?exclusive")
proof
  show ?decoded using assms(2) makeMemberProtocolMetadata_joined [of b protocol ms] by (simp add: generationOk_def)
  from assms(1) consider (range) "gb_AssignGroups b = RangeGroupBalancer_AssignGroups"
    | (roundrobin) "gb_AssignGroups b = RoundRobinGroupBalancer_AssignGroups"
    by (auto simp: rangeBalancer_def roundRobinBalancer_def)
  then show ?exclusive
  proof cases
    case range
    show ?thesis unfolding range
      by (rule range_balancer.generation_exclusive [OF assms(2,4,3) assms(5) [unfolded range] assms(6,7)])
  next
    case roundrobin
    show ?thesis unfolding roundrobin
      by (rule round_robin_balancer.generation_exclusive [OF assms(2,4,3) assms(5) [unfolded roundrobin] assms(6,7)])
  qed
qed

theorem group_generation_exclusive_witness:
  "\<exists>!m. m \<in> set [([99, 49], exampleGroupReader), ([99, 48], exampleGroupReader)] \<and> rc_Topic (rd_config (snd m)) = [116] \<and>
     word_of_int 3 \<in> set (subscription (assignmentSent (makeSyncGroupRequestV0 [[99, 48], [99, 49]] (\<lambda>_. [[116]])
       (Some (gb_AssignGroups rangeBalancer [[116]] exampleMembers examplePartitions)) exampleGroupReader) (fst m)) (snd m))"
proof -
  have b: "gb_AssignGroups rangeBalancer = RangeGroupBalancer_AssignGroups" by (simp add: rangeBalancer_def)
  show ?thesis
    by (rule group_generation_exclusive [where b = rangeBalancer and ms = "[([99, 49], exampleGroupReader), ([99, 48], exampleGroupReader)]"
          and ps = examplePartitions and order = "[[116]]" and memberOrder = "[[99, 48], [99, 49]]" and topicOrder = "\<lambda>_. [[116]]"
          and leader = exampleGroupReader and p = 3 and t = "[116]", unfolded example_generation(1) b,
          OF _ example_generation(2,3) example_wf(4) example_generation(5), THEN conjunct2, folded b])
      (simp_all add: example_wf exampleGroupReader_def)
qed

end
