(* ===== verification/PartitionReader.thy ===== *)
theory PartitionReader
  imports Batch ReaderBase
begin

section \<open>Partition readers (reader.go)\<close>

text \<open>
  The goroutine that a \<open>Reader\<close> starts for each partition: \<open>initialize\<close> connects to the leader and seeks, \<open>read\<close> fetches one batch
  and sends its messages to the program, and \<open>run\<close> repeats them. The channel is the list of the messages sent. What the goroutine
  meets is given by environments: the outcome of dialling, the times it reads from the clock, whether a sleep ends
  before the context is cancelled, and whether a send succeeds. \<open>run\<close> is a state machine with one step for each
  iteration of its two loops.

  The lemmas show what a fetch delivers and which offsets the messages have.
\<close>

subsection \<open>The code\<close>

record partition_reader =
  pr_brokers :: "gostring list"
  pr_topic :: gostring
  pr_partition :: int
  pr_minBytes :: int
  pr_maxBytes :: int
  pr_maxWait :: duration
  pr_version :: int64
  pr_autoOffsetReset :: int64

text \<open>The partition reader that \<open>start\<close> runs.\<close>

definition spawnedReader :: "ReaderConfig \<Rightarrow> spawned \<Rightarrow> partition_reader" where
  "spawnedReader config sp =
     \<lparr>pr_brokers = rc_Brokers config, pr_topic = rc_Topic config, pr_partition = sp_partition sp, pr_minBytes = rc_MinBytes config,
      pr_maxBytes = rc_MaxBytes config, pr_maxWait = rc_MaxWait config, pr_version = sp_version sp,
      pr_autoOffsetReset = rc_AutoOffsetReset config\<rparr>"

record readerMessage =
  rm_version :: int64
  rm_message :: Message
  rm_watermark :: int64
  rm_error :: "go_error option"

definition sentMessage :: "partition_reader \<Rightarrow> int64 \<Rightarrow> Message \<Rightarrow> readerMessage" where
  "sentMessage r watermark msg = \<lparr>rm_version = pr_version r, rm_message = msg, rm_watermark = watermark, rm_error = None\<rparr>"

definition sentError :: "partition_reader \<Rightarrow> go_error \<Rightarrow> readerMessage" where
  "sentError r e = \<lparr>rm_version = pr_version r, rm_message = zeroMessage, rm_watermark = 0, rm_error = Some e\<rparr>"

definition reader_readOffsets :: "gotime \<Rightarrow> (int64 \<times> int64) conn_op" where
  "reader_readOffsets now c = Conn_ReadOffsets (Conn_SetDeadline (Add now (10 * Second)) c)"

text \<open>\<open>initialize\<close> from some broker on, with the error of the broker before: the error, the connection and its start offset.\<close>

fun initialize ::
  "(gostring \<Rightarrow> go_error + Conn) \<Rightarrow> gotime \<Rightarrow> int64 \<Rightarrow> gostring list \<Rightarrow> go_error option \<times> readerStats \<Rightarrow>
   ((go_error, go_error option \<times> Conn option \<times> int64) result \<times> readerStats) option" where
  "initialize dial now offset [] (err, stats) = Some (Ok (err, None, 0), stats)"
| "initialize dial now offset (broker # brokers) (err, stats) =
     (let stats = stats\<lparr>rst_dials := counter_observe 1 (rst_dials stats)\<rparr> in
      case dial broker of
        Inl e \<Rightarrow> initialize dial now offset brokers (Some e, stats)
      | Inr c \<Rightarrow>
          (case reader_readOffsets now c of
             None \<Rightarrow> None
           | Some (Panic p, _) \<Rightarrow> Some (Panic p, stats)
           | Some (Err e, _) \<Rightarrow> Some (Ok (Some e, None, 0), stats)
           | Some (Ok (first, lastOff), c) \<Rightarrow>
               let offset = (if offset = FirstOffset then first else if offset = LastOffset then lastOff
                             else if sint offset < sint first then first else offset)
               in (case Conn_Seek offset SeekAbsolute c of
                     None \<Rightarrow> None
                   | Some (Panic p, _) \<Rightarrow> Some (Panic p, stats)
                   | Some (Err e, _) \<Rightarrow> Some (Ok (Some e, None, 0), stats)
                   | Some (Ok start, c) \<Rightarrow> Some (Ok (None, Some (Conn_SetDeadline zeroTime c), start), stats))))"

text \<open>
  What a call of \<open>read\<close> meets: the codecs, the clock at its points, and for each message whether its send is cut short by the
  context. The result of a read is the offset to go on with, the error and the messages sent.
\<close>

record read_env =
  re_codecs :: codecs
  re_t0 :: gotime
  re_fetchAt :: gotime
  re_deadlineAt :: gotime
  re_testAt :: "nat \<Rightarrow> gotime"
  re_readAt :: "nat \<Rightarrow> gotime"
  re_send :: "nat \<Rightarrow> go_error option"

record read_result =
  rr_offset :: int64
  rr_err :: "go_error option"
  rr_sent :: "readerMessage list"
  rr_stats :: readerStats
  rr_conn :: Conn

definition safetyTimeout :: duration where
  "safetyTimeout = 10 * Second"

definition extendDeadline :: "gotime \<Rightarrow> gotime \<Rightarrow> Conn \<Rightarrow> gotime \<times> Conn" where
  "extendDeadline now deadline c =
     (if sint (Sub deadline now) < sint (go_div safetyTimeout 2)
      then (Add now safetyTimeout, Conn_SetReadDeadline (Add now safetyTimeout) c) else (deadline, c))"

definition messageBytes :: "Message \<Rightarrow> int64" where
  "messageBytes msg = of_nat (length (contents (msg_Key msg)) + length (contents (msg_Value msg)))"

text \<open>The end of \<open>read\<close>: the batch is closed, and its error is the result.\<close>

definition endRead :: "int64 \<Rightarrow> readerMessage list \<Rightarrow> readerStats \<Rightarrow> Batch \<times> Conn \<Rightarrow> read_result" where
  "endRead offset sent stats bc =
     (let (err, b, c) = Batch_close bc;
          total = sum_list (map (messageBytes \<circ> rm_message) sent);
          stats = stats\<lparr>rst_fetchSize := summary_observe (of_nat (length sent)) (rst_fetchSize stats),
                         rst_fetchBytes := summary_observe total (rst_fetchBytes stats)\<rparr>
      in \<lparr>rr_offset = offset, rr_err = err, rr_sent = sent, rr_stats = stats, rr_conn = Conn_SetReadDeadline zeroTime c\<rparr>)"

partial_function (option) readLoop ::
  "partition_reader \<Rightarrow> read_env \<Rightarrow> int64 \<Rightarrow> nat \<Rightarrow> gotime \<Rightarrow> int64 \<Rightarrow> readerMessage list \<Rightarrow> readerStats \<Rightarrow> Batch \<times> Conn \<Rightarrow>
   (go_error, read_result) result option" where
  "readLoop r env highWaterMark i deadline offset sent stats bc =
     (let (deadline, c) = extendDeadline (re_testAt env i) deadline (snd bc) in
      case Batch_ReadMessage (re_codecs env) (re_readAt env i) (fst bc, c) of
        None \<Rightarrow> None
      | Some (Panic p, _) \<Rightarrow> Some (Panic p)
      | Some (Err e, bc) \<Rightarrow> Some (Ok (endRead offset sent stats bc))
      | Some (Ok msg, bc) \<Rightarrow>
          let stats = stats\<lparr>rst_messages := counter_observe 1 (rst_messages stats),
                             rst_bytes := counter_observe (messageBytes msg) (rst_bytes stats)\<rparr>
          in (case re_send env i of
                Some e \<Rightarrow> Some (Ok (endRead offset sent stats bc))
              | None \<Rightarrow>
                  let offset = msg_Offset msg + 1;
                      stats = stats\<lparr>rst_offset := gauge_observe offset (rst_offset stats),
                                     rst_lag := gauge_observe (highWaterMark - offset) (rst_lag stats)\<rparr>
                  in readLoop r env highWaterMark (i + 1) deadline offset (sent @ [sentMessage r highWaterMark msg]) stats bc))"

definition reader_read :: "partition_reader \<Rightarrow> read_env \<Rightarrow> int64 \<Rightarrow> readerStats \<Rightarrow> Conn \<Rightarrow> (go_error, read_result) result option" where
  "reader_read r env offset stats c =
     (let stats = stats\<lparr>rst_fetches := counter_observe 1 (rst_fetches stats), rst_offset := gauge_observe offset (rst_offset stats)\<rparr>;
          c = Conn_SetReadDeadline (Add (re_t0 env) (pr_maxWait r)) c
      in case Conn_ReadBatch (re_fetchAt env) (pr_minBytes r) (pr_maxBytes r) c of
           None \<Rightarrow> None
         | Some (Panic p, _) \<Rightarrow> Some (Panic p)
         | Some (Err e, _) \<Rightarrow> Some (Err e)
         | Some (Ok _, b, c) \<Rightarrow>
             let deadline = Add (re_deadlineAt env) safetyTimeout
             in readLoop r env (ba_highWaterMark b) 0 deadline offset [] stats (b, Conn_SetReadDeadline deadline c))"

subsection \<open>The main loop\<close>

text \<open>
  The two loops: \<open>Initializing attempt\<close> is the start of an iteration of the outer one, \<open>Reading c errcount\<close> of the inner one. A
  step starts with the sleep of the iteration, which \<open>se_sleep\<close> answers for its duration.
\<close>

datatype reader_phase = Initializing int64 | Reading Conn int64 | Quit

record run_state =
  rn_phase :: reader_phase
  rn_offset :: int64
  rn_sent :: "readerMessage list"
  rn_stats :: readerStats

record step_env =
  se_sleep :: "duration \<Rightarrow> bool"
  se_dial :: "gostring \<Rightarrow> go_error + Conn"
  se_now :: gotime
  se_read :: read_env
  se_sendError :: "go_error option"

definition reader_backoff :: "int64 \<Rightarrow> duration" where
  "reader_backoff attempt = backoff attempt (100 * Millisecond) (1 * Second)"

definition sendError :: "partition_reader \<Rightarrow> step_env \<Rightarrow> go_error \<Rightarrow> run_state \<Rightarrow> run_state" where
  "sendError r env e s = (case se_sendError env of None \<Rightarrow> s\<lparr>rn_sent := rn_sent s @ [sentError r e]\<rparr> | Some _ \<Rightarrow> s)"

definition observeError :: "run_state \<Rightarrow> run_state" where
  "observeError s = s\<lparr>rn_stats := (rn_stats s)\<lparr>rst_errors := counter_observe 1 (rst_errors (rn_stats s))\<rparr>\<rparr>"

definition initStep :: "partition_reader \<Rightarrow> step_env \<Rightarrow> int64 \<Rightarrow> run_state \<Rightarrow> (go_error, run_state) result option" where
  "initStep r env attempt s =
     (if attempt \<noteq> 0 \<and> \<not> se_sleep env (reader_backoff attempt) then Some (Ok (s\<lparr>rn_phase := Quit\<rparr>))
      else (case initialize (se_dial env) (se_now env) (rn_offset s) (pr_brokers r) (None, rn_stats s) of
          None \<Rightarrow> None
        | Some (Panic p, _) \<Rightarrow> Some (Panic p)
        | Some (Err e, _) \<Rightarrow> Some (Err e)
        | Some (Ok (Some e, _, _), stats) \<Rightarrow>
            let s = s\<lparr>rn_stats := stats, rn_phase := Initializing (attempt + 1)\<rparr>
            in Some (Ok (if e = KafkaError OffsetOutOfRange then s
                         else if sint attempt \<ge> 3 then sendError r env e s else observeError s))
        | Some (Ok (None, None, _), _) \<Rightarrow> Some (Panic NilDereference)
        | Some (Ok (None, Some c, start), stats) \<Rightarrow>
            Some (Ok (s\<lparr>rn_stats := stats, rn_offset := start, rn_phase := Reading c 0\<rparr>))))"

text \<open>What an error of \<open>read\<close> leads to; leaving the inner loop makes the next attempt number one.\<close>

definition afterRead :: "partition_reader \<Rightarrow> step_env \<Rightarrow> int64 \<Rightarrow> go_error option \<Rightarrow> Conn \<Rightarrow> run_state \<Rightarrow> (go_error, run_state) result option" where
  "afterRead r env errcount err c s =
     (let observe = (\<lambda>upd. s\<lparr>rn_stats := upd (rn_stats s)\<rparr>) in
      case err of
        None \<Rightarrow> Some (Ok (s\<lparr>rn_phase := Reading c (0 + 1)\<rparr>))
      | Some e \<Rightarrow>
          if e = KafkaError UnknownTopicOrPartition \<or> e = KafkaError NotLeaderForPartition then
            Some (Ok ((observe (\<lambda>st. st\<lparr>rst_rebalances := counter_observe 1 (rst_rebalances st)\<rparr>))\<lparr>rn_phase := Initializing 1\<rparr>))
          else if e = KafkaError RequestTimedOut then
            Some (Ok ((observe (\<lambda>st. st\<lparr>rst_timeouts := counter_observe 1 (rst_timeouts st)\<rparr>))\<lparr>rn_phase := Reading c 0\<rparr>))
          else if e = KafkaError OffsetOutOfRange then
            (case Conn_Seek 0 (if pr_autoOffsetReset r = FirstOffset then SeekStart else SeekEnd) c of
               None \<Rightarrow> None
             | Some (Panic p, _) \<Rightarrow> Some (Panic p)
             | Some (Err _, _) \<Rightarrow> Some (Ok (s\<lparr>rn_offset := 0, rn_phase := Initializing 1\<rparr>))
             | Some (Ok offset, c) \<Rightarrow> Some (Ok (s\<lparr>rn_offset := offset, rn_phase := Reading c 0\<rparr>)))
          else if e = ContextCanceled then Some (Ok (s\<lparr>rn_phase := Quit\<rparr>))
          else if is_KafkaError e then Some (Ok ((sendError r env e s)\<lparr>rn_phase := Reading c (errcount + 1)\<rparr>))
          else Some (Ok ((observeError s)\<lparr>rn_phase := Initializing 1\<rparr>)))"

definition readStep :: "partition_reader \<Rightarrow> step_env \<Rightarrow> Conn \<Rightarrow> int64 \<Rightarrow> run_state \<Rightarrow> (go_error, run_state) result option" where
  "readStep r env c errcount s =
     (if \<not> se_sleep env (reader_backoff errcount) then Some (Ok (s\<lparr>rn_phase := Quit\<rparr>))
      else (case reader_read r (se_read env) (rn_offset s) (rn_stats s) c of
          None \<Rightarrow> None
        | Some (Panic p) \<Rightarrow> Some (Panic p)
        | Some (Err e) \<Rightarrow> Some (Err e)
        | Some (Ok rr) \<Rightarrow>
            afterRead r env errcount (rr_err rr) (rr_conn rr)
              (s\<lparr>rn_offset := rr_offset rr, rn_sent := rn_sent s @ rr_sent rr, rn_stats := rr_stats rr\<rparr>)))"

definition run_step :: "partition_reader \<Rightarrow> step_env \<Rightarrow> run_state \<Rightarrow> (go_error, run_state) result option" where
  "run_step r env s =
     (case rn_phase s of
        Initializing attempt \<Rightarrow> initStep r env attempt s
      | Reading c errcount \<Rightarrow> readStep r env c errcount s
      | Quit \<Rightarrow> Some (Ok s))"

fun reader_run :: "partition_reader \<Rightarrow> step_env list \<Rightarrow> run_state \<Rightarrow> (go_error, run_state) result option" where
  "reader_run r [] s = Some (Ok s)"
| "reader_run r (env # envs) s =
     (case run_step r env s of
        Some (Ok s) \<Rightarrow> reader_run r envs s
      | other \<Rightarrow> other)"

definition startRun :: "int64 \<Rightarrow> readerStats \<Rightarrow> run_state" where
  "startRun offset stats = \<lparr>rn_phase = Initializing 0, rn_offset = offset, rn_sent = [], rn_stats = stats\<rparr>"

subsection \<open>What a batch leaves alone\<close>

text \<open>A batch that can be read: it has its connection or carries an error.\<close>

definition batchLive :: "Batch \<Rightarrow> bool" where
  "batchLive b \<longleftrightarrow> ba_conn b \<or> ba_err b \<noteq> None"

lemma Batch_readMessage_keeps:
  assumes "Batch_readMessage codecs now key val (b, c) = Some (res, b', c')"
  shows "cn_offset c' = cn_offset c \<and> ba_conn b' = ba_conn b \<and> (\<forall>x. res = Ok x \<longrightarrow> ba_err b = None \<and> ba_err b' = None)"
proof (cases "ba_err b")
  case None
  have set: "cn_offset c' = cn_offset c \<and> ba_conn b' = ba_conn b" if "setErr e (storeReader m (b0, c)) = (b', c')" "ba_conn b0 = ba_conn b" for e m b0
    using that storeReader_simps(1,2) [of m b0 c] by (cases "storeReader m (b0, c)") (auto simp: setErr_def)
  have store: "cn_offset c' = cn_offset c \<and> ba_conn b' = ba_conn b0 \<and> ba_err b' = ba_err b0" if "storeReader m (b0, c) = (b', c')" for m b0
    using that storeReader_simps(1,2) [of m b0 c] by auto
  show ?thesis
    using assms None
    by (auto simp: Batch_readMessage_def Let_def split: option.splits result.splits prod.splits if_splits dest!: set store)
qed (use assms in \<open>auto simp: Batch_readMessage_def\<close>)

text \<open>What reading leaves alone: the offset of the connection, and that the batch has it. A read that succeeds finds and leaves no error.\<close>

definition steadyStep :: "Batch \<times> Conn \<Rightarrow> (go_error, 'a) result \<Rightarrow> Batch \<times> Conn \<Rightarrow> bool" where
  "steadyStep bc res bc' \<longleftrightarrow>
     cn_offset (snd bc') = cn_offset (snd bc) \<and> ba_conn (fst bc') = ba_conn (fst bc) \<and>
     (\<forall>x. res = Ok x \<longrightarrow> ba_err (fst bc) = None \<and> ba_err (fst bc') = None)"

lemma readNewMessage_steady: "readNewMessage codecs now bc = Some (res, bc') \<Longrightarrow> steadyStep bc res bc'"
  using Batch_readMessage_keeps [of codecs now readNewBytes readNewBytes "fst bc" "snd bc" res "fst bc'" "snd bc'"]
  by (simp add: readNewMessage_def steadyStep_def)

lemma skipLoop_steady:
  assumes "skipLoop readNext res bc = Some r" "\<forall>bc res bc'. readNext bc = Some (res, bc') \<longrightarrow> steadyStep bc res bc'"
    "\<forall>x. res = Ok x \<longrightarrow> ba_err (fst bc) = None"
  shows "cn_offset (snd (snd r)) = cn_offset (snd bc) \<and> ba_conn (fst (snd r)) = ba_conn (fst bc) \<and>
    (\<forall>x. fst r = Ok x \<longrightarrow> ba_err (fst (snd r)) = None \<and> (ba_conn (fst bc) \<longrightarrow> sint (cn_offset (snd bc)) \<le> sint (fst x)))"
  using assms(2,3)
proof (induction readNext res bc r rule: skipLoop.raw_induct)
  case 2
  show ?case by (rule assms(1))
next
  case (1 skipLoop readNext res bc r)
  show ?case
  proof (cases "\<exists>offset x. res = Ok (offset, x) \<and> ba_conn (fst bc) \<and> sint offset < sint (cn_offset (snd bc))")
    case True
    then obtain res1 bc1 where n: "readNext bc = Some (res1, bc1)" "skipLoop readNext res1 bc1 = Some r"
      using 1(2) by (auto split: option.splits)
    have st: "steadyStep bc res1 bc1" using n(1) 1(3) by blast
    show ?thesis using 1(1) [OF n(2) 1(3)] st by (auto simp: steadyStep_def)
  next
    case False
    then have "r = (res, bc)" using 1(2) by (auto split: result.splits if_splits prod.splits)
    with False 1(4) show ?thesis by (cases res) (auto simp: not_less)
  qed
qed

text \<open>A message that \<open>Batch.ReadMessage\<close> returns is not below the offset of the connection, which only closing the batch changes.\<close>

lemma Batch_ReadMessage_steady:
  assumes "Batch_ReadMessage codecs now bc = Some (res, bc')" "batchLive (fst bc)"
  shows "steadyStep bc res bc' \<and> (\<forall>msg. res = Ok msg \<longrightarrow> batchLive (fst bc') \<and> sint (cn_offset (snd bc)) \<le> sint (msg_Offset msg))"
proof -
  obtain res1 bc1 where 1: "readNewMessage codecs now bc = Some (res1, bc1)"
    using assms(1) by (auto simp: Batch_ReadMessage_def split: option.splits)
  then obtain r where 2: "skipLoop (readNewMessage codecs now) res1 bc1 = Some r"
    using assms(1) by (auto simp: Batch_ReadMessage_def split: option.splits)
  have st: "steadyStep bc res1 bc1" by (rule readNewMessage_steady [OF 1])
  have sk: "cn_offset (snd (snd r)) = cn_offset (snd bc1) \<and> ba_conn (fst (snd r)) = ba_conn (fst bc1) \<and>
    (\<forall>x. fst r = Ok x \<longrightarrow> ba_err (fst (snd r)) = None \<and> (ba_conn (fst bc1) \<longrightarrow> sint (cn_offset (snd bc1)) \<le> sint (fst x)))"
    using readNewMessage_steady st by (intro skipLoop_steady [OF 2]) (auto simp: steadyStep_def)
  have first: "ba_conn (fst bc) \<and> ba_err (fst bc) = None" if "res1 = Ok x" for x
    using st assms(2) that by (cases x) (auto simp: steadyStep_def batchLive_def)
  have err: "skipLoop f (Err e) b = Some (Err e, b)" "skipLoop f (Panic q) b = Some (Panic q, b)" for f e q b
    by (subst skipLoop.simps, simp)+
  show ?thesis
  proof (cases res1)
    case (Ok x)
    then show ?thesis
      using assms(1) 1 2 st sk first [OF Ok]
      by (auto simp: Batch_ReadMessage_def steadyStep_def batchLive_def split: result.splits prod.splits)
  qed (use assms(1) 1 2 st err in \<open>auto simp: Batch_ReadMessage_def steadyStep_def\<close>)
qed

lemma Conn_SetReadDeadline_simps [simp]:
  "cn_offset (Conn_SetReadDeadline t c) = cn_offset c" "cn_rbuf (Conn_SetReadDeadline t c) = cn_rbuf c"
  "nt_closed (cn_net (Conn_SetReadDeadline t c)) = nt_closed (cn_net c)"
  by (simp_all add: Conn_SetReadDeadline_def) (simp add: onDeadline_def connDeadline_setDeadline_def Let_def)

lemma extendDeadline_simps [simp]:
  "cn_offset (snd (extendDeadline now d c)) = cn_offset c" "cn_rbuf (snd (extendDeadline now d c)) = cn_rbuf c"
  "nt_closed (cn_net (snd (extendDeadline now d c))) = nt_closed (cn_net c)"
  by (simp_all add: extendDeadline_def)

subsection \<open>The offsets of the messages\<close>

text \<open>
  What a read has sent: messages of the version of the reader that are not below \<open>lo\<close>, and the offset to go on with is the one
  after the last of them.
\<close>

definition sentFrom :: "partition_reader \<Rightarrow> int64 \<Rightarrow> int64 \<Rightarrow> readerMessage list \<Rightarrow> int64 \<Rightarrow> bool" where
  "sentFrom r lo offset sent offset' \<longleftrightarrow>
     list_all (\<lambda>m. rm_version m = pr_version r \<and> rm_error m = None \<and> sint lo \<le> sint (msg_Offset (rm_message m))) sent \<and>
     offset' = (if sent = [] then offset else msg_Offset (rm_message (last sent)) + 1)"

lemma endRead_simps [simp]: "rr_offset (endRead offset sent stats bc) = offset" "rr_sent (endRead offset sent stats bc) = sent"
  by (simp_all add: endRead_def Let_def split: prod.split)

lemma readLoop_offsets:
  assumes "readLoop r env hw i deadline offset sent stats bc = Some res" "batchLive (fst bc)" "lo = cn_offset (snd bc)" "sentFrom r lo start sent offset"
  shows "case res of Ok rr \<Rightarrow> sentFrom r lo start (rr_sent rr) (rr_offset rr) | _ \<Rightarrow> True"
  using assms(2-4)
proof (induction r env hw i deadline offset sent stats bc res rule: readLoop.raw_induct)
  case 2
  show ?case by (rule assms(1))
next
  case (1 readLoop r env hw i deadline offset sent stats bc res)
  let ?c = "snd (extendDeadline (re_testAt env i) deadline (snd bc))"
  let ?read = "Batch_ReadMessage (re_codecs env) (re_readAt env i) (fst bc, ?c)"
  obtain rres bc1 where read: "?read = Some (rres, bc1)"
    using 1(2) by (cases ?read) (auto simp: Let_def split: prod.splits)
  note st = Batch_ReadMessage_steady [OF read, simplified, OF 1(3)]
  show ?case
  proof (cases rres)
    case (Ok msg)
    have "sentFrom r lo start (sent @ [sentMessage r hw msg]) (msg_Offset msg + 1)"
      using 1(4,5) st Ok by (simp add: sentFrom_def sentMessage_def)
    moreover have "batchLive (fst bc1)" "lo = cn_offset (snd bc1)" using st Ok 1(4) by (simp_all add: steadyStep_def)
    ultimately show ?thesis
      using 1(1,2,5) read Ok by (fastforce simp: Let_def case_prod_beta split: option.splits)
  qed (use 1(2,5) read in \<open>auto simp: Let_def case_prod_beta\<close>)
qed

text \<open>A fetch from an absolute offset leaves the offset of the connection alone.\<close>

lemma Conn_ReadBatchWith_live:
  assumes "Conn_ReadBatchWith now cfg c = Some (Ok u, b, c')" "cn_offset c \<noteq> FirstOffset" "cn_offset c \<noteq> LastOffset"
  shows "batchLive b \<and> (cn_offset c' = cn_offset c)"
proof -
  have seek: "Conn_Seek (fst (Conn_Offset c)) (snd (Conn_Offset c)) c = Some (Ok (cn_offset c), c)"
    using assms(2,3) by (simp add: Conn_Offset_def Conn_Seek_def cret_def)
  have "keepsOffset (encodeFetch now cfg offset dl corr)" for offset dl corr
    unfolding encodeFetch_def [abs_def] Let_def keepsOffset_def using keepsOffset_io(1) by (simp add: keepsOffset_def)
  then have send: "doRequest RDeadline (encodeFetch now cfg (cn_offset c)) c0 = Some (x, c1) \<Longrightarrow> cn_offset c1 = cn_offset c0" for c0 x c1
    using keepsOffset_doRequest [of "encodeFetch now cfg (cn_offset c)" RDeadline] by (simp add: keepsOffset_def)
  have wait: "waitResponse RDeadline corr c0 = Some (x, c1) \<Longrightarrow> cn_offset c1 = cn_offset c0" for corr c0 x c1
    using keepsOffset_waitResponse [of RDeadline corr] by (simp add: keepsOffset_def)
  have err: "dontExpectEOF (Some e) \<noteq> None" for e by simp
  have opened: "cn_offset c1 = cn_offset c0 \<and> ba_conn b1" if "openBatch adjusted now offset sz c0 = (res, b1, c1)" for adjusted offset sz c0 res b1 c1
    using that by (auto simp: openBatch_def Let_def split: prod.splits result.splits if_splits)
  show ?thesis
    using assms(1) seek
    by (auto simp: Conn_ReadBatchWith_def Let_def errBatch_def batchLive_def split: option.splits result.splits prod.splits
        dest!: send wait opened)
qed

subsection \<open>The version of the messages\<close>

text \<open>Everything that a partition reader sends carries its version.\<close>

definition ownVersion :: "partition_reader \<Rightarrow> readerMessage list \<Rightarrow> bool" where
  "ownVersion r sent \<longleftrightarrow> list_all (\<lambda>m. rm_version m = pr_version r) sent"

lemma readLoop_version:
  assumes "readLoop r env hw i deadline offset sent stats bc = Some res" "ownVersion r sent"
  shows "case res of Ok rr \<Rightarrow> ownVersion r (rr_sent rr) | _ \<Rightarrow> True"
  using assms(2)
proof (induction r env hw i deadline offset sent stats bc res rule: readLoop.raw_induct)
  case 2
  show ?case by (rule assms(1))
next
  case (1 readLoop r env hw i deadline offset sent stats bc res)
  let ?read = "Batch_ReadMessage (re_codecs env) (re_readAt env i) (fst bc, snd (extendDeadline (re_testAt env i) deadline (snd bc)))"
  obtain rres bc1 where read: "?read = Some (rres, bc1)"
    using 1(2) by (cases ?read) (auto simp: Let_def split: prod.splits)
  have sent: "ownVersion r (sent @ [sentMessage r hw msg])" for msg using 1(3) by (simp add: ownVersion_def sentMessage_def)
  show ?case
  proof (cases rres)
    case (Ok msg)
    then show ?thesis
      using 1(2,3) read 1(1) [OF _ sent [of msg]] by (cases "re_send env i") (auto simp: Let_def case_prod_beta)
  qed (use 1(2,3) read in \<open>auto simp: Let_def case_prod_beta\<close>)
qed

lemma sendError_version: "ownVersion r (rn_sent s) \<Longrightarrow> ownVersion r (rn_sent (sendError r env e s))"
  by (simp add: sendError_def ownVersion_def sentError_def split: option.split)

lemma observeError_sent [simp]: "rn_sent (observeError s) = rn_sent s"
  by (simp add: observeError_def)

lemma reader_read_version:
  assumes "reader_read r env offset stats c = Some (Ok rr)"
  shows "ownVersion r (rr_sent rr)"
proof -
  obtain hw deadline stats' bc where "readLoop r env hw 0 deadline offset [] stats' bc = Some (Ok rr)"
    using assms by (auto simp: reader_read_def Let_def split: option.splits result.splits prod.splits)
  from readLoop_version [OF this] show ?thesis by (simp add: ownVersion_def)
qed

lemma afterRead_version:
  assumes "afterRead r env errcount err c s = Some (Ok s')" "ownVersion r (rn_sent s)"
  shows "ownVersion r (rn_sent s')"
proof (cases err)
  case (Some e)
  show ?thesis
  proof (cases "e = KafkaError OffsetOutOfRange")
    case True
    then show ?thesis
      using assms Some by (auto simp: afterRead_def split: option.splits result.splits)
  next
    case False
    then show ?thesis
      using assms Some sendError_version [OF assms(2), of env e] by (auto simp: afterRead_def split: if_splits)
  qed
qed (use assms in \<open>auto simp: afterRead_def\<close>)

lemma initStep_version:
  assumes "initStep r env attempt s = Some (Ok s')" "ownVersion r (rn_sent s)"
  shows "ownVersion r (rn_sent s')"
proof (cases "attempt \<noteq> 0 \<and> \<not> se_sleep env (reader_backoff attempt)")
  case False
  then obtain err conn start stats where
    i: "initialize (se_dial env) (se_now env) (rn_offset s) (pr_brokers r) (None, rn_stats s) = Some (Ok (err, conn, start), stats)"
    using assms(1) by (auto simp: initStep_def split: option.splits result.splits prod.splits)
  then show ?thesis
    using assms False by (cases err; cases conn) (auto simp: initStep_def Let_def intro!: sendError_version)
qed (use assms in \<open>auto simp: initStep_def\<close>)

lemma run_step_version:
  assumes "run_step r env s = Some (Ok s')" "ownVersion r (rn_sent s)"
  shows "ownVersion r (rn_sent s')"
proof (cases "rn_phase s")
  case (Reading c n)
  show ?thesis
  proof (cases "se_sleep env (reader_backoff n)")
    case True
    then obtain rr where rr: "reader_read r (se_read env) (rn_offset s) (rn_stats s) c = Some (Ok rr)"
      using assms(1) Reading by (auto simp: run_step_def readStep_def split: option.splits result.splits)
    have "afterRead r env n (rr_err rr) (rr_conn rr)
        (s\<lparr>rn_offset := rr_offset rr, rn_sent := rn_sent s @ rr_sent rr, rn_stats := rr_stats rr\<rparr>) = Some (Ok s')"
      using assms(1) Reading True rr by (simp add: run_step_def readStep_def)
    then show ?thesis
      by (rule afterRead_version) (use assms(2) reader_read_version [OF rr] in \<open>simp add: ownVersion_def\<close>)
  qed (use assms Reading in \<open>auto simp: run_step_def readStep_def\<close>)
qed (use assms in \<open>auto simp: run_step_def intro: initStep_version\<close>)

lemma reader_run_version:
  "reader_run r envs s = Some (Ok s') \<Longrightarrow> ownVersion r (rn_sent s) \<Longrightarrow> ownVersion r (rn_sent s')"
  by (induction envs arbitrary: s) (auto split: option.splits result.splits intro: run_step_version)

subsection \<open>A whole fetch\<close>

text \<open>The message that the program is given for one that the broker stores, and messages in the order of a log.\<close>

definition deliveredMessage :: "gostring \<Rightarrow> int \<Rightarrow> Message \<Rightarrow> Message" where
  "deliveredMessage topic part m =
     \<lparr>msg_Topic = topic, msg_Partition = part, msg_Offset = msg_Offset m, msg_Key = nilEmpty (msg_Key m), msg_Value = nilEmpty (msg_Value m),
      msg_Headers = [], msg_Time = timestampToTime (timestamp (msg_Time m))\<rparr>"

definition logOrder :: "Message list \<Rightarrow> bool" where
  "logOrder msgs \<longleftrightarrow> sorted_wrt (\<lambda>a b. sint (msg_Offset a) < sint (msg_Offset b)) msgs"

lemma sint_Suc_le:
  assumes "sint (x :: int64) < sint (y :: int64)"
  shows "sint (x + 1) \<le> sint y"
proof -
  have "sint x < 2 ^ 63 - 1" using assms sint_range_64 [of y] by simp
  then have "sint (x + 1) = sint x + 1"
    using sint_word_of_int_64 [of "sint x + 1"] sint_range_64 [of x] by simp
  then show ?thesis using assms by simp
qed

lemma dropWhile_logOrder:
  assumes "logOrder (m # ms)"
  shows "dropWhile (\<lambda>x. sint (msg_Offset x) < sint (msg_Offset m + 1)) ms = ms"
  using assms sint_Suc_le by (cases ms) (auto simp: logOrder_def dest: leD)

lemma Batch_ReadMessage_set:
  assumes "ba_err b = None" "ba_msgs b = Some (SetV1 [frameOf (setBytes msgs) rest e 0])" "list_all messageOk msgs"
    and "dropWhile (\<lambda>m. sint (msg_Offset m) < sint (ba_offset b)) msgs = m # ms" "sint (cn_offset c) \<le> sint (msg_Offset m)"
  shows "Batch_ReadMessage codecs now (b, c) =
    Some (Ok (deliveredMessage (ba_topic b) (ba_partition b) m),
      b\<lparr>ba_offset := msg_Offset m + 1, ba_msgs := Some (SetV1 [frameOf (setBytes ms) rest e 0])\<rparr>,
      c\<lparr>cn_rbuf := \<lparr>rd_bytes = setBytes ms @ rest, rd_err = e\<rparr>\<rparr>)"
  using assms(5) by (simp add: Batch_ReadMessage_def Batch_readMessage_set [OF assms(1-4)] skipLoop_done deliveredMessage_def)

lemma Batch_ReadMessage_end:
  assumes "ba_err b = None" "ba_msgs b = Some (SetV1 [frameOf (setBytes msgs) rest e 0])" "list_all messageOk msgs"
    and "dropWhile (\<lambda>m. sint (msg_Offset m) < sint (ba_offset b)) msgs = []"
  shows "Batch_ReadMessage codecs now (b, c) =
    Some (Err (checkTimeoutErr (ba_deadline b) now),
      b\<lparr>ba_err := Some (checkTimeoutErr (ba_deadline b) now), ba_msgs := Some (SetV1 [frameOf [] rest e 0])\<rparr>,
      c\<lparr>cn_rbuf := \<lparr>rd_bytes = rest, rd_err = e\<rparr>\<rparr>)"
proof -
  have "skipLoop f (Err x) bc = Some (Err x, bc)" for f x bc by (subst skipLoop.simps) simp
  then show ?thesis by (simp add: Batch_ReadMessage_def Batch_readMessage_end [OF assms])
qed

lemma endRead_set:
  assumes "ba_conn b" "ba_err b = Some (checkTimeoutErr d now)" "ba_msgs b = Some (SetV1 [frameOf [] rest e 0])"
  shows "rr_err (endRead offset sent stats (b, c)) = silentEOF (Some (checkTimeoutErr d now)) \<and>
    cn_rbuf (rr_conn (endRead offset sent stats (b, c))) = \<lparr>rd_bytes = rest, rd_err = e\<rparr> \<and>
    cn_offset (rr_conn (endRead offset sent stats (b, c))) = ba_offset b \<and>
    nt_closed (cn_net (rr_conn (endRead offset sent stats (b, c)))) = nt_closed (cn_net c)"
  using assms
  by (auto simp: endRead_def Batch_close_def discardV1_def onFrame_def discardN_def Discard_def storeReader_def frameOf_def silentEOF_def
      checkTimeoutErr_def Let_def)

lemma readLoop_set:
  assumes "ba_conn b" "ba_err b = None" "ba_msgs b = Some (SetV1 [frameOf (setBytes msgs) rest e 0])" "list_all messageOk msgs"
    and "dropWhile (\<lambda>m. sint (msg_Offset m) < sint (ba_offset b)) msgs = ms" "logOrder ms"
    and "list_all (\<lambda>m. sint (cn_offset c) \<le> sint (msg_Offset m)) ms" "\<And>j. re_send env j = None"
  shows "\<exists>rr. readLoop r env hw i deadline offset sent stats (b, c) = Some (Ok rr) \<and>
    rr_sent rr = sent @ map (\<lambda>m. sentMessage r hw (deliveredMessage (ba_topic b) (ba_partition b) m)) ms \<and>
    rr_offset rr = (if ms = [] then offset else msg_Offset (last ms) + 1) \<and>
    rr_err rr = silentEOF (Some (checkTimeoutErr (ba_deadline b) (re_readAt env (i + length ms)))) \<and>
    cn_rbuf (rr_conn rr) = \<lparr>rd_bytes = rest, rd_err = e\<rparr> \<and>
    cn_offset (rr_conn rr) = (if ms = [] then ba_offset b else msg_Offset (last ms) + 1) \<and>
    nt_closed (cn_net (rr_conn rr)) = nt_closed (cn_net c)"
  using assms(1-7)
proof (induction ms arbitrary: msgs b c i deadline offset sent stats)
  case Nil
  let ?c = "snd (extendDeadline (re_testAt env i) deadline c)"
  let ?err = "checkTimeoutErr (ba_deadline b) (re_readAt env i)"
  let ?b = "b\<lparr>ba_err := Some ?err, ba_msgs := Some (SetV1 [frameOf [] rest e 0])\<rparr>"
  let ?c1 = "?c\<lparr>cn_rbuf := \<lparr>rd_bytes = rest, rd_err = e\<rparr>\<rparr>"
  have "readLoop r env hw i deadline offset sent stats (b, c) = Some (Ok (endRead offset sent stats (?b, ?c1)))"
    by (subst readLoop.simps) (simp add: Batch_ReadMessage_end [OF Nil.prems(2-5)] case_prod_beta)
  then show ?case
    using endRead_set [of ?b "ba_deadline b" "re_readAt env i" rest e offset sent stats ?c1] Nil.prems(1) by simp
next
  case (Cons m ms)
  let ?c = "snd (extendDeadline (re_testAt env i) deadline c)"
  let ?d = "fst (extendDeadline (re_testAt env i) deadline c)"
  let ?b = "b\<lparr>ba_offset := msg_Offset m + 1, ba_msgs := Some (SetV1 [frameOf (setBytes ms) rest e 0])\<rparr>"
  let ?c1 = "?c\<lparr>cn_rbuf := \<lparr>rd_bytes = setBytes ms @ rest, rd_err = e\<rparr>\<rparr>"
  let ?m = "deliveredMessage (ba_topic b) (ba_partition b) m"
  have read: "Batch_ReadMessage codecs now (b, ?c) = Some (Ok ?m, ?b, ?c1)" for codecs now
    using Cons.prems(7) by (intro Batch_ReadMessage_set [OF Cons.prems(2-5)]) simp
  have "set (m # ms) \<subseteq> set msgs" using Cons.prems(5) by (metis set_dropWhileD subsetI)
  then have ok: "list_all messageOk ms" using Cons.prems(4) by (auto simp: list_all_iff)
  have "\<exists>stats'. readLoop r env hw i deadline offset sent stats (b, c) =
      readLoop r env hw (i + 1) ?d (msg_Offset m + 1) (sent @ [sentMessage r hw ?m]) stats' (?b, ?c1)"
    by (intro exI, rule trans, rule readLoop.simps, simp add: read assms(8) case_prod_beta Let_def, simp add: deliveredMessage_def)
  then obtain stats' where step: "readLoop r env hw i deadline offset sent stats (b, c) =
      readLoop r env hw (i + 1) ?d (msg_Offset m + 1) (sent @ [sentMessage r hw ?m]) stats' (?b, ?c1)" ..
  have "logOrder ms" using Cons.prems(6) by (simp add: logOrder_def)
  from Cons.IH [of ?b ms ?c1 "i + 1" ?d "msg_Offset m + 1" "sent @ [sentMessage r hw ?m]" stats', OF _ _ _ ok _ this]
  show ?case
    unfolding step using Cons.prems dropWhile_logOrder [OF Cons.prems(6)] by auto
qed

lemma Conn_SetReadDeadline_fields:
  "cn_clientID (Conn_SetReadDeadline t c) = cn_clientID c" "cn_topic (Conn_SetReadDeadline t c) = cn_topic c"
  "cn_partition (Conn_SetReadDeadline t c) = cn_partition c" "cn_fetchMaxBytes (Conn_SetReadDeadline t c) = cn_fetchMaxBytes c"
  "cn_correlationID (Conn_SetReadDeadline t c) = cn_correlationID c" "cn_fetchVersion (Conn_SetReadDeadline t c) = cn_fetchVersion c"
  "usable (Conn_SetReadDeadline t c) = usable c" "deadlineOf RDeadline (Conn_SetReadDeadline t c) = t"
  by (simp_all add: Conn_SetReadDeadline_def onDeadline_def connDeadline_setDeadline_def usable_def deadlineOf_def Let_def)

lemma reader_read_set:
  assumes "usable c" "0 \<le> pr_minBytes r" "pr_minBytes r \<le> pr_maxBytes r" "pr_maxBytes r \<le> sint (cn_fetchMaxBytes c)"
    and "cn_offset c \<noteq> FirstOffset" "cn_offset c \<noteq> LastOffset" "cn_fetchVersion c \<noteq> 5" "okString topic"
    and "length (fetchResponse throttle topic part hw msgs) < 2 ^ 31 - 4" "hw \<noteq> cn_offset c" "list_all messageOk msgs" "logOrder msgs"
    and "dropWhile (\<lambda>m. sint (msg_Offset m) < sint (cn_offset c)) msgs = m # ms"
    and "cn_rbuf c = \<lparr>rd_bytes = responseBytes (cn_correlationID c + 1) (fetchResponse throttle topic part hw msgs) @ rest, rd_err = e\<rparr>"
    and "\<forall>j. re_send env j = None"
  shows "\<exists>rr. reader_read r env (cn_offset c) stats c = Some (Ok rr) \<and>
    rr_sent rr = map (\<lambda>x. sentMessage r hw (deliveredMessage (cn_topic c) (sint (cn_partition c)) x)) (m # ms) \<and>
    rr_offset rr = msg_Offset (last (m # ms)) + 1 \<and> cn_offset (rr_conn rr) = rr_offset rr \<and>
    rr_err rr = silentEOF (Some (checkTimeoutErr (adjustDeadlineForRTT (Add (re_t0 env) (pr_maxWait r)) (re_fetchAt env) defaultRTT)
      (re_readAt env (length (m # ms))))) \<and>
    \<not> nt_closed (cn_net (rr_conn rr)) \<and> cn_rbuf (rr_conn rr) = \<lparr>rd_bytes = rest, rd_err = e\<rparr>"
proof -
  let ?c = "Conn_SetReadDeadline (Add (re_t0 env) (pr_maxWait r)) c"
  let ?cfg = "\<lparr>rb_MinBytes = pr_minBytes r, rb_MaxBytes = pr_maxBytes r, rb_IsolationLevel = 0\<rparr>"
  let ?b = "fetchedBatch (adjustDeadlineForRTT (deadlineOf RDeadline ?c) (re_fetchAt env) defaultRTT) (cn_offset ?c) throttle hw
    (SetV1 [frameOf (setBytes msgs) rest e 0]) ?c"
  have ne: "msgs \<noteq> []" using assms(13) by auto
  have "checkBounds ?cfg ?c = None" using assms(2-4) by (simp add: checkBounds_def Conn_SetReadDeadline_fields)
  then obtain c1 where c1: "Conn_ReadBatchWith (re_fetchAt env) ?cfg ?c = Some (Ok (), ?b, c1)"
    "exchanged ?c (fetchBytes (re_fetchAt env) ?cfg ?c) \<lparr>rd_bytes = setBytes msgs @ rest, rd_err = e\<rparr> False c1"
    using Conn_ReadBatchWith_set [of ?c ?cfg topic throttle part hw msgs rest e "re_fetchAt env"] assms ne
    by (auto simp: Conn_SetReadDeadline_fields)
  let ?d = "Add (re_deadlineAt env) safetyTimeout"
  let ?stats = "stats\<lparr>rst_fetches := counter_observe 1 (rst_fetches stats), rst_offset := gauge_observe (cn_offset c) (rst_offset stats)\<rparr>"
  let ?c2 = "Conn_SetReadDeadline ?d c1"
  have off: "cn_offset ?c2 = cn_offset c" "\<not> nt_closed (cn_net ?c2)" using c1(2) by (simp_all add: exchanged_def sameConfig_def)
  have "logOrder (m # ms)" using assms(12) by (metis assms(13) logOrder_def sorted_wrt_dropWhile)
  moreover have "list_all (\<lambda>x. sint (cn_offset ?c2) \<le> sint (msg_Offset x)) (m # ms)"
    using hd_dropWhile [of "\<lambda>m. sint (msg_Offset m) < sint (cn_offset c)" msgs] assms(13) \<open>logOrder (m # ms)\<close> off
    by (auto simp: logOrder_def list_all_iff intro: order.strict_implies_order le_less_trans)
  moreover have "ba_deadline ?b = adjustDeadlineForRTT (Add (re_t0 env) (pr_maxWait r)) (re_fetchAt env) defaultRTT"
    "ba_topic ?b = cn_topic c" "ba_partition ?b = sint (cn_partition c)"
    by (simp_all add: Conn_SetReadDeadline_fields)
  ultimately have "\<exists>rr. readLoop r env hw 0 ?d (cn_offset c) [] ?stats (?b, ?c2) = Some (Ok rr) \<and>
      rr_sent rr = map (\<lambda>x. sentMessage r hw (deliveredMessage (cn_topic c) (sint (cn_partition c)) x)) (m # ms) \<and>
      rr_offset rr = msg_Offset (last (m # ms)) + 1 \<and>
      rr_err rr = silentEOF (Some (checkTimeoutErr (ba_deadline ?b) (re_readAt env (length (m # ms))))) \<and>
      cn_rbuf (rr_conn rr) = \<lparr>rd_bytes = rest, rd_err = e\<rparr> \<and> cn_offset (rr_conn rr) = msg_Offset (last (m # ms)) + 1 \<and>
      nt_closed (cn_net (rr_conn rr)) = nt_closed (cn_net ?c2)"
    using readLoop_set [of ?b msgs rest e "m # ms" ?c2 env r hw 0 ?d "cn_offset c" "[]" ?stats] assms(11,13,15) by simp
  then show ?thesis
    using c1(1) off by (auto simp: reader_read_def Conn_ReadBatch_def Let_def Conn_SetReadDeadline_fields(8))
qed

subsection \<open>Properties\<close>

text \<open>C7. Whatever the broker sends, a fetch from an absolute offset only gives the program messages that are not below that offset, all
  with the version of the reader, and the reader goes on after the last message it has sent, or at the offset it had when
  it has sent none: no message is skipped or sent twice because of what \<open>read\<close> does with its offset.\<close>

theorem reader_read_offsets:
  assumes "reader_read r env offset stats c = Some (Ok rr)" "cn_offset c \<noteq> FirstOffset" "cn_offset c \<noteq> LastOffset"
  shows "sentFrom r (cn_offset c) offset (rr_sent rr) (rr_offset rr)"
proof -
  let ?c = "Conn_SetReadDeadline (Add (re_t0 env) (pr_maxWait r)) c"
  let ?cfg = "\<lparr>rb_MinBytes = pr_minBytes r, rb_MaxBytes = pr_maxBytes r, rb_IsolationLevel = 0\<rparr>"
  obtain b c1 hw deadline stats' where fetch: "Conn_ReadBatchWith (re_fetchAt env) ?cfg ?c = Some (Ok (), b, c1)"
    and loop: "readLoop r env hw 0 deadline offset [] stats' (b, Conn_SetReadDeadline deadline c1) = Some (Ok rr)"
    using assms(1) by (auto simp: reader_read_def Conn_ReadBatch_def Let_def split: option.splits result.splits prod.splits)
  have "batchLive b" "cn_offset c1 = cn_offset c"
    using Conn_ReadBatchWith_live [OF fetch] assms(2,3) by simp_all
  then show ?thesis
    using readLoop_offsets [OF loop, of "cn_offset c" offset] by (simp add: sentFrom_def)
qed

definition exampleReadEnv :: read_env where
  "exampleReadEnv = \<lparr>re_codecs = Map.empty, re_t0 = 0, re_fetchAt = 0, re_deadlineAt = 0, re_testAt = (\<lambda>_. 0), re_readAt = (\<lambda>_. 0), re_send = (\<lambda>_. None)\<rparr>"

definition examplePartitionReader :: partition_reader where
  "examplePartitionReader = \<lparr>pr_brokers = [[98]], pr_topic = [116], pr_partition = 0, pr_minBytes = 1, pr_maxBytes = 100, pr_maxWait = 10 * Second,
     pr_version = 1, pr_autoOffsetReset = LastOffset\<rparr>"

abbreviation fetchConn :: Conn where
  "fetchConn \<equiv> exampleConn False (responseBytes 1 (fetchResponse 0 [116] 0 9 [fetchedMessage]) @ [])"

lemma example_read:
  "\<exists>rr. reader_read examplePartitionReader exampleReadEnv 0 zeroReaderStats fetchConn = Some (Ok rr) \<and>
     rr_sent rr = [sentMessage examplePartitionReader 9 (deliveredMessage [116] 0 fetchedMessage)] \<and> rr_offset rr = 8 \<and> rr_err rr = None"
proof -
  have "checkTimeoutErr (adjustDeadlineForRTT (Add 0 (10 * Second)) 0 defaultRTT) 0 = EOF"
    by (simp add: checkTimeoutErr_def adjustDeadlineForRTT_def Add_def Sub_def defaultRTT_def IsZero_def zeroTime_def)
  then show ?thesis
    using reader_read_set [of fetchConn examplePartitionReader "[116]" 0 0 9 "[fetchedMessage]" fetchedMessage "[]" "[]" EOF exampleReadEnv zeroReaderStats]
      length_setBytes_1 fetchedMessage_ok usable_exampleConn
    by (auto simp: exampleConn_def okString_def fetchResponse_def fetchHeaderV2_def wire fetchedMessage_def zeroMessage_def
        examplePartitionReader_def exampleReadEnv_def logOrder_def silentEOF_def)
qed

theorem reader_read_offsets_witness:
  "\<exists>rr. reader_read examplePartitionReader exampleReadEnv 0 zeroReaderStats fetchConn = Some (Ok rr) \<and>
     sentFrom examplePartitionReader 0 0 (rr_sent rr) (rr_offset rr) \<and> rr_sent rr \<noteq> []"
proof -
  obtain rr where "reader_read examplePartitionReader exampleReadEnv 0 zeroReaderStats fetchConn = Some (Ok rr)" "rr_sent rr \<noteq> []"
    using example_read by force
  with reader_read_offsets [of examplePartitionReader exampleReadEnv 0 zeroReaderStats fetchConn] show ?thesis
    by (auto simp: exampleConn_def)
qed

text \<open>C6. A fetch that the broker answers with messages of the first formats gives the program exactly those at or after the offset, in
  order and once each, with the high water mark of the answer; the reader and the connection go on after the last of them, the
  connection is open, and the next response is next on the wire. The read fails only when its deadline has passed at the end.\<close>

theorem reader_read_delivers:
  assumes "usable c" "0 \<le> pr_minBytes r" "pr_minBytes r \<le> pr_maxBytes r" "pr_maxBytes r \<le> sint (cn_fetchMaxBytes c)"
    and "cn_offset c \<noteq> FirstOffset" "cn_offset c \<noteq> LastOffset" "cn_fetchVersion c \<noteq> 5" "okString topic"
    and "length (fetchResponse throttle topic part hw msgs) < 2 ^ 31 - 4" "hw \<noteq> cn_offset c" "list_all messageOk msgs" "logOrder msgs"
    and "dropWhile (\<lambda>m. sint (msg_Offset m) < sint (cn_offset c)) msgs = m # ms"
    and "cn_rbuf c = \<lparr>rd_bytes = responseBytes (cn_correlationID c + 1) (fetchResponse throttle topic part hw msgs) @ rest, rd_err = e\<rparr>"
    and "\<forall>j. re_send env j = None"
  shows "\<exists>rr. reader_read r env (cn_offset c) stats c = Some (Ok rr) \<and>
    rr_sent rr = map (\<lambda>x. sentMessage r hw (deliveredMessage (cn_topic c) (sint (cn_partition c)) x)) (m # ms) \<and>
    rr_offset rr = msg_Offset (last (m # ms)) + 1 \<and> cn_offset (rr_conn rr) = rr_offset rr \<and>
    rr_err rr = silentEOF (Some (checkTimeoutErr (adjustDeadlineForRTT (Add (re_t0 env) (pr_maxWait r)) (re_fetchAt env) defaultRTT)
      (re_readAt env (length (m # ms))))) \<and>
    \<not> nt_closed (cn_net (rr_conn rr)) \<and> cn_rbuf (rr_conn rr) = \<lparr>rd_bytes = rest, rd_err = e\<rparr>"
  using assms by (rule reader_read_set)

theorem reader_read_delivers_witness:
  "\<exists>rr. reader_read examplePartitionReader exampleReadEnv 0 zeroReaderStats fetchConn = Some (Ok rr) \<and>
     map (msg_Offset \<circ> rm_message) (rr_sent rr) = [7] \<and> rr_offset rr = 8"
  using reader_read_delivers [of fetchConn examplePartitionReader "[116]" 0 0 9 "[fetchedMessage]" fetchedMessage "[]" "[]" EOF exampleReadEnv zeroReaderStats]
    length_setBytes_1 fetchedMessage_ok usable_exampleConn
  by (auto simp: exampleConn_def okString_def fetchResponse_def fetchHeaderV2_def wire fetchedMessage_def zeroMessage_def
      examplePartitionReader_def exampleReadEnv_def logOrder_def deliveredMessage_def sentMessage_def)

text \<open>C36. After a fetch that succeeded the reader pauses for 100 milliseconds before the next one: the counter of errors is reset, but then
  incremented with the other outcomes, and the next iteration sleeps for the delay after one error.\<close>

theorem reader_pauses_after_success:
  assumes "rn_phase s = Reading c errcount" "se_sleep env (reader_backoff errcount)"
    and "reader_read r (se_read env) (rn_offset s) (rn_stats s) c = Some (Ok rr)" "rr_err rr = None"
  shows "\<exists>s'. run_step r env s = Some (Ok s') \<and> rn_phase s' = Reading (rr_conn rr) 1 \<and>
    (\<forall>env'. \<not> se_sleep env' (100 * Millisecond) \<longrightarrow> run_step r env' s' = Some (Ok (s'\<lparr>rn_phase := Quit\<rparr>)))"
proof -
  have "reader_backoff 1 = 100 * Millisecond" by (simp add: reader_backoff_def backoff_def)
  then show ?thesis using assms by (simp add: run_step_def readStep_def afterRead_def)
qed

definition exampleStepEnv :: step_env where
  "exampleStepEnv = \<lparr>se_sleep = (\<lambda>_. True), se_dial = (\<lambda>_. Inl EOF), se_now = 0, se_read = exampleReadEnv, se_sendError = None\<rparr>"

definition exampleRun :: run_state where
  "exampleRun = \<lparr>rn_phase = Reading fetchConn 0, rn_offset = 0, rn_sent = [], rn_stats = zeroReaderStats\<rparr>"

theorem reader_pauses_after_success_witness:
  "\<exists>s' c'. run_step examplePartitionReader exampleStepEnv exampleRun = Some (Ok s') \<and> rn_phase s' = Reading c' 1"
proof -
  obtain rr where "reader_read examplePartitionReader exampleReadEnv 0 zeroReaderStats fetchConn = Some (Ok rr)" "rr_err rr = None"
    using example_read by force
  with reader_pauses_after_success [of exampleRun fetchConn 0 exampleStepEnv examplePartitionReader rr] show ?thesis
    by (auto simp: exampleRun_def exampleStepEnv_def)
qed

text \<open>C35. When the broker reports an offset out of range and the seek that should reset it fails, the reader connects again with offset 0: it
  loses the offset it had and the configured reset, and goes on with the oldest message of the partition even when it was
  told to go on with the newest.\<close>

theorem reader_reset_lost:
  assumes "Conn_Seek 0 (if pr_autoOffsetReset r = FirstOffset then SeekStart else SeekEnd) c = Some (Err e, c1)"
    and "se_dial env' broker = Inr c2" "reader_readOffsets (se_now env') c2 = Some (Ok (first, newest), c3)"
    and "0 \<le> sint first" "pr_brokers r = broker # brokers" "se_sleep env' (100 * Millisecond)"
    and "Conn_Seek first SeekAbsolute c3 = Some (Ok first, c4)"
  shows "\<exists>s1 s2 c'. afterRead r env errcount (Some (KafkaError OffsetOutOfRange)) c s = Some (Ok s1) \<and>
    run_step r env' s1 = Some (Ok s2) \<and> rn_phase s2 = Reading c' 0 \<and> rn_offset s2 = first"
proof -
  have "first = 0 \<or> 0 < sint first" using assms(4) by (metis order_le_less signed_0 signed_word_eqI)
  moreover have "reader_backoff 1 = 100 * Millisecond" by (simp add: reader_backoff_def backoff_def)
  ultimately show ?thesis
    using assms by (auto simp: afterRead_def run_step_def initStep_def Let_def)
qed

text \<open>A broker that answers the two list offset requests.\<close>

definition offsetsAnswer :: "int32 \<Rightarrow> int64 \<Rightarrow> int64 \<Rightarrow> byte list" where
  "offsetsAnswer corr first newest =
     responseBytes (corr + 1) (offsetResponse [116] \<lparr>loOff_Partition = 0, loOff_ErrorCode = 0, loOff_Timestamp = 0, loOff_Offset = first\<rparr>) @
     responseBytes (2 + corr) (offsetResponse [116] \<lparr>loOff_Partition = 0, loOff_ErrorCode = 0, loOff_Timestamp = 0, loOff_Offset = newest\<rparr>)"

lemma Conn_ReadOffsets_answered:
  assumes "usable c" "cn_rbuf c = \<lparr>rd_bytes = offsetsAnswer (cn_correlationID c) first newest, rd_err = e\<rparr>"
  shows "\<exists>c'. Conn_ReadOffsets c = Some (Ok (first, newest), c') \<and> cn_offset c' = cn_offset c"
proof -
  let ?p = "\<lambda>x :: int64. \<lparr>loOff_Partition = 0 :: int32, loOff_ErrorCode = 0 :: int16, loOff_Timestamp = 0 :: int64, loOff_Offset = x\<rparr>"
  let ?rest = "responseBytes (2 + cn_correlationID c) (offsetResponse [116] (?p newest))"
  have ok: "okString [116]" by (simp add: okString_def)
  have "cn_rbuf c = \<lparr>rd_bytes = responseBytes (cn_correlationID c + 1) (offsetResponse [116] (?p first)) @ ?rest, rd_err = e\<rparr>"
    using assms(2) by (simp add: offsetsAnswer_def)
  from Conn_readOffset_answered [OF assms(1) ok _ this, of FirstOffset] obtain c1 where
    c1: "Conn_readOffset FirstOffset c = Some (Ok first, c1)" "\<exists>bs. exchanged c bs \<lparr>rd_bytes = ?rest, rd_err = e\<rparr> False c1"
    by auto
  then have "usable c1" "cn_offset c1 = cn_offset c" "cn_rbuf c1 = \<lparr>rd_bytes = responseBytes (cn_correlationID c1 + 1) (offsetResponse [116] (?p newest)) @ [], rd_err = e\<rparr>"
    using assms(1) by (auto simp: exchanged_def sameConfig_def usable_def)
  from Conn_readOffset_answered [OF this(1) ok _ this(3), of LastOffset] this(2) show ?thesis
    using c1(1) by (auto simp: Conn_ReadOffsets_def Conn_ReadFirstOffset_def Conn_ReadLastOffset_def cbind_def cret_def exchanged_def sameConfig_def)
qed

theorem reader_reset_lost_witness:
  "\<exists>s1 s2 c'. afterRead examplePartitionReader exampleStepEnv 0 (Some (KafkaError OffsetOutOfRange)) (exampleConn False [])
       (exampleRun\<lparr>rn_offset := 12\<rparr>) = Some (Ok s1) \<and>
     run_step examplePartitionReader (exampleStepEnv\<lparr>se_dial := \<lambda>_. Inr ((exampleConn False (offsetsAnswer 0 3 9))\<lparr>cn_offset := 3\<rparr>)\<rparr>) s1 = Some (Ok s2) \<and>
     rn_phase s2 = Reading c' 0 \<and> rn_offset s2 = 3"
proof -
  let ?c2 = "(exampleConn False (offsetsAnswer 0 3 9))\<lparr>cn_offset := 3\<rparr>"
  let ?env' = "exampleStepEnv\<lparr>se_dial := \<lambda>_. Inr ?c2\<rparr>"
  have "\<exists>e c1. Conn_Seek 0 SeekEnd (exampleConn False []) = Some (Err e, c1)"
    by (simp add: Conn_Seek_def Conn_ReadOffsets_def Conn_ReadFirstOffset_def Conn_readOffset_def readOperation_def
        Conn_do_def cbind_def doRequest_def Let_def Conn_Flush_def exampleConn_def deadline_defs)
      (subst waitResponse.simps, simp add: Let_def deadline_defs peekResponseSizeAndID_def Peek_def bufSize_def)
  then obtain e c1 where seek: "Conn_Seek 0 SeekEnd (exampleConn False []) = Some (Err e, c1)" by blast
  have "\<exists>c3. Conn_ReadOffsets (Conn_SetDeadline (Add 0 (10 * Second)) ?c2) = Some (Ok (3, 9), c3) \<and> cn_offset c3 = 3"
    using Conn_ReadOffsets_answered [of "Conn_SetDeadline (Add 0 (10 * Second)) ?c2" 3 9 EOF]
    by (simp add: Conn_SetDeadline_def onDeadline_def connDeadline_setDeadline_def usable_def exampleConn_def Let_def)
  then obtain c3 where c3: "reader_readOffsets (se_now ?env') ?c2 = Some (Ok (3, 9), c3)" "cn_offset c3 = 3"
    by (auto simp: reader_readOffsets_def exampleStepEnv_def)
  then have "Conn_Seek 3 SeekAbsolute c3 = Some (Ok 3, c3)" by (simp add: Conn_Seek_def cret_def)
  with seek c3(1) show ?thesis
    using reader_reset_lost [where r = examplePartitionReader and c = "exampleConn False []" and env = exampleStepEnv and env' = ?env' and
        broker = "[98]" and brokers = "[]" and first = 3 and newest = 9 and errcount = 0 and s = "exampleRun\<lparr>rn_offset := 12\<rparr>"]
    by (auto simp: examplePartitionReader_def exampleStepEnv_def)
qed

end
