(* ===== verification/Commits.thy ===== *)
theory Commits
  imports ReaderBase MessageSet "HOL-Library.AList"
begin

section \<open>Committing offsets (commit.go, reader.go)\<close>

text \<open>
  The offsets that the program commits: \<open>commit\<close> values made from messages, the stash that merges them, the commit request with
  its retries, and the two loops of the goroutine that sends it, immediately for every request or at intervals.

  An \<open>offsetStash\<close>, a map of maps in the source, is the association list of its entries in the order in which \<open>range\<close> visits
  them. Its meaning is the partial function from topics and partitions to offsets (\<open>stashed\<close>), on which \<open>merge\<close> is the
  pointwise maximum (\<open>merge_refines\<close>). The loops are sequences of steps, one for each value that their
  \<open>select\<close> receives; whether a \<open>sleep\<close> between attempts is cut short is an argument.
\<close>

subsection \<open>Commits\<close>

record commit =
  cm_topic :: gostring
  cm_partition :: int
  cm_offset :: int64

definition makeCommit :: "Message \<Rightarrow> commit" where
  "makeCommit msg = \<lparr>cm_topic = msg_Topic msg, cm_partition = msg_Partition msg, cm_offset = msg_Offset msg + 1\<rparr>"

definition makeCommits :: "Message list \<Rightarrow> commit list" where
  "makeCommits msgs = map makeCommit msgs"

type_synonym offsetStash = "(gostring \<times> (int \<times> int64) list) list"

definition mergeOne :: "commit \<Rightarrow> offsetStash \<Rightarrow> offsetStash" where
  "mergeOne c stash =
     (let offsetsByPartition = (case map_of stash (cm_topic c) of None \<Rightarrow> [] | Some m \<Rightarrow> m);
          offsetsByPartition =
            (case map_of offsetsByPartition (cm_partition c) of
               Some offset \<Rightarrow> if sint (cm_offset c) > sint offset then AList.update (cm_partition c) (cm_offset c) offsetsByPartition
                              else offsetsByPartition
             | None \<Rightarrow> AList.update (cm_partition c) (cm_offset c) offsetsByPartition)
      in AList.update (cm_topic c) offsetsByPartition stash)"

definition offsetStash_merge :: "commit list \<Rightarrow> offsetStash \<Rightarrow> offsetStash" where
  "offsetStash_merge commits stash = fold mergeOne commits stash"

definition offsetStash_reset :: "offsetStash \<Rightarrow> offsetStash" where
  "offsetStash_reset stash = []"

subsection \<open>The request\<close>

definition commitRequestOf :: "Reader \<Rightarrow> offsetStash \<Rightarrow> offsetCommitRequestV2" where
  "commitRequestOf r stash =
     (let (generationID, memberID) = membership r in
      \<lparr>ocReq_GroupID = rc_GroupID (rd_config r), ocReq_GenerationID = generationID, ocReq_MemberID = memberID,
       ocReq_RetentionTime = go_div (rc_RetentionTime (rd_config r)) Millisecond,
       ocReq_Topics = map (\<lambda>(topic, partitions).
         \<lparr>ocTReq_Topic = topic, ocTReq_Partitions = map (\<lambda>(part, offset).
            \<lparr>ocPReq_Partition = word_of_int part, ocPReq_Offset = offset, ocPReq_Metadata = []\<rparr>) partitions\<rparr>) stash\<rparr>)"

definition commitOffsets :: "Reader \<Rightarrow> offsetStash \<Rightarrow> unit conn_op" where
  "commitOffsets r stash c =
     (if stash = [] then cret () c
      else (case Conn_offsetCommit (commitRequestOf r stash) c of
          None \<Rightarrow> None
        | Some (Ok _, c) \<Rightarrow> Some (Ok (), c)
        | Some (Err e, c) \<Rightarrow> Some (Err (Errorf ''unable to commit offsets for group''), c)
        | Some (Panic p, c) \<Rightarrow> Some (Panic p, c)))"

text \<open>
  The attempts from number \<open>attempt\<close> on, with the error of the one before. \<open>sleeps attempt\<close> says whether the \<open>sleep\<close> before the
  attempt ran to its end.
\<close>

function commitAttempts :: "Reader \<Rightarrow> (nat \<Rightarrow> bool) \<Rightarrow> offsetStash \<Rightarrow> nat \<Rightarrow> nat \<Rightarrow> go_error option \<Rightarrow> unit conn_op" where
  "commitAttempts r sleeps stash retries attempt err c =
     (let return = (\<lambda>err c. Some (case err of None \<Rightarrow> Ok () | Some e \<Rightarrow> Err e, c)) in
      if attempt < retries then
        if attempt \<noteq> 0 \<and> \<not> sleeps attempt then return err c
        else (case commitOffsets r stash c of
            None \<Rightarrow> None
          | Some (Ok _, c) \<Rightarrow> Some (Ok (), c)
          | Some (Panic p, c) \<Rightarrow> Some (Panic p, c)
          | Some (Err e, c) \<Rightarrow> commitAttempts r sleeps stash retries (attempt + 1) (Some e) c)
      else return err c)"
  by pat_completeness auto
termination
  by (relation "measure (\<lambda>(r, sleeps, stash, retries, attempt, err, c). retries - attempt)") auto

declare commitAttempts.simps [simp del]

definition defaultCommitRetries :: nat where
  "defaultCommitRetries = 3"

definition commitOffsetsWithRetry :: "Reader \<Rightarrow> (nat \<Rightarrow> bool) \<Rightarrow> offsetStash \<Rightarrow> nat \<Rightarrow> unit conn_op" where
  "commitOffsetsWithRetry r sleeps stash retries = commitAttempts r sleeps stash retries 0 None"

subsection \<open>The loops\<close>

datatype commit_event = StopCommits | CommitTick | CommitRequested "commit list"

text \<open>
  The state of a commit loop: the connection, the stash, and what it has done: the answers of the synchronous loop and the
  stashes that were committed. The interval loop uses the stash of the \<open>Reader\<close>, which outlives the loop.
\<close>

record commit_loop =
  cl_conn :: Conn
  cl_stash :: offsetStash
  cl_answers :: "go_error option list"
  cl_committed :: "offsetStash list"
  cl_stopped :: bool

definition commitStash :: "Reader \<Rightarrow> (nat \<Rightarrow> bool) \<Rightarrow> commit_loop \<Rightarrow> (go_error, go_error option \<times> commit_loop) result option" where
  "commitStash r sleeps l =
     (case commitOffsetsWithRetry r sleeps (cl_stash l) defaultCommitRetries (cl_conn l) of
        None \<Rightarrow> None
      | Some (Panic p, c) \<Rightarrow> Some (Panic p)
      | Some (Err e, c) \<Rightarrow> Some (Ok (Some e, l\<lparr>cl_conn := c\<rparr>))
      | Some (Ok _, c) \<Rightarrow> Some (Ok (None, l\<lparr>cl_conn := c, cl_committed := cl_committed l @ [cl_stash l]\<rparr>)))"

fun commitLoopImmediate_step ::
  "Reader \<Rightarrow> (nat \<Rightarrow> bool) \<Rightarrow> commit_event \<Rightarrow> commit_loop \<Rightarrow> (go_error, commit_loop) result option" where
  "commitLoopImmediate_step r sleeps StopCommits l = Some (Ok (l\<lparr>cl_stopped := True\<rparr>))"
| "commitLoopImmediate_step r sleeps CommitTick l = Some (Ok l)"
| "commitLoopImmediate_step r sleeps (CommitRequested commits) l =
     (case commitStash r sleeps (l\<lparr>cl_stash := offsetStash_merge commits (cl_stash l)\<rparr>) of
        None \<Rightarrow> None
      | Some (Panic p) \<Rightarrow> Some (Panic p)
      | Some (Err e) \<Rightarrow> Some (Err e)
      | Some (Ok (err, l)) \<Rightarrow> Some (Ok (l\<lparr>cl_answers := cl_answers l @ [err], cl_stash := offsetStash_reset (cl_stash l)\<rparr>)))"

text \<open>The closure \<open>commit\<close> of the interval loop.\<close>

definition intervalCommit :: "Reader \<Rightarrow> (nat \<Rightarrow> bool) \<Rightarrow> commit_loop \<Rightarrow> (go_error, commit_loop) result option" where
  "intervalCommit r sleeps l =
     (case commitStash r sleeps l of
        None \<Rightarrow> None
      | Some (Panic p) \<Rightarrow> Some (Panic p)
      | Some (Err e) \<Rightarrow> Some (Err e)
      | Some (Ok (Some e, l)) \<Rightarrow> Some (Ok l)
      | Some (Ok (None, l)) \<Rightarrow> Some (Ok (l\<lparr>cl_stash := offsetStash_reset (cl_stash l)\<rparr>)))"

fun commitLoopInterval_step ::
  "Reader \<Rightarrow> (nat \<Rightarrow> bool) \<Rightarrow> commit_event \<Rightarrow> commit_loop \<Rightarrow> (go_error, commit_loop) result option" where
  "commitLoopInterval_step r sleeps StopCommits l =
     (case intervalCommit r sleeps l of
        None \<Rightarrow> None
      | Some (Panic p) \<Rightarrow> Some (Panic p)
      | Some (Err e) \<Rightarrow> Some (Err e)
      | Some (Ok l) \<Rightarrow> Some (Ok (l\<lparr>cl_stopped := True\<rparr>)))"
| "commitLoopInterval_step r sleeps CommitTick l = intervalCommit r sleeps l"
| "commitLoopInterval_step r sleeps (CommitRequested commits) l =
     Some (Ok (l\<lparr>cl_stash := offsetStash_merge commits (cl_stash l)\<rparr>))"

text \<open>A loop over a sequence of events, each with the outcomes of the sleeps that follow it.\<close>

fun commit_run ::
  "((nat \<Rightarrow> bool) \<Rightarrow> commit_event \<Rightarrow> commit_loop \<Rightarrow> (go_error, commit_loop) result option) \<Rightarrow>
   ((nat \<Rightarrow> bool) \<times> commit_event) list \<Rightarrow> commit_loop \<Rightarrow> (go_error, commit_loop) result option" where
  "commit_run step [] l = Some (Ok l)"
| "commit_run step ((sleeps, ev) # evs) l =
     (if cl_stopped l then Some (Ok l)
      else (case step sleeps ev l of Some (Ok l) \<Rightarrow> commit_run step evs l | r \<Rightarrow> r))"

definition commitLoop ::
  "Reader \<Rightarrow> ((nat \<Rightarrow> bool) \<times> commit_event) list \<Rightarrow> commit_loop \<Rightarrow> (go_error, commit_loop) result option" where
  "commitLoop r = commit_run (if rc_CommitInterval (rd_config r) = 0 then commitLoopImmediate_step r else commitLoopInterval_step r)"

subsection \<open>The stash as a function\<close>

definition stashed :: "offsetStash \<Rightarrow> gostring \<Rightarrow> int \<rightharpoonup> int64" where
  "stashed stash topic part = Option.bind (map_of stash topic) (\<lambda>m. map_of m part)"

text \<open>The specification: the largest offset of every partition.\<close>

definition raiseTo :: "commit \<Rightarrow> (gostring \<Rightarrow> int \<rightharpoonup> int64) \<Rightarrow> (gostring \<Rightarrow> int \<rightharpoonup> int64)" where
  "raiseTo c f =
     f(cm_topic c := (f (cm_topic c))(cm_partition c \<mapsto>
        (case f (cm_topic c) (cm_partition c) of
           None \<Rightarrow> cm_offset c
         | Some offset \<Rightarrow> if sint offset < sint (cm_offset c) then cm_offset c else offset)))"

lemma mergeOne_refines: "stashed (mergeOne c stash) = raiseTo c (stashed stash)"
  by (auto simp: mergeOne_def stashed_def raiseTo_def update_conv fun_eq_iff Let_def split: option.split)

lemma merge_refines: "stashed (offsetStash_merge commits stash) = fold raiseTo commits (stashed stash)"
  by (induction commits arbitrary: stash) (simp_all add: offsetStash_merge_def mergeOne_refines)

lemma raiseTo_other: "(cm_topic c, cm_partition c) \<noteq> (topic, part) \<Longrightarrow> raiseTo c f topic part = f topic part"
  by (auto simp: raiseTo_def)

text \<open>A partition whose offset is at least that of a commit.\<close>

definition covers :: "offsetStash \<Rightarrow> commit \<Rightarrow> bool" where
  "covers stash c \<longleftrightarrow> (\<exists>offset. stashed stash (cm_topic c) (cm_partition c) = Some offset \<and> sint (cm_offset c) \<le> sint offset)"

lemma covers_mergeOne: "covers (mergeOne c stash) c" "covers stash c' \<Longrightarrow> covers (mergeOne c stash) c'"
  by (auto simp: covers_def mergeOne_refines raiseTo_def split: option.split)

lemma covers_merge:
  "covers stash c \<Longrightarrow> covers (offsetStash_merge commits stash) c"
  "c \<in> set commits \<Longrightarrow> covers (offsetStash_merge commits stash) c"
proof -
  have keep: "covers stash c \<Longrightarrow> covers (offsetStash_merge commits stash) c" for commits stash
    by (induction commits arbitrary: stash) (simp_all add: offsetStash_merge_def covers_mergeOne(2))
  then show "covers stash c \<Longrightarrow> covers (offsetStash_merge commits stash) c" .
  show "c \<in> set commits \<Longrightarrow> covers (offsetStash_merge commits stash) c"
  proof (induction commits arbitrary: stash)
    case (Cons a commits)
    then show ?case
      using keep [of "mergeOne a stash" commits] covers_mergeOne(1) [of a stash]
      by (cases "c = a") (auto simp: offsetStash_merge_def)
  qed simp
qed

subsection \<open>Committed offsets\<close>

text \<open>The broker has accepted the offsets of a stash.\<close>

definition accepted :: "Reader \<Rightarrow> offsetStash \<Rightarrow> bool" where
  "accepted r stash \<longleftrightarrow> stash = [] \<or> (\<exists>c res c'. Conn_offsetCommit (commitRequestOf r stash) c = Some (Ok res, c'))"

lemma commitAttempts_accepted:
  assumes "commitAttempts r sleeps stash retries attempt err c = Some (Ok u, c')" "err \<noteq> None \<or> attempt = 0 \<and> 0 < retries"
  shows "accepted r stash"
  using assms
proof (induction r sleeps stash retries attempt err c rule: commitAttempts.induct)
  case (1 r sleeps stash retries attempt err c)
  from 1(2,3) have att: "attempt < retries" "\<not> (attempt \<noteq> 0 \<and> \<not> sleeps attempt)"
    by (subst (asm) commitAttempts.simps, auto simp: Let_def split: if_splits option.splits)+
  with 1(2) obtain res c1 where co: "commitOffsets r stash c = Some (res, c1)"
    by (subst (asm) commitAttempts.simps) (auto split: option.splits)
  show ?case
  proof (cases res)
    case (Ok x)
    with co show ?thesis
      by (auto simp: commitOffsets_def accepted_def split: if_splits option.splits result.splits) blast
  next
    case (Err e)
    with 1(2) att co have "commitAttempts r sleeps stash retries (attempt + 1) (Some e) c1 = Some (Ok u, c')"
      by (subst (asm) commitAttempts.simps) (auto split: if_splits)
    with 1(1) [OF refl att co refl Err] show ?thesis by simp
  next
    case (Panic p)
    with 1(2) att co show ?thesis by (subst (asm) commitAttempts.simps) (auto split: if_splits)
  qed
qed

lemma commitStash_cases:
  assumes "commitStash r sleeps l = Some (Ok (err, l'))"
  shows "cl_stash l' = cl_stash l \<and> cl_stopped l' = cl_stopped l \<and> cl_answers l' = cl_answers l \<and>
    (if err = None then cl_committed l' = cl_committed l @ [cl_stash l] \<and> accepted r (cl_stash l) else cl_committed l' = cl_committed l)"
  using assms commitAttempts_accepted [of r sleeps "cl_stash l" defaultCommitRetries 0 None "cl_conn l"]
  by (auto simp: commitStash_def commitOffsetsWithRetry_def defaultCommitRetries_def split: option.splits result.splits prod.splits)

text \<open>The commits that were requested before the loop was stopped.\<close>

fun requests :: "((nat \<Rightarrow> bool) \<times> commit_event) list \<Rightarrow> commit list list" where
  "requests [] = []"
| "requests ((_, CommitRequested commits) # evs) = commits # requests evs"
| "requests ((_, CommitTick) # evs) = requests evs"
| "requests ((_, StopCommits) # evs) = []"

definition kept :: "commit_loop \<Rightarrow> commit \<Rightarrow> bool" where
  "kept l c \<longleftrightarrow> covers (cl_stash l) c \<or> (\<exists>stash\<in>set (cl_committed l). covers stash c)"

definition allAccepted :: "Reader \<Rightarrow> commit_loop \<Rightarrow> bool" where
  "allAccepted r l \<longleftrightarrow> (\<forall>stash\<in>set (cl_committed l). accepted r stash)"

lemma intervalCommit_keeps:
  assumes "intervalCommit r sleeps l = Some (Ok l')" "allAccepted r l"
  shows "allAccepted r l' \<and> (\<forall>c. kept l c \<longrightarrow> kept l' c) \<and> cl_stopped l' = cl_stopped l"
  using assms commitStash_cases [of r sleeps l]
  by (auto simp: intervalCommit_def kept_def allAccepted_def offsetStash_reset_def split: option.splits result.splits)

lemma interval_step_keeps:
  assumes "commitLoopInterval_step r sleeps ev l = Some (Ok l')" "allAccepted r l"
  shows "allAccepted r l' \<and> (\<forall>c. kept l c \<longrightarrow> kept l' c) \<and>
    (\<forall>commits. ev = CommitRequested commits \<longrightarrow> (\<forall>c\<in>set commits. kept l' c)) \<and> cl_stopped l' = (ev = StopCommits \<or> cl_stopped l)"
proof (cases ev)
  case StopCommits
  with assms(1) obtain l1 where "intervalCommit r sleeps l = Some (Ok l1)" "l' = l1\<lparr>cl_stopped := True\<rparr>"
    by (auto split: option.splits result.splits)
  with intervalCommit_keeps [OF this(1) assms(2)] StopCommits show ?thesis
    by (simp add: allAccepted_def kept_def)
next
  case CommitTick
  with assms intervalCommit_keeps show ?thesis by simp
next
  case (CommitRequested commits)
  with assms show ?thesis
    by (auto simp: kept_def allAccepted_def covers_merge)
qed

lemma interval_run_keeps:
  assumes "commit_run (commitLoopInterval_step r) evs l = Some (Ok l')" "allAccepted r l" "\<not> cl_stopped l"
  shows "allAccepted r l' \<and> (\<forall>c. kept l c \<longrightarrow> kept l' c) \<and> (\<forall>c\<in>set (concat (requests evs)). kept l' c)"
  using assms
proof (induction evs arbitrary: l)
  case (Cons e evs)
  obtain sleeps ev where e: "e = (sleeps, ev)" by fastforce
  with Cons.prems(1,3) obtain l1 where st: "commitLoopInterval_step r sleeps ev l = Some (Ok l1)"
    "commit_run (commitLoopInterval_step r) evs l1 = Some (Ok l')"
    by (auto split: option.splits result.splits)
  note one = interval_step_keeps [OF st(1) Cons.prems(2)]
  show ?case
  proof (cases "ev = StopCommits")
    case True
    with one have "cl_stopped l1" by simp
    with st(2) have "l' = l1" by (cases evs) auto
    with one True e show ?thesis by simp
  next
    case False
    with one Cons.prems(3) have "\<not> cl_stopped l1" by simp
    from Cons.IH [OF st(2) _ this] one e False show ?thesis
      by (cases ev) auto
  qed
qed simp

lemma immediate_run_answers:
  assumes "commit_run (commitLoopImmediate_step r) evs l = Some (Ok l')" "allAccepted r l" "\<not> cl_stopped l"
    "list_all (\<lambda>(_, ev). ev \<noteq> CommitTick) evs"
  shows "allAccepted r l' \<and> (\<exists>answers. cl_answers l' = cl_answers l @ answers \<and> length answers = length (requests evs) \<and>
    (\<forall>i<length answers. answers ! i = None \<longrightarrow> (\<forall>c\<in>set (requests evs ! i). \<exists>stash\<in>set (cl_committed l'). covers stash c))) \<and>
    set (cl_committed l) \<subseteq> set (cl_committed l')"
  using assms
proof (induction evs arbitrary: l)
  case (Cons e evs)
  obtain sleeps ev where e: "e = (sleeps, ev)" by fastforce
  with Cons.prems(1,3) obtain l1 where st: "commitLoopImmediate_step r sleeps ev l = Some (Ok l1)"
    "commit_run (commitLoopImmediate_step r) evs l1 = Some (Ok l')"
    by (auto split: option.splits result.splits)
  show ?case
  proof (cases ev)
    case StopCommits
    with st(1) have "l1 = l\<lparr>cl_stopped := True\<rparr>" by simp
    with st(2) have "l' = l\<lparr>cl_stopped := True\<rparr>" by (cases evs) auto
    with StopCommits e Cons.prems(2) show ?thesis by (simp add: allAccepted_def)
  next
    case CommitTick
    with Cons.prems(4) e show ?thesis by simp
  next
    case (CommitRequested commits)
    define l0 where "l0 = l\<lparr>cl_stash := offsetStash_merge commits (cl_stash l)\<rparr>"
    obtain err l2 where cs: "commitStash r sleeps l0 = Some (Ok (err, l2))"
      and l1: "l1 = l2\<lparr>cl_answers := cl_answers l2 @ [err], cl_stash := offsetStash_reset (cl_stash l2)\<rparr>"
      using st(1) CommitRequested by (auto simp: l0_def split: option.splits result.splits)
    note res = commitStash_cases [OF cs]
    have acc: "allAccepted r l1" "\<not> cl_stopped l1" "cl_answers l1 = cl_answers l @ [err]" "set (cl_committed l) \<subseteq> set (cl_committed l1)"
      "err = None \<longrightarrow> (\<forall>c\<in>set commits. \<exists>stash\<in>set (cl_committed l1). covers stash c)"
      using res Cons.prems(2,3) covers_merge(2) by (auto simp: l1 l0_def allAccepted_def split: if_splits)
    obtain answers where ih: "allAccepted r l'" "cl_answers l' = cl_answers l1 @ answers" "length answers = length (requests evs)"
      "\<forall>i<length answers. answers ! i = None \<longrightarrow> (\<forall>c\<in>set (requests evs ! i). \<exists>stash\<in>set (cl_committed l'). covers stash c)"
      "set (cl_committed l1) \<subseteq> set (cl_committed l')"
      using Cons.IH [OF st(2) acc(1,2)] Cons.prems(4) by auto
    have "\<forall>i<length (err # answers). (err # answers) ! i = None \<longrightarrow>
        (\<forall>c\<in>set ((commits # requests evs) ! i). \<exists>stash\<in>set (cl_committed l'). covers stash c)"
      using ih(4,5) acc(5) by (auto simp: nth_Cons less_Suc_eq_0_disj split: nat.split) blast
    with ih acc CommitRequested e show ?thesis
      by (intro conjI exI [of _ "err # answers"]) auto
  qed
qed simp

subsection \<open>Properties\<close>

text \<open>C17. The stash refines the specification of committed offsets: on its meaning, the function from topics and partitions to offsets, a
  merge raises the offset of each partition to the largest one committed, and never lowers one.\<close>

theorem offsetStash_merge_refines:
  "stashed (offsetStash_merge commits stash) = fold raiseTo commits (stashed stash) \<and>
   (\<forall>topic part offset. stashed stash topic part = Some offset \<longrightarrow>
      (\<exists>offset'. stashed (offsetStash_merge commits stash) topic part = Some offset' \<and> sint offset \<le> sint offset'))"
proof (intro conjI merge_refines allI impI)
  fix topic part offset
  assume "stashed stash topic part = Some offset"
  then have "covers stash \<lparr>cm_topic = topic, cm_partition = part, cm_offset = offset\<rparr>"
    by (simp add: covers_def)
  from covers_merge(1) [OF this] show "\<exists>offset'. stashed (offsetStash_merge commits stash) topic part = Some offset' \<and> sint offset \<le> sint offset'"
    by (simp add: covers_def)
qed

theorem offsetStash_merge_refines_witness:
  "\<exists>offset. stashed (offsetStash_merge [\<lparr>cm_topic = [116], cm_partition = 0, cm_offset = 3\<rparr>] [([116], [(0, 5)])]) [116] 0 = Some offset \<and>
     5 \<le> sint offset"
proof -
  have "stashed [([116], [(0, 5)])] [116] 0 = Some 5" by (simp add: stashed_def)
  with offsetStash_merge_refines [of "[\<lparr>cm_topic = [116], cm_partition = 0, cm_offset = 3\<rparr>]" "[([116], [(0, 5)])]"] show ?thesis
    by fastforce
qed

definition exampleReader :: Reader where
  "exampleReader =
     \<lparr>rd_config =
        \<lparr>rc_Brokers = [lit ''b''], rc_GroupID = lit ''g'', rc_Topic = lit ''t'', rc_Partition = 0, rc_QueueCapacity = 1, rc_MinBytes = 1,
         rc_MaxBytes = 10, rc_MaxWait = Second, rc_ReadLagInterval = -1, rc_GroupBalancers = [rangeBalancer], rc_HeartbeatInterval = Second,
         rc_CommitInterval = Second, rc_PartitionWatchInterval = Second, rc_WatchPartitionChanges = False, rc_SessionTimeout = Second,
         rc_RebalanceTimeout = Second, rc_RetentionTime = Second, rc_AutoOffsetReset = FirstOffset\<rparr>,
      rd_version = 1, rd_offset = FirstOffset, rd_lag = 0, rd_closed = False, rd_address = [], rd_generationID = 1, rd_memberID = lit ''m'',
      rd_once = False, rd_stats = zeroReaderStats\<rparr>"



end
