(* ===== verification/ReaderFetch.thy ===== *)
theory ReaderFetch
  imports PartitionReader Commits
begin

section \<open>The interface of readers (reader.go)\<close>

text \<open>
  The methods that the program calls: \<open>FetchMessage\<close>, \<open>CommitMessages\<close>, \<open>ReadMessage\<close>, \<open>SetOffset\<close>, \<open>SetOffsetAt\<close>, \<open>ReadLag\<close>, \<open>Offset\<close>,
  \<open>Lag\<close>, \<open>Stats\<close> and \<open>Close\<close>. A method that waits takes what it receives as an argument; the result \<open>None\<close> means that it still waits.

  The second part puts the methods and the partition readers together: the system of a reader, the readers it has started and
  the channel between them, as a step relation. Its invariant gives the order of the messages that the program sees.
\<close>

subsection \<open>Fetching\<close>

datatype fetch_event = Received readerMessage | QueueClosed | FetchCancelled go_error

text \<open>The two sections of an iteration of \<open>FetchMessage\<close> that hold the lock: before the receive, and after it.\<close>

definition fetchBegin :: "Reader \<Rightarrow> spawned list \<times> Reader" where
  "fetchBegin r =
     (if \<not> rd_closed r \<and> rd_version r = 0 then Reader_start [(rc_Partition (rd_config r), rd_offset r)] r else ([], r))"

definition fetchReceive :: "int64 \<Rightarrow> readerMessage \<Rightarrow> Reader \<Rightarrow> (go_error, Message) result option \<times> Reader" where
  "fetchReceive version m r =
     (if sint (rm_version m) \<ge> sint version then
        (Some (case rm_error m of
            None \<Rightarrow> Ok (rm_message m)
          | Some e \<Rightarrow> Err (if e = EOF then ErrUnexpectedEOF else e)),
         if rm_error m = None \<and> version = rd_version r then
           (let offset = msg_Offset (rm_message m) + 1 in r\<lparr>rd_offset := offset, rd_lag := rm_watermark m - offset\<rparr>)
         else r)
      else (None, r))"

fun fetchLoop :: "fetch_event list \<Rightarrow> Reader \<Rightarrow> (go_error, Message) result option \<times> spawned list \<times> Reader" where
  "fetchLoop [] r = (let (started, r) = fetchBegin r in (None, started, r))"
| "fetchLoop (ev # evs) r =
     (let (started, r) = fetchBegin r in
      case ev of
        FetchCancelled e \<Rightarrow> (Some (Err e), started, r)
      | QueueClosed \<Rightarrow> (Some (Err EOF), started, r)
      | Received m \<Rightarrow>
          (case fetchReceive (rd_version r) m r of
             (Some res, r) \<Rightarrow> (Some res, started, r)
           | (None, r) \<Rightarrow> (let (res, later, r) = fetchLoop evs r in (res, started @ later, r))))"

definition FetchMessage :: "fetch_event list \<Rightarrow> Reader \<Rightarrow> (go_error, Message) result option \<times> spawned list \<times> Reader" where
  "FetchMessage evs r = fetchLoop evs (snd (activateReadLag r))"

subsection \<open>Committing\<close>

text \<open>
  What the first \<open>select\<close> of \<open>CommitMessages\<close> chooses, and what its second one receives: the answer of the commit loop or the
  error of the context. The result is what the call returns and the request it has queued.
\<close>

datatype commit_select = CommitQueued | CommitCancelled go_error | ReaderStopped

definition CommitMessages ::
  "Message list \<Rightarrow> commit_select \<Rightarrow> go_error option option \<Rightarrow> Reader \<Rightarrow> (go_error, unit) result option \<times> commit list option" where
  "CommitMessages msgs sel answer r =
     (if \<not> useConsumerGroup r then (Some (Err ErrOnlyAvailableWithGroup), None)
      else (case sel of
          CommitCancelled e \<Rightarrow> (Some (Err e), None)
        | ReaderStopped \<Rightarrow> (Some (Err ErrClosedPipe), None)
        | CommitQueued \<Rightarrow>
            (if \<not> useSyncCommits r then Some (Ok ())
             else map_option (\<lambda>err. case err of None \<Rightarrow> Ok () | Some e \<Rightarrow> Err e) answer,
             Some (makeCommits msgs))))"

definition Reader_ReadMessage ::
  "fetch_event list \<Rightarrow> commit_select \<Rightarrow> go_error option option \<Rightarrow> Reader \<Rightarrow>
   (go_error, Message) result option \<times> commit list option \<times> spawned list \<times> Reader" where
  "Reader_ReadMessage evs sel answer r =
     (case FetchMessage evs r of
        (Some (Ok m), started, r) \<Rightarrow>
          if useConsumerGroup r then
            (case CommitMessages [m] sel answer r of
               (None, req) \<Rightarrow> (None, req, started, r)
             | (Some (Ok _), req) \<Rightarrow> (Some (Ok m), req, started, r)
             | (Some (Err e), req) \<Rightarrow> (Some (Err e), req, started, r)
             | (Some (Panic p), req) \<Rightarrow> (Some (Panic p), req, started, r))
          else (Some (Ok m), None, started, r)
      | (res, started, r) \<Rightarrow> (res, None, started, r))"

subsection \<open>Offsets\<close>

definition Reader_Offset :: "Reader \<Rightarrow> int64" where
  "Reader_Offset r = (if useConsumerGroup r then - 1 else rd_offset r)"

definition Reader_Lag :: "Reader \<Rightarrow> int64" where
  "Reader_Lag r = (if useConsumerGroup r then - 1 else rd_lag r)"

definition SetOffset :: "int64 \<Rightarrow> Reader \<Rightarrow> (go_error, unit) result \<times> spawned list \<times> Reader" where
  "SetOffset offset r =
     (if useConsumerGroup r then (Err ErrNotAvailableWithGroup, [], r)
      else if rd_closed r then (Err ErrClosedPipe, [], r)
      else if offset \<noteq> rd_offset r then
        let r = r\<lparr>rd_offset := offset\<rparr>;
            (started, r) = (if rd_version r \<noteq> 0 then Reader_start [(rc_Partition (rd_config r), rd_offset r)] r else ([], r))
        in (Ok (), started, snd (activateReadLag r))
      else (Ok (), [], r))"

text \<open>The loop over the brokers: the first one that can be reached decides.\<close>

fun offsetAt :: "(gostring \<Rightarrow> go_error + Conn) \<Rightarrow> gotime \<Rightarrow> gotime \<Rightarrow> gostring list \<Rightarrow> (go_error, int64) result option" where
  "offsetAt dial deadline t [] = Some (Err (Errorf ''error setting offset for timestamp''))"
| "offsetAt dial deadline t (broker # brokers) =
     (case dial broker of
        Inl e \<Rightarrow> offsetAt dial deadline t brokers
      | Inr c \<Rightarrow> map_option fst (Conn_ReadOffset t (Conn_SetDeadline deadline c)))"

definition SetOffsetAt ::
  "(gostring \<Rightarrow> go_error + Conn) \<Rightarrow> gotime \<Rightarrow> gotime \<Rightarrow> Reader \<Rightarrow> ((go_error, unit) result \<times> spawned list \<times> Reader) option" where
  "SetOffsetAt dial deadline t r =
     (if rd_closed r then Some (Err ErrClosedPipe, [], r)
      else (case offsetAt dial deadline t (rc_Brokers (rd_config r)) of
          None \<Rightarrow> None
        | Some (Panic p) \<Rightarrow> Some (Panic p, [], r)
        | Some (Err e) \<Rightarrow> Some (Err e, [], r)
        | Some (Ok offset) \<Rightarrow> Some (SetOffset offset r)))"

text \<open>The goroutine of \<open>ReadLag\<close>: the brokers are tried in order until one answers.\<close>

fun lagOffsets ::
  "(gostring \<Rightarrow> go_error + Conn) \<Rightarrow> gotime \<Rightarrow> gostring list \<Rightarrow> (go_error, int64 \<times> int64) result \<Rightarrow> (go_error, int64 \<times> int64) result option" where
  "lagOffsets dial deadline [] res = Some res"
| "lagOffsets dial deadline (broker # brokers) res =
     (case dial broker of
        Inl e \<Rightarrow> lagOffsets dial deadline brokers (Err e)
      | Inr c \<Rightarrow>
          (case Conn_ReadOffsets (Conn_SetDeadline deadline c) of
             None \<Rightarrow> None
           | Some (Ok off, _) \<Rightarrow> Some (Ok off)
           | Some (Panic p, _) \<Rightarrow> Some (Panic p)
           | Some (Err e, _) \<Rightarrow> lagOffsets dial deadline brokers (Err e)))"

definition ReadLag :: "(gostring \<Rightarrow> go_error + Conn) \<Rightarrow> gotime \<Rightarrow> go_error option \<Rightarrow> Reader \<Rightarrow> (go_error, int64) result option" where
  "ReadLag dial deadline cancelled r =
     (if useConsumerGroup r then Some (Err ErrNotAvailableWithGroup)
      else (case cancelled of
          Some e \<Rightarrow> Some (Err e)
        | None \<Rightarrow>
            map_option (\<lambda>res. case res of
                Panic p \<Rightarrow> Panic p
              | Err e \<Rightarrow> Err e
              | Ok (first, newest) \<Rightarrow>
                  let cur = Reader_Offset r
                  in Ok (if cur = FirstOffset then newest - first else if cur = LastOffset then 0 else newest - cur))
              (lagOffsets dial deadline (rc_Brokers (rd_config r)) (Ok (0, 0)))))"

text \<open>An iteration of the goroutine that keeps the statistics of the lag.\<close>

definition readLag_step :: "(gostring \<Rightarrow> go_error + Conn) \<Rightarrow> gotime \<Rightarrow> go_error option \<Rightarrow> Reader \<Rightarrow> (go_error, Reader) result option" where
  "readLag_step dial deadline cancelled r =
     map_option (\<lambda>res. case res of
         Panic p \<Rightarrow> Panic p
       | Err e \<Rightarrow> Ok (r\<lparr>rd_stats := (rd_stats r)\<lparr>rst_errors := counter_observe 1 (rst_errors (rd_stats r))\<rparr>\<rparr>)
       | Ok lag \<Rightarrow> Ok (r\<lparr>rd_stats := (rd_stats r)\<lparr>rst_lag := gauge_observe lag (rst_lag (rd_stats r))\<rparr>\<rparr>))
       (ReadLag dial deadline cancelled r)"

record ReaderStats =
  rs_Dials :: int64
  rs_Fetches :: int64
  rs_Messages :: int64
  rs_Bytes :: int64
  rs_Rebalances :: int64
  rs_Timeouts :: int64
  rs_Errors :: int64
  rs_FetchSize :: SummaryStats
  rs_FetchBytes :: SummaryStats
  rs_Offset :: int64
  rs_Lag :: int64
  rs_MinBytes :: int64
  rs_MaxBytes :: int64
  rs_MaxWait :: duration
  rs_QueueLength :: int64
  rs_QueueCapacity :: int64
  rs_ClientID :: gostring
  rs_Topic :: gostring
  rs_Partition :: gostring
  rs_DeprecatedFetchesWithTypo :: int64

text \<open>The snapshot resets the counters and keeps the gauges. The label of the partition was computed by \<open>NewReader\<close>.\<close>

definition Reader_Stats ::
  "(int64 \<Rightarrow> int64 \<Rightarrow> int64) \<Rightarrow> gostring \<Rightarrow> int \<Rightarrow> Reader \<Rightarrow> ReaderStats \<times> Reader" where
  "Reader_Stats quot clientID queued r =
     (let config = rd_config r;
          stats = rd_stats r;
          (dials, dials') = counter_snapshot (rst_dials stats);
          (fetches, fetches') = counter_snapshot (rst_fetches stats);
          (messages, messages') = counter_snapshot (rst_messages stats);
          (byteCount, bytes') = counter_snapshot (rst_bytes stats);
          (rebalances, rebalances') = counter_snapshot (rst_rebalances stats);
          (timeouts, timeouts') = counter_snapshot (rst_timeouts stats);
          (errors, errors') = counter_snapshot (rst_errors stats);
          (fetchSize, fetchSize') = summary_snapshot quot (rst_fetchSize stats);
          (fetchBytes, fetchBytes') = summary_snapshot quot (rst_fetchBytes stats);
          (offset, offset') = gauge_snapshot (rst_offset stats);
          (lag, lag') = gauge_snapshot (rst_lag stats)
      in (\<lparr>rs_Dials = dials, rs_Fetches = fetches, rs_Messages = messages, rs_Bytes = byteCount, rs_Rebalances = rebalances,
           rs_Timeouts = timeouts, rs_Errors = errors, rs_FetchSize = fetchSize, rs_FetchBytes = fetchBytes,
           rs_Offset = offset, rs_Lag = lag, rs_MinBytes = word_of_int (rc_MinBytes config), rs_MaxBytes = word_of_int (rc_MaxBytes config),
           rs_MaxWait = rc_MaxWait config, rs_QueueLength = word_of_int queued, rs_QueueCapacity = word_of_int (rc_QueueCapacity config),
           rs_ClientID = clientID, rs_Topic = rc_Topic config,
           rs_Partition = itoa (if rc_GroupID config \<noteq> [] then - 1 else rc_Partition config),
           rs_DeprecatedFetchesWithTypo = fetches\<rparr>,
          r\<lparr>rd_stats := \<lparr>rst_dials = dials', rst_fetches = fetches', rst_messages = messages', rst_bytes = bytes',
             rst_rebalances = rebalances', rst_timeouts = timeouts', rst_errors = errors', rst_fetchSize = fetchSize',
             rst_fetchBytes = fetchBytes', rst_offset = offset', rst_lag = lag'\<rparr>\<rparr>))"

text \<open>Snapshots start a new window of the statistics and leave the reader as it is otherwise.\<close>

lemma Reader_Stats_reset:
  "snd (Reader_Stats quot clientID queued r) =
     r\<lparr>rd_stats := zeroReaderStats\<lparr>rst_offset := rst_offset (rd_stats r), rst_lag := rst_lag (rd_stats r)\<rparr>\<rparr>"
  by (simp add: Reader_Stats_def zeroReaderStats_def counter_snapshot_def gauge_snapshot_def summary_snapshot_def
      minimum_snapshot_def maximum_snapshot_def makeSummary_def Let_def)

text \<open>Closing sets the flags; the result says whether the channel of messages is closed by this call.\<close>

definition Reader_Close :: "Reader \<Rightarrow> bool \<times> Reader" where
  "Reader_Close r = (\<not> rd_closed r, r\<lparr>rd_once := True, rd_closed := True\<rparr>)"

subsection \<open>Fetching from a queue\<close>

text \<open>Without other calls on the reader, a fetch returns the first message of its version or a later one, and drops those before it.\<close>

lemma fetchBegin_started: "fetchBegin r = ([], r)" if "rd_version r \<noteq> 0"
  using that by (simp add: fetchBegin_def)

lemma fetchLoop_first:
  assumes "rd_version r \<noteq> 0" "\<forall>m\<in>set old. sint (rm_version m) < sint (rd_version r)" "sint (rd_version r) \<le> sint (rm_version m)"
  shows "fetchLoop (map Received old @ Received m # evs) r =
    (fst (fetchReceive (rd_version r) m r), [], snd (fetchReceive (rd_version r) m r))"
  using assms(2)
proof (induction old)
  case Nil
  then show ?case using assms(1,3) by (simp add: fetchBegin_started fetchReceive_def Let_def)
next
  case (Cons x old)
  then have "fetchReceive (rd_version r) x r = (None, r)" by (simp add: fetchReceive_def)
  with Cons assms(1) show ?case by (simp add: fetchBegin_started)
qed

subsection \<open>The system of a reader\<close>

text \<open>
  The state of the program: the reader, the partition readers it has started, the messages that were sent and those that are still
  in the channel, the version with which a fetch waits, and the messages that fetches have returned, each with that
  version. The number of starts is kept to speak about the width of versions.
\<close>

record reader_sys =
  ry_reader :: Reader
  ry_starts :: nat
  ry_spawned :: "spawned list"
  ry_sent :: "readerMessage list"
  ry_queue :: "readerMessage list"
  ry_waiting :: "int64 option"
  ry_returned :: "(int64 \<times> readerMessage) list"

definition sysOf :: "Reader \<Rightarrow> reader_sys" where
  "sysOf r = \<lparr>ry_reader = r, ry_starts = 0, ry_spawned = [], ry_sent = [], ry_queue = [], ry_waiting = None, ry_returned = []\<rparr>"

text \<open>Two messages of the same partition reader, neither of them an error, in the order of their offsets.\<close>

definition before :: "readerMessage \<Rightarrow> readerMessage \<Rightarrow> bool" where
  "before a b \<longleftrightarrow>
     (rm_version a = rm_version b \<and> msg_Partition (rm_message a) = msg_Partition (rm_message b) \<and> rm_error a = None \<and> rm_error b = None \<longrightarrow>
        sint (msg_Offset (rm_message a)) < sint (msg_Offset (rm_message b)))"

text \<open>
  A message that a started reader may send: an error, or a message of its partition, not below an absolute start offset and after
  all the messages that it has sent before. This is what \<open>reader.read\<close> delivers from a log in order (\<open>reader_read_set\<close>).
\<close>

definition sendable :: "spawned \<Rightarrow> readerMessage list \<Rightarrow> readerMessage \<Rightarrow> bool" where
  "sendable sp sent m \<longleftrightarrow>
     rm_version m = sp_version sp \<and>
     (rm_error m = None \<longrightarrow>
        msg_Partition (rm_message m) = sp_partition sp \<and> (0 \<le> sint (sp_offset sp) \<longrightarrow> sint (sp_offset sp) \<le> sint (msg_Offset (rm_message m))) \<and>
        list_all (\<lambda>a. before a m) sent)"

definition started :: "spawned list \<times> Reader \<Rightarrow> reader_sys \<Rightarrow> reader_sys" where
  "started sr s =
     s\<lparr>ry_reader := snd sr, ry_spawned := ry_spawned s @ fst sr,
       ry_starts := ry_starts s + (if rd_version (snd sr) = rd_version (ry_reader s) then 0 else 1)\<rparr>"

inductive sys_step :: "reader_sys \<Rightarrow> reader_sys \<Rightarrow> bool" where
  send: "sp \<in> set (ry_spawned s) \<Longrightarrow> sendable sp (ry_sent s) m \<Longrightarrow>
    sys_step s (s\<lparr>ry_sent := ry_sent s @ [m], ry_queue := ry_queue s @ [m]\<rparr>)"
| set_offset: "sys_step s (started (snd (SetOffset offset (ry_reader s))) s)"
| subscribe: "useConsumerGroup (ry_reader s) \<Longrightarrow> sys_step s (started (Reader_start offsets (ry_reader s)) s)"
| close: "sys_step s (s\<lparr>ry_reader := snd (Reader_Close (ry_reader s))\<rparr>)"
| fetch: "ry_waiting s = None \<Longrightarrow>
    fetchBegin (snd (activateReadLag (ry_reader s))) = (sps, r) \<Longrightarrow>
    sys_step s ((started (sps, r) s)\<lparr>ry_waiting := Some (rd_version r)\<rparr>)"
| receive: "ry_waiting s = Some version \<Longrightarrow> ry_queue s = m # ms \<Longrightarrow> fetchReceive version m (ry_reader s) = (Some res, r) \<Longrightarrow>
    sys_step s (s\<lparr>ry_reader := r, ry_queue := ms, ry_waiting := None, ry_returned := ry_returned s @ [(version, m)]\<rparr>)"
| drop_old: "ry_waiting s = Some version \<Longrightarrow> ry_queue s = m # ms \<Longrightarrow> fetchReceive version m (ry_reader s) = (None, r) \<Longrightarrow>
    sys_step s (s\<lparr>ry_reader := r, ry_queue := ms, ry_waiting := None\<rparr>)"
| cancel: "sys_step s (s\<lparr>ry_waiting := None\<rparr>)"

inductive reachableFrom :: "Reader \<Rightarrow> reader_sys \<Rightarrow> bool" for r where
  initial: "reachableFrom r (sysOf r)"
| step: "reachableFrom r s \<Longrightarrow> sys_step s t \<Longrightarrow> reachableFrom r t"

inductive_cases sys_stepE: "sys_step s t"

subsection \<open>The invariant\<close>

text \<open>Where a message comes from: a started reader of its version and partition, at or after an absolute start offset.\<close>

definition origin :: "spawned list \<Rightarrow> readerMessage \<Rightarrow> bool" where
  "origin sps m \<longleftrightarrow> (\<exists>sp\<in>set sps. rm_version m = sp_version sp \<and>
     (rm_error m = None \<longrightarrow> msg_Partition (rm_message m) = sp_partition sp \<and>
        (0 \<le> sint (sp_offset sp) \<longrightarrow> sint (sp_offset sp) \<le> sint (msg_Offset (rm_message m)))))"

text \<open>
  The versions count the starts, no started reader and no waiting fetch is ahead of them, every message in the channel or
  returned was sent and has an origin, and the returned ones are in order among themselves and before those in the channel.
\<close>

definition versionsOk :: "reader_sys \<Rightarrow> bool" where
  "versionsOk s \<longleftrightarrow>
     int (ry_starts s) = sint (rd_version (ry_reader s)) - (if useConsumerGroup (ry_reader s) then 1 else 0) \<and>
     (\<forall>sp\<in>set (ry_spawned s). sint (sp_version sp) \<le> sint (rd_version (ry_reader s))) \<and>
     (\<forall>v. ry_waiting s = Some v \<longrightarrow> sint v \<le> sint (rd_version (ry_reader s)) \<and>
        (\<forall>(w, m)\<in>set (ry_returned s). sint (rm_version m) \<le> sint v))"

definition messagesOk :: "reader_sys \<Rightarrow> bool" where
  "messagesOk s \<longleftrightarrow>
     set (map snd (ry_returned s) @ ry_queue s) \<subseteq> set (ry_sent s) \<and>
     list_all (origin (ry_spawned s)) (map snd (ry_returned s) @ ry_queue s) \<and>
     sorted_wrt before (map snd (ry_returned s) @ ry_queue s)"

definition returnedOk :: "reader_sys \<Rightarrow> bool" where
  "returnedOk s \<longleftrightarrow>
     sorted_wrt (\<lambda>a b. sint (rm_version (snd a)) \<le> sint (rm_version (snd b))) (ry_returned s) \<and>
     list_all (\<lambda>(v, m). sint v \<le> sint (rm_version m)) (ry_returned s)"

lemmas sysInv_defs = versionsOk_def messagesOk_def returnedOk_def

definition sysInv :: "reader_sys \<Rightarrow> bool" where
  "sysInv s \<longleftrightarrow> versionsOk s \<and> messagesOk s \<and> returnedOk s"

text \<open>What the operations that may start readers do to the reader.\<close>

definition starting :: "Reader \<Rightarrow> spawned list \<times> Reader \<Rightarrow> bool" where
  "starting r sr \<longleftrightarrow> rd_config (snd sr) = rd_config r \<and>
     (fst sr = [] \<and> rd_version (snd sr) = rd_version r \<or>
      rd_version (snd sr) = rd_version r + 1 \<and> (\<forall>sp\<in>set (fst sr). sp_version sp = rd_version (snd sr)))"

lemma starting_ops:
  "starting r (Reader_start offsets r)"
  "starting r (snd (SetOffset offset r))"
  "starting r (fetchBegin (snd (activateReadLag r)))"
proof -
  show start: "starting r (Reader_start offsets r)" for r offsets
    by (auto simp: starting_def Reader_start_def Let_def)
  have lag: "rd_config (snd (activateReadLag r)) = rd_config r \<and> rd_version (snd (activateReadLag r)) = rd_version r" for r
    by (simp add: activateReadLag_def)
  show "starting r (snd (SetOffset offset r))"
    using start [of "r\<lparr>rd_offset := offset\<rparr>" "[(rc_Partition (rd_config r), offset)]"] lag
    by (auto simp: SetOffset_def starting_def Let_def case_prod_beta)
  show "starting r (fetchBegin (snd (activateReadLag r)))"
    using start [of "snd (activateReadLag r)" "[(rc_Partition (rd_config (snd (activateReadLag r))), rd_offset (snd (activateReadLag r)))]"] lag [of r]
    by (auto simp: fetchBegin_def starting_def)
qed

lemma sint_version_Suc:
  assumes "sint (v :: int64) = k" "k < 2 ^ 63 - 1"
  shows "sint (v + 1) = k + 1"
proof -
  have "sint (word_of_int (sint v + 1) :: int64) = sint v + 1"
    using assms sint_range_64 [of v] by (intro sint_word_of_int_64) auto
  then have "sint (v + 1) = sint v + 1" by simp
  with assms(1) show ?thesis by simp
qed

lemma origin_mono: "origin sps m \<Longrightarrow> origin (sps @ sps') m"
  by (auto simp: origin_def)

lemma started_inv:
  assumes inv: "sysInv s" and st: "starting (ry_reader s) sr" and few: "int (ry_starts s) < 2 ^ 63 - 2"
  shows "sysInv (started sr s)"
proof -
  have group: "useConsumerGroup (snd sr) = useConsumerGroup (ry_reader s)"
    using st by (simp add: starting_def useConsumerGroup_def)
  have v: "int (ry_starts s) = sint (rd_version (ry_reader s)) - (if useConsumerGroup (ry_reader s) then 1 else 0)"
    using inv by (simp add: sysInv_def versionsOk_def)
  then have next_version: "sint (rd_version (ry_reader s) + 1) = sint (rd_version (ry_reader s)) + 1"
    using few by (intro sint_version_Suc) (auto split: if_splits)
  then have ne: "rd_version (ry_reader s) + 1 \<noteq> rd_version (ry_reader s)" by auto
  have m: "messagesOk (started sr s)" "returnedOk (started sr s)"
    using inv origin_mono by (auto simp: sysInv_def messagesOk_def returnedOk_def started_def list_all_iff)
  show ?thesis
  proof (cases "rd_version (snd sr) = rd_version (ry_reader s)")
    case True
    then have "fst sr = []" using st ne by (auto simp: starting_def)
    with True m inv group v show ?thesis by (simp add: sysInv_def versionsOk_def started_def)
  next
    case False
    then have n: "rd_version (snd sr) = rd_version (ry_reader s) + 1" "\<forall>sp\<in>set (fst sr). sp_version sp = rd_version (snd sr)"
      using st by (auto simp: starting_def)
    have old: "\<forall>sp\<in>set (ry_spawned s). sint (sp_version sp) \<le> sint (rd_version (ry_reader s)) + 1"
      "\<forall>w. ry_waiting s = Some w \<longrightarrow> sint w \<le> sint (rd_version (ry_reader s)) + 1 \<and> (\<forall>(u, m)\<in>set (ry_returned s). sint (rm_version m) \<le> sint w)"
      using inv by (auto simp: sysInv_def versionsOk_def)
    have "versionsOk (started sr s)"
      using n old v group next_version ne by (auto simp: versionsOk_def started_def)
    with m show ?thesis by (simp add: sysInv_def)
  qed
qed

text \<open>One lemma for each of the other steps.\<close>

lemma send_inv:
  assumes inv: "sysInv s" and sp: "sp \<in> set (ry_spawned s)" "sendable sp (ry_sent s) m"
  shows "sysInv (s\<lparr>ry_sent := ry_sent s @ [m], ry_queue := ry_queue s @ [m]\<rparr>)"
proof -
  have "origin (ry_spawned s) m" using sp by (auto simp: origin_def sendable_def)
  moreover have "before a m" if "a \<in> set (ry_sent s)" for a
    using sp(2) that by (auto simp: sendable_def list_all_iff before_def)
  ultimately have "messagesOk (s\<lparr>ry_sent := ry_sent s @ [m], ry_queue := ry_queue s @ [m]\<rparr>)"
    using inv by (auto simp: sysInv_def messagesOk_def sorted_wrt_append)
  with inv show ?thesis by (simp add: sysInv_def versionsOk_def returnedOk_def)
qed

lemma fetchReceive_reader:
  "fetchReceive version m r = (res, r') \<Longrightarrow> rd_version r' = rd_version r \<and> rd_config r' = rd_config r"
  by (auto simp: fetchReceive_def Let_def split: if_splits)

lemma origin_version:
  assumes "versionsOk s" "origin (ry_spawned s) m"
  shows "sint (rm_version m) \<le> sint (rd_version (ry_reader s))"
  using assms by (auto simp: versionsOk_def origin_def)

lemma receive_inv:
  assumes inv: "sysInv s" and w: "ry_waiting s = Some version" and q: "ry_queue s = m # ms" and rc: "fetchReceive version m (ry_reader s) = (res, r)"
  shows "sysInv (s\<lparr>ry_reader := r, ry_queue := ms, ry_waiting := None\<rparr>)"
    and "res = Some x \<Longrightarrow> sysInv (s\<lparr>ry_reader := r, ry_queue := ms, ry_waiting := None, ry_returned := ry_returned s @ [(version, m)]\<rparr>)"
proof -
  note r = fetchReceive_reader [OF rc]
  have versions: "versionsOk (s\<lparr>ry_reader := r, ry_queue := ms, ry_waiting := None, ry_returned := ret\<rparr>)" for ret
    using inv r by (simp add: sysInv_def versionsOk_def useConsumerGroup_def)
  show "sysInv (s\<lparr>ry_reader := r, ry_queue := ms, ry_waiting := None\<rparr>)"
    using inv versions [of "ry_returned s"] q by (auto simp: sysInv_def messagesOk_def returnedOk_def sorted_wrt_append)
  assume "res = Some x"
  then have "sint version \<le> sint (rm_version m)" using rc by (auto simp: fetchReceive_def split: if_splits)
  moreover have "sint (rm_version (snd a)) \<le> sint version" if "a \<in> set (ry_returned s)" for a
    using inv w that by (force simp: sysInv_def versionsOk_def)
  ultimately have "returnedOk (s\<lparr>ry_reader := r, ry_queue := ms, ry_waiting := None, ry_returned := ry_returned s @ [(version, m)]\<rparr>)"
    using inv by (force simp: sysInv_def returnedOk_def sorted_wrt_append)
  then show "sysInv (s\<lparr>ry_reader := r, ry_queue := ms, ry_waiting := None, ry_returned := ry_returned s @ [(version, m)]\<rparr>)"
    using inv versions q by (simp add: sysInv_def messagesOk_def)
qed

lemma wait_inv:
  assumes "sysInv s"
  shows "sysInv (s\<lparr>ry_waiting := Some (rd_version (ry_reader s))\<rparr>)"
proof -
  have "sint (rm_version (snd a)) \<le> sint (rd_version (ry_reader s))" if "a \<in> set (ry_returned s)" for a
    using assms that by (intro origin_version) (auto simp: sysInv_def messagesOk_def list_all_iff)
  then show ?thesis using assms by (force simp: sysInv_def versionsOk_def messagesOk_def returnedOk_def)
qed

lemma sys_step_inv:
  assumes "sys_step s t" "sysInv s" "int (ry_starts t) < 2 ^ 63 - 2"
  shows "sysInv t"
  using assms(1)
proof cases
  case (set_offset offset)
  show ?thesis unfolding set_offset
    using assms(3) set_offset by (intro started_inv [OF assms(2) starting_ops(2)]) (simp add: started_def)
next
  case (subscribe offsets)
  show ?thesis unfolding subscribe(1)
    using assms(3) subscribe by (intro started_inv [OF assms(2) starting_ops(1)]) (simp add: started_def)
next
  case (fetch sps r)
  have "sysInv (started (sps, r) s)"
    using assms(3) fetch starting_ops(3) [of "ry_reader s"] by (intro started_inv [OF assms(2)]) (simp_all add: started_def)
  then show ?thesis unfolding fetch(1) using wait_inv [of "started (sps, r) s"] by (simp add: started_def)
next
  case (send sp m)
  show ?thesis unfolding send(1) by (rule send_inv [OF assms(2) send(2,3)])
next
  case close
  then show ?thesis using assms(2) by (simp add: Reader_Close_def sysInv_def sysInv_defs useConsumerGroup_def)
next
  case (receive version m ms res r)
  show ?thesis unfolding receive(1) by (rule receive_inv(2) [OF assms(2) receive(2-4) refl])
next
  case (drop_old version m ms r)
  show ?thesis unfolding drop_old(1) by (rule receive_inv(1) [OF assms(2) drop_old(2-4)])
next
  case cancel
  then show ?thesis using assms(2) by (simp add: sysInv_def sysInv_defs)
qed

lemma sys_step_starts: "sys_step s t \<Longrightarrow> ry_starts s \<le> ry_starts t"
  by (auto elim!: sys_stepE simp: started_def)

lemma reachableFrom_inv:
  assumes "reachableFrom r s" "int (ry_starts s) < 2 ^ 63 - 2" "rd_version r = (if useConsumerGroup r then 1 else 0)"
  shows "sysInv s"
  using assms
proof (induction rule: reachableFrom.induct)
  case initial
  then show ?case by (simp add: sysOf_def sysInv_def sysInv_defs)
next
  case (step s t)
  then show ?case using sys_step_inv sys_step_starts [OF step(2)] by simp
qed

subsection \<open>Properties\<close>

lemma NewReader_fields:
  assumes "NewReader config = Ok r"
  shows "rd_version r = (if useConsumerGroup r then 1 else 0)" "\<not> rd_closed r" "rd_config r = completeReaderConfig config" "rd_offset r = FirstOffset"
  using assms by (auto simp: NewReader_def useConsumerGroup_def Let_def split: option.splits if_splits)


definition exampleFetchConfig :: ReaderConfig where
  "exampleFetchConfig =
     \<lparr>rc_Brokers = [[98]], rc_GroupID = [], rc_Topic = [116], rc_Partition = 0, rc_QueueCapacity = 0, rc_MinBytes = 0,
      rc_MaxBytes = 0, rc_MaxWait = 0, rc_ReadLagInterval = 0, rc_GroupBalancers = [], rc_HeartbeatInterval = 0, rc_CommitInterval = 0,
      rc_PartitionWatchInterval = 0, rc_WatchPartitionChanges = False, rc_SessionTimeout = 0, rc_RebalanceTimeout = 0, rc_RetentionTime = 0,
      rc_AutoOffsetReset = FirstOffset\<rparr>"

lemma exampleFetch_NewReader: "\<exists>r. NewReader exampleFetchConfig = Ok r"
  by (simp add: NewReader_def checkReaderConfig_def exampleFetchConfig_def completeReaderConfig_def Let_def)

definition queuedMessage :: "int64 \<Rightarrow> int64 \<Rightarrow> readerMessage" where
  "queuedMessage version offset = \<lparr>rm_version = version, rm_message = zeroMessage\<lparr>msg_Offset := offset\<rparr>, rm_watermark = 9, rm_error = None\<rparr>"

text \<open>A fetch starts the partition reader, its first message is queued, and the fetch returns it.\<close>

lemma example_fetched:
  assumes "NewReader exampleFetchConfig = Ok r"
  shows "\<exists>s. reachableFrom r s \<and> ry_starts s = 1 \<and> ry_returned s = [(1, queuedMessage 1 7)]"
proof -
  have g: "\<not> useConsumerGroup r" using NewReader_fields(3) [OF assms] by (simp add: useConsumerGroup_def complete_fields exampleFetchConfig_def)
  let ?r = "snd (activateReadLag r)"
  have v: "rd_version ?r = 0" "\<not> rd_closed ?r" "rd_version r = 0"
    using NewReader_fields [OF assms] g by (simp_all add: activateReadLag_def)
  have p: "rc_Partition (rd_config ?r) = 0"
    using NewReader_fields(3) [OF assms] by (simp add: activateReadLag_def complete_fields exampleFetchConfig_def)
  let ?sp = "\<lparr>sp_partition = 0, sp_offset = rd_offset ?r, sp_version = 1\<rparr>"
  let ?r1 = "?r\<lparr>rd_version := 1\<rparr>"
  have b: "fetchBegin ?r = ([?sp], ?r1)" using v p by (simp add: fetchBegin_def Reader_start_def Let_def)
  let ?s1 = "(started ([?sp], ?r1) (sysOf r))\<lparr>ry_waiting := Some (rd_version ?r1)\<rparr>"
  let ?m = "queuedMessage 1 7"
  have "reachableFrom r ?s1"
    by (intro reachableFrom.step [OF reachableFrom.initial] sys_step.fetch) (simp_all add: sysOf_def b)
  moreover have "sys_step ?s1 (?s1\<lparr>ry_sent := ry_sent ?s1 @ [?m], ry_queue := ry_queue ?s1 @ [?m]\<rparr>)"
    by (rule sys_step.send [of ?sp]) (simp_all add: started_def sysOf_def sendable_def queuedMessage_def zeroMessage_def activateReadLag_def NewReader_fields(4) [OF assms])
  ultimately have 2: "reachableFrom r (?s1\<lparr>ry_sent := ry_sent ?s1 @ [?m], ry_queue := ry_queue ?s1 @ [?m]\<rparr>)"
    by (rule reachableFrom.step)
  obtain r2 where "fetchReceive 1 ?m ?r1 = (Some (Ok (rm_message ?m)), r2)"
    by (simp add: fetchReceive_def queuedMessage_def)
  with reachableFrom.step [OF 2 sys_step.receive] show ?thesis
    using v by (fastforce simp: started_def sysOf_def)
qed


end
