(* ===== verification/Dialer.thy ===== *)
theory Dialer
  imports Conn
begin

section \<open>Dialing brokers (dialer.go, sasl/plain/plain.go)\<close>

text \<open>
  How connections are opened: the address is resolved, the network connection is wrapped and, when a mechanism is configured,
  authenticated; the leader of a partition is looked up first when the connection is to it. The network, the resolver and the SASL
  mechanism of a dialer are arguments. A mechanism keeps the state of its conversation: it answers the list of the challenges so
  far. That the context ends first is an argument of the calls that watch it.

  The lemmas say which address is dialled, which partition a lookup returns, and that a connection is only handed
  out after a complete authentication.
\<close>

subsection \<open>Addresses\<close>

text \<open>The two functions of the package \<open>net\<close>; an error of \<open>SplitHostPort\<close> is \<open>None\<close>.\<close>

definition SplitHostPort :: "gostring \<Rightarrow> (gostring \<times> gostring) option" where
  "SplitHostPort s =
     (if 58 \<notin> set s then None
      else
        let port = rev (takeWhile (\<lambda>b. b \<noteq> 58) (rev s));
            i = length s - length port - 1;
            close = length (takeWhile (\<lambda>b. b \<noteq> 93) s)
        in if hd s = 91 then
             if 93 \<notin> set s \<or> close + 1 \<noteq> i \<or> 91 \<in> set (drop 1 s) \<or> 93 \<in> set (drop (close + 1) s) then None
             else Some (drop 1 (take close s), port)
           else if 58 \<in> set (take i s) \<or> 91 \<in> set s \<or> 93 \<in> set s then None
           else Some (take i s, port))"

definition JoinHostPort :: "gostring \<Rightarrow> gostring \<Rightarrow> gostring" where
  "JoinHostPort host port = (if 58 \<in> set host then [91] @ host @ [93, 58] @ port else host @ [58] @ port)"

definition splitHostPort :: "gostring \<Rightarrow> gostring \<times> gostring" where
  "splitHostPort s =
     (let (host, port) = (case SplitHostPort s of None \<Rightarrow> ([], []) | Some hp \<Rightarrow> hp)
      in (if host = [] \<and> port = [] then s else host, port))"

subsection \<open>Authentication\<close>

record sasl_mechanism =
  sm_Start :: "go_error + gostring \<times> bytes"
  sm_Next :: "bytes list \<Rightarrow> go_error + bool \<times> bytes"

text \<open>The mechanism PLAIN.\<close>

definition plain_Mechanism :: "gostring \<Rightarrow> gostring \<Rightarrow> sasl_mechanism" where
  "plain_Mechanism username password =
     \<lparr>sm_Start = Inr (lit ''PLAIN'', Some ([0] @ username @ [0] @ password)), sm_Next = (\<lambda>_. Inr (True, None))\<rparr>"

partial_function (option) saslLoop :: "sasl_mechanism \<Rightarrow> bytes list \<Rightarrow> bytes \<Rightarrow> Conn \<Rightarrow> ((go_error, unit) result \<times> Conn) option" where
  "saslLoop m challenges state c =
     (case Conn_saslAuthenticate state c of
        None \<Rightarrow> None
      | Some (Panic p, c) \<Rightarrow> Some (Panic p, c)
      | Some (Err e, c) \<Rightarrow> Some (Err (if e = EOF then KafkaError SASLAuthenticationFailed else e), c)
      | Some (Ok challenge, c) \<Rightarrow>
          (case sm_Next m (challenges @ [challenge]) of
             Inl e \<Rightarrow> Some (Err e, c)
           | Inr (completed, state) \<Rightarrow>
               if completed then Some (Ok (), c) else saslLoop m (challenges @ [challenge]) state c))"

definition authenticateSASL :: "sasl_mechanism \<Rightarrow> unit conn_op" where
  "authenticateSASL m c =
     (case sm_Start m of
        Inl e \<Rightarrow> Some (Err e, c)
      | Inr (mech, state) \<Rightarrow>
          (case Conn_saslHandshake mech c of
             None \<Rightarrow> None
           | Some (Panic p, c) \<Rightarrow> Some (Panic p, c)
           | Some (Err e, c) \<Rightarrow> Some (Err e, c)
           | Some (Ok _, c) \<Rightarrow> saslLoop m [] state c))"

subsection \<open>Connecting\<close>

record Dialer =
  dr_ClientID :: gostring
  dr_Resolver :: "(gostring \<Rightarrow> go_error + gostring list) option"
  dr_TLS :: "gostring option"
  dr_SASLMechanism :: "sasl_mechanism option"

text \<open>What the network gives for an address: a connection and what can be read from it. A TLS configuration is its \<open>ServerName\<close>;
  \<open>de_tls\<close> wraps a connection to a server of that name, and fails when the handshake does. \<open>DefaultClientID\<close> is the name of
  the process.\<close>

record dial_env =
  de_dial :: "gostring \<Rightarrow> go_error + network \<times> bufio_reader"
  de_tls :: "gostring \<Rightarrow> network \<times> bufio_reader \<Rightarrow> go_error + network \<times> bufio_reader"
  de_DefaultClientID :: gostring

definition resolveAddress :: "Dialer \<Rightarrow> gostring \<Rightarrow> go_error + gostring" where
  "resolveAddress d address =
     (case dr_Resolver d of
        None \<Rightarrow> Inr address
      | Some LookupHost \<Rightarrow>
          (let (host, port) = splitHostPort address in
           case LookupHost host of
             Inl e \<Rightarrow> Inl e
           | Inr addrs \<Rightarrow>
               let address = (if addrs \<noteq> [] then hd addrs else address)
               in Inr (if port \<noteq> [] then JoinHostPort (fst (splitHostPort address)) port else address)))"

definition tlsServerName :: "gostring \<Rightarrow> gostring \<Rightarrow> gostring" where
  "tlsServerName ServerName address =
     (if ServerName \<noteq> [] then ServerName
      else if 58 \<in> set address then rev (drop 1 (dropWhile (\<lambda>b. b \<noteq> 58) (rev address)))
      else address)"

definition Dialer_dialContext :: "Dialer \<Rightarrow> dial_env \<Rightarrow> gostring \<Rightarrow> go_error + network \<times> bufio_reader" where
  "Dialer_dialContext d env address =
     (case resolveAddress d address of
        Inl e \<Rightarrow> Inl e
      | Inr address \<Rightarrow>
          (case de_dial env address of
             Inl e \<Rightarrow> Inl e
           | Inr conn \<Rightarrow> (case dr_TLS d of None \<Rightarrow> Inr conn | Some ServerName \<Rightarrow> de_tls env (tlsServerName ServerName address) conn)))"

text \<open>A connection that cannot be authenticated is closed and not returned.\<close>

definition Dialer_connect :: "Dialer \<Rightarrow> dial_env \<Rightarrow> gostring \<Rightarrow> ConnConfig \<Rightarrow> (go_error, Conn) result option" where
  "Dialer_connect d env address connCfg =
     (case Dialer_dialContext d env address of
        Inl e \<Rightarrow> Some (Err e)
      | Inr (net, rbuf) \<Rightarrow>
          (case NewConnWith (de_DefaultClientID env) net rbuf connCfg of
             None \<Rightarrow> None
           | Some (Panic p, _) \<Rightarrow> Some (Panic p)
           | Some (Err e, _) \<Rightarrow> Some (Err e)
           | Some (Ok _, c) \<Rightarrow>
               (case dr_SASLMechanism d of
                  None \<Rightarrow> Some (Ok c)
                | Some m \<Rightarrow>
                    (case authenticateSASL m c of
                       None \<Rightarrow> None
                     | Some (Panic p, _) \<Rightarrow> Some (Panic p)
                     | Some (Err e, _) \<Rightarrow> Some (Err e)
                     | Some (Ok _, c) \<Rightarrow> Some (Ok c)))))"

definition DialContext :: "Dialer \<Rightarrow> dial_env \<Rightarrow> gostring \<Rightarrow> (go_error, Conn) result option" where
  "DialContext d env address = Dialer_connect d env address \<lparr>cc_ClientID = dr_ClientID d, cc_Topic = [], cc_Partition = 0\<rparr>"

definition DialPartition :: "Dialer \<Rightarrow> dial_env \<Rightarrow> Partition \<Rightarrow> (go_error, Conn) result option" where
  "DialPartition d env p =
     Dialer_connect d env (JoinHostPort (br_Host (pt_Leader p)) (itoa (br_Port (pt_Leader p))))
       \<lparr>cc_ClientID = dr_ClientID d, cc_Topic = pt_Topic p, cc_Partition = pt_ID p\<rparr>"

subsection \<open>Looking up partitions\<close>

text \<open>
  The goroutine of \<open>LookupPartition\<close>: \<open>sleeps d\<close> is the error of the context when it ends before a sleep of length \<open>d\<close> does. It
  goes on for as long as the listing succeeds without the partition or fails with a temporary error.
\<close>

partial_function (option) lookupLoop ::
  "gostring \<Rightarrow> int \<Rightarrow> (duration \<Rightarrow> go_error option) \<Rightarrow> int64 \<Rightarrow> Conn \<Rightarrow> (go_error, Partition) result option" where
  "lookupLoop topic part sleeps attempt c =
     (case (if attempt = 0 then None else sleeps (backoff attempt (100 * Millisecond) (10 * Second))) of
        Some e \<Rightarrow> Some (Err e)
      | None \<Rightarrow>
          (case Conn_ReadPartitions [topic] c of
             None \<Rightarrow> None
           | Some (Panic p, _) \<Rightarrow> Some (Panic p)
           | Some (Err e, c) \<Rightarrow> if isTemporary e then lookupLoop topic part sleeps (attempt + 1) c else Some (Err e)
           | Some (Ok partitions, c) \<Rightarrow>
               (case find (\<lambda>p. pt_ID p = part) partitions of
                  Some p \<Rightarrow> Some (Ok p)
                | None \<Rightarrow> lookupLoop topic part sleeps (attempt + 1) c)))"

definition LookupPartition ::
  "Dialer \<Rightarrow> dial_env \<Rightarrow> (duration \<Rightarrow> go_error option) \<Rightarrow> go_error option \<Rightarrow> gostring \<Rightarrow> gostring \<Rightarrow> int \<Rightarrow> (go_error, Partition) result option" where
  "LookupPartition d env sleeps cancelled address topic part =
     (case DialContext d env address of
        None \<Rightarrow> None
      | Some (Panic p) \<Rightarrow> Some (Panic p)
      | Some (Err e) \<Rightarrow> Some (Err e)
      | Some (Ok c) \<Rightarrow> (case cancelled of Some e \<Rightarrow> Some (Err e) | None \<Rightarrow> lookupLoop topic part sleeps 0 c))"

definition LookupLeader ::
  "Dialer \<Rightarrow> dial_env \<Rightarrow> (duration \<Rightarrow> go_error option) \<Rightarrow> go_error option \<Rightarrow> gostring \<Rightarrow> gostring \<Rightarrow> int \<Rightarrow> (go_error, Broker) result option" where
  "LookupLeader d env sleeps cancelled address topic part =
     map_option (\<lambda>res. case res of Ok p \<Rightarrow> Ok (pt_Leader p) | Err e \<Rightarrow> Err e | Panic p \<Rightarrow> Panic p)
       (LookupPartition d env sleeps cancelled address topic part)"

definition LookupPartitions ::
  "Dialer \<Rightarrow> dial_env \<Rightarrow> go_error option \<Rightarrow> gostring \<Rightarrow> gostring \<Rightarrow> (go_error, Partition list) result option" where
  "LookupPartitions d env cancelled address topic =
     (case DialContext d env address of
        None \<Rightarrow> None
      | Some (Panic p) \<Rightarrow> Some (Panic p)
      | Some (Err e) \<Rightarrow> Some (Err e)
      | Some (Ok c) \<Rightarrow> (case cancelled of Some e \<Rightarrow> Some (Err e) | None \<Rightarrow> map_option fst (Conn_ReadPartitions [topic] c)))"

definition DialLeader ::
  "Dialer \<Rightarrow> dial_env \<Rightarrow> (duration \<Rightarrow> go_error option) \<Rightarrow> go_error option \<Rightarrow> gostring \<Rightarrow> gostring \<Rightarrow> int \<Rightarrow> (go_error, Conn) result option" where
  "DialLeader d env sleeps cancelled address topic part =
     (case LookupPartition d env sleeps cancelled address topic part of
        None \<Rightarrow> None
      | Some (Panic p) \<Rightarrow> Some (Panic p)
      | Some (Err e) \<Rightarrow> Some (Err e)
      | Some (Ok p) \<Rightarrow> DialPartition d env p)"

subsection \<open>Addresses that are dialled\<close>

lemma JoinHostPort_colon: "58 \<in> set (JoinHostPort host port)"
  by (simp add: JoinHostPort_def)

lemma takeWhile_colon:
  assumes "58 \<notin> set (port :: gostring)"
  shows "rev (takeWhile (\<lambda>b. b \<noteq> 58) (rev (pre @ 58 # port))) = port"
proof -
  have "takeWhile (\<lambda>b. b \<noteq> 58) (rev port @ 58 # rev pre) = rev port"
    using assms by (subst takeWhile_append2) auto
  then show ?thesis by simp
qed

text \<open>An address without brackets in it can be taken apart again, also when the host is an IPv6 address.\<close>

lemma SplitHostPort_JoinHostPort:
  assumes "91 \<notin> set host" "93 \<notin> set host" "58 \<notin> set port" "91 \<notin> set port" "93 \<notin> set port"
  shows "SplitHostPort (JoinHostPort host port) = Some (host, port)"
proof (cases "58 \<in> set host")
  case True
  have bracketed: "takeWhile (\<lambda>b. b \<noteq> 93) ((91 # host) @ 93 # 58 # port) = 91 # host"
    using assms by (subst takeWhile_append2) auto
  show ?thesis
    using assms True bracketed takeWhile_colon [OF assms(3), of "91 # host @ [93]"]
    by (simp add: SplitHostPort_def JoinHostPort_def Let_def)
next
  case False
  then show ?thesis
    using assms takeWhile_colon [OF assms(3), of host]
    by (cases host) (auto simp: SplitHostPort_def JoinHostPort_def Let_def)
qed

lemma splitHostPort_JoinHostPort:
  assumes "91 \<notin> set host" "93 \<notin> set host" "58 \<notin> set port" "91 \<notin> set port" "93 \<notin> set port" "port \<noteq> []"
  shows "splitHostPort (JoinHostPort host port) = (host, port)"
  using assms by (simp add: splitHostPort_def SplitHostPort_JoinHostPort)

lemma splitHostPort_plain: "58 \<notin> set s \<Longrightarrow> splitHostPort s = (s, [])"
  by (simp add: splitHostPort_def SplitHostPort_def)

text \<open>A resolver replaces the host and the port stays.\<close>

lemma resolveAddress_port:
  assumes "dr_Resolver d = Some LookupHost" "LookupHost host = Inr (a # addrs)" "splitHostPort a = (a', p)"
    and "91 \<notin> set host" "93 \<notin> set host" "58 \<notin> set port" "91 \<notin> set port" "93 \<notin> set port" "port \<noteq> []"
  shows "resolveAddress d (JoinHostPort host port) = Inr (JoinHostPort a' port)"
  using assms by (simp add: resolveAddress_def splitHostPort_JoinHostPort)

text \<open>The certificate is checked against the host, not the host and the port.\<close>

lemma tlsServerName_host:
  assumes "58 \<notin> set host" "58 \<notin> set port"
  shows "tlsServerName [] (JoinHostPort host port) = host"
proof -
  have "dropWhile (\<lambda>b. b \<noteq> 58) (rev port @ 58 # rev host) = 58 # rev host"
    using assms by (subst dropWhile_append2) auto
  with assms show ?thesis by (simp add: tlsServerName_def JoinHostPort_def)
qed

subsection \<open>Connections are handed out authenticated\<close>

text \<open>The exchange a mechanism and a broker have when every token is answered and the mechanism completes.\<close>

inductive saslExchange :: "sasl_mechanism \<Rightarrow> bytes list \<Rightarrow> bytes \<Rightarrow> Conn \<Rightarrow> Conn \<Rightarrow> bool" for m where
  exchange_last: "Conn_saslAuthenticate state c = Some (Ok challenge, c') \<Longrightarrow>
    sm_Next m (challenges @ [challenge]) = Inr (True, state') \<Longrightarrow> saslExchange m challenges state c c'"
| exchange_more: "Conn_saslAuthenticate state c = Some (Ok challenge, c') \<Longrightarrow>
    sm_Next m (challenges @ [challenge]) = Inr (False, state') \<Longrightarrow>
    saslExchange m (challenges @ [challenge]) state' c' c'' \<Longrightarrow> saslExchange m challenges state c c''"

lemma saslExchange_saslLoop: "saslExchange m challenges state c c' \<Longrightarrow> saslLoop m challenges state c = Some (Ok (), c')"
  by (induction rule: saslExchange.induct) (simp_all add: saslLoop.simps)

lemma saslLoop_saslExchange:
  assumes "saslLoop m challenges state c = Some r"
  shows "fst r = Ok () \<longrightarrow> saslExchange m challenges state c (snd r)"
proof (induction m challenges state c r rule: saslLoop.raw_induct)
  case 2
  show ?case by (rule assms)
next
  case (1 loop m challenges state c r)
  show ?case
  proof (cases "\<exists>challenge c1 completed state1. Conn_saslAuthenticate state c = Some (Ok challenge, c1) \<and>
      sm_Next m (challenges @ [challenge]) = Inr (completed, state1)")
    case True
    then obtain challenge c1 completed state1 where
      token: "Conn_saslAuthenticate state c = Some (Ok challenge, c1)" "sm_Next m (challenges @ [challenge]) = Inr (completed, state1)"
      by blast
    show ?thesis
    proof (cases completed)
      case True
      with 1(2) token have "r = (Ok (), c1)" by simp
      with token True show ?thesis by (auto intro: exchange_last)
    next
      case False
      with 1(2) token have "loop m (challenges @ [challenge]) state1 c1 = Some r" by simp
      from 1(1) [OF this] token False show ?thesis by (auto intro: exchange_more)
    qed
  next
    case False
    with 1(2) show ?thesis by (auto split: option.splits prod.splits result.splits sum.splits)
  qed
qed

lemma saslLoop_iff: "saslLoop m challenges state c = Some (Ok (), c') \<longleftrightarrow> saslExchange m challenges state c c'"
  using saslLoop_saslExchange [of m challenges state c "(Ok (), c')"] by (auto intro: saslExchange_saslLoop)

lemma authenticateSASL_iff:
  "authenticateSASL m c = Some (Ok (), c') \<longleftrightarrow>
     (\<exists>mech state c1. sm_Start m = Inr (mech, state) \<and> Conn_saslHandshake mech c = Some (Ok (), c1) \<and> saslExchange m [] state c1 c')"
  by (auto simp: authenticateSASL_def saslLoop_iff [symmetric] split: sum.splits option.splits prod.splits result.splits)

text \<open>C11. With a mechanism, a dialer returns a connection exactly when the network connection (over TLS when it is configured) was set
  up, the broker accepted the mechanism, and broker and mechanism went through a complete exchange on that connection, every token
  answered without an error until the mechanism was satisfied. Nothing less gives a connection.\<close>

theorem Dialer_connect_authenticated:
  "Dialer_connect (d\<lparr>dr_SASLMechanism := Some m\<rparr>) env address connCfg = Some (Ok conn) \<longleftrightarrow>
     (\<exists>net rbuf c0 mech state c1.
        Dialer_dialContext d env address = Inr (net, rbuf) \<and>
        NewConnWith (de_DefaultClientID env) net rbuf connCfg = Some (Ok (), c0) \<and>
        sm_Start m = Inr (mech, state) \<and> Conn_saslHandshake mech c0 = Some (Ok (), c1) \<and>
        saslExchange m [] state c1 conn)"
proof -
  have same: "Dialer_dialContext (d\<lparr>dr_SASLMechanism := Some m\<rparr>) env address = Dialer_dialContext d env address"
    by (simp add: resolveAddress_def Dialer_dialContext_def cong: sum.case_cong option.case_cong)
  have "Dialer_connect (d\<lparr>dr_SASLMechanism := Some m\<rparr>) env address connCfg = Some (Ok conn) \<longleftrightarrow>
     (\<exists>net rbuf c0. Dialer_dialContext d env address = Inr (net, rbuf) \<and>
        NewConnWith (de_DefaultClientID env) net rbuf connCfg = Some (Ok (), c0) \<and> authenticateSASL m c0 = Some (Ok (), conn))"
    by (auto simp: Dialer_connect_def same split: sum.splits option.splits prod.splits result.splits)
  then show ?thesis unfolding authenticateSASL_iff by blast
qed

text \<open>With PLAIN the exchange is one token: a zero byte, the user name, a zero byte and the password.\<close>

inductive_cases saslExchangeE: "saslExchange m challenges state c c'"

lemma plain_exchange:
  "saslExchange (plain_Mechanism username password) [] state c c' \<longleftrightarrow> (\<exists>challenge. Conn_saslAuthenticate state c = Some (Ok challenge, c'))"
  by (auto simp: plain_Mechanism_def elim: saslExchangeE intro: exchange_last)

lemma plain_authenticated:
  "authenticateSASL (plain_Mechanism username password) c = Some (Ok (), c') \<longleftrightarrow>
     (\<exists>c1 challenge. Conn_saslHandshake (lit ''PLAIN'') c = Some (Ok (), c1) \<and>
        Conn_saslAuthenticate (Some ([0] @ username @ [0] @ password)) c1 = Some (Ok challenge, c'))"
  unfolding authenticateSASL_iff plain_exchange by (simp add: plain_Mechanism_def)

subsection \<open>The partition that is looked up\<close>

text \<open>A lookup that returns a partition returns the one asked for, and one that fails does not hide a temporary error of the listing.\<close>

definition lookedUp :: "int \<Rightarrow> (duration \<Rightarrow> go_error option) \<Rightarrow> (go_error, Partition) result \<Rightarrow> bool" where
  "lookedUp part sleeps res =
     (case res of Ok p \<Rightarrow> pt_ID p = part | Err e \<Rightarrow> isTemporary e \<longrightarrow> (\<exists>d. sleeps d = Some e) | Panic _ \<Rightarrow> True)"

lemma lookupLoop_partition:
  assumes "lookupLoop topic part sleeps attempt c = Some res"
  shows "lookedUp part sleeps res"
proof (induction topic part sleeps attempt c res rule: lookupLoop.raw_induct)
  case 2
  show ?case by (rule assms)
next
  case (1 loop topic part sleeps attempt c res)
  show ?case
  proof (cases "\<exists>c1. loop topic part sleeps (attempt + 1) c1 = Some res")
    case True
    then show ?thesis using 1(1) by blast
  next
    case False
    with 1(2) show ?thesis
      by (auto simp: lookedUp_def find_Some_iff split: option.splits prod.splits result.splits if_splits)
  qed
qed

lemma DialLeader_leader:
  assumes "DialLeader d env sleeps cancelled address topic part = Some (Ok conn)"
  obtains p where "LookupPartition d env sleeps cancelled address topic part = Some (Ok p)"
    and "pt_ID p = part" and "DialPartition d env p = Some (Ok conn)"
proof -
  obtain p where p: "LookupPartition d env sleeps cancelled address topic part = Some (Ok p)" "DialPartition d env p = Some (Ok conn)"
    using assms by (auto simp: DialLeader_def split: option.splits result.splits)
  from p(1) have "pt_ID p = part"
    by (auto simp: LookupPartition_def lookedUp_def dest!: lookupLoop_partition split: option.splits result.splits)
  with p that show ?thesis by blast
qed

end
