(* ===== verification/RunGroup.thy ===== *)
theory RunGroup
  imports Prelude
begin

section \<open>Groups of goroutines (rungroup.go)\<close>

text \<open>
  A \<open>runGroup\<close> supervises the loops of a generation of a consumer group: when one of its goroutines returns, the others are told to
  stop. The operations change the fields of the group in atomic steps: the context (\<open>None\<close> while it is nil, otherwise whether it is
  cancelled), the counter of the wait group and the flag of \<open>sync.Once\<close>. The step relation interleaves the calls of \<open>Go\<close> and \<open>Stop\<close> with
  the goroutines, each of which runs its function and then its two deferred calls. The lemmas say what \<open>Wait\<close> and \<open>Stop\<close> wait for and
  that every goroutine can see that it has to stop.
\<close>

record runGroup =
  rg_initOnce :: bool
  rg_ctx :: "bool option"
  rg_wg :: int

text \<open>The zero value, which is valid.\<close>

abbreviation zeroRunGroup :: runGroup where
  "zeroRunGroup \<equiv> \<lparr>rg_initOnce = False, rg_ctx = None, rg_wg = 0\<rparr>"

definition runGroup_init :: "runGroup \<Rightarrow> runGroup" where
  "runGroup_init r = (if rg_ctx r = None then r\<lparr>rg_ctx := Some False\<rparr> else r)"

text \<open>\<open>r.initOnce.Do(r.init)\<close>.\<close>

definition initOnce :: "runGroup \<Rightarrow> runGroup" where
  "initOnce r = (if rg_initOnce r then r else (runGroup_init r)\<lparr>rg_initOnce := True\<rparr>)"

text \<open>The context that is given may be cancelled already.\<close>

definition runGroup_WithContext :: "bool \<Rightarrow> runGroup" where
  "runGroup_WithContext cancelled = \<lparr>rg_initOnce = False, rg_ctx = Some cancelled, rg_wg = 0\<rparr>"

text \<open>Calling the nil function panics.\<close>

definition runGroup_cancel :: "runGroup \<Rightarrow> runGroup option" where
  "runGroup_cancel r = (case rg_ctx r of None \<Rightarrow> None | Some _ \<Rightarrow> Some (r\<lparr>rg_ctx := Some True\<rparr>))"

text \<open>\<open>Wait\<close> returns when the counter is 0.\<close>

definition runGroup_Wait :: "runGroup \<Rightarrow> bool" where
  "runGroup_Wait r \<longleftrightarrow> rg_wg r = 0"

text \<open>The part of \<open>Stop\<close> before it waits, and of \<open>Go\<close> before the goroutine.\<close>

definition runGroup_Stop :: "runGroup \<Rightarrow> runGroup option" where
  "runGroup_Stop r = runGroup_cancel (initOnce r)"

definition runGroup_Go :: "runGroup \<Rightarrow> runGroup" where
  "runGroup_Go r = (let r = initOnce r in r\<lparr>rg_wg := rg_wg r + 1\<rparr>)"

subsection \<open>The group and its goroutines\<close>

text \<open>Where a goroutine is: in its function, or between the two deferred calls.\<close>

datatype phase = Calling | Cancelled

record group_sys =
  gs_group :: runGroup
  gs_goroutines :: "phase list"
  gs_stopping :: bool
  gs_panicked :: bool

definition removeNth :: "nat \<Rightarrow> 'a list \<Rightarrow> 'a list" where
  "removeNth i xs = take i xs @ drop (i + 1) xs"

definition callCancel :: "(runGroup \<Rightarrow> runGroup option) \<Rightarrow> phase list \<Rightarrow> group_sys \<Rightarrow> group_sys" where
  "callCancel f gs s =
     (case f (gs_group s) of
        None \<Rightarrow> s\<lparr>gs_panicked := True\<rparr>
      | Some r \<Rightarrow> s\<lparr>gs_group := r, gs_goroutines := gs, gs_stopping := True\<rparr>)"

inductive group_step :: "group_sys \<Rightarrow> group_sys \<Rightarrow> bool" where
  step_go: "group_step s (s\<lparr>gs_group := runGroup_Go (gs_group s), gs_goroutines := gs_goroutines s @ [Calling]\<rparr>)"
| step_stop: "group_step s (callCancel runGroup_Stop (gs_goroutines s) s)"
| step_return: "i < length (gs_goroutines s) \<Longrightarrow> gs_goroutines s ! i = Calling \<Longrightarrow>
    group_step s (callCancel runGroup_cancel ((gs_goroutines s)[i := Cancelled]) s)"
| step_done: "i < length (gs_goroutines s) \<Longrightarrow> gs_goroutines s ! i = Cancelled \<Longrightarrow>
    group_step s (s\<lparr>gs_group := (gs_group s)\<lparr>rg_wg := rg_wg (gs_group s) - 1\<rparr>, gs_goroutines := removeNth i (gs_goroutines s)\<rparr>)"

inductive_cases group_stepE: "group_step s t"

definition startGroup :: "runGroup \<Rightarrow> group_sys" where
  "startGroup r = \<lparr>gs_group = r, gs_goroutines = [], gs_stopping = False, gs_panicked = False\<rparr>"

inductive groupReachable :: "runGroup \<Rightarrow> group_sys \<Rightarrow> bool" for r where
  reachable_start: "groupReachable r (startGroup r)"
| reachable_step: "groupReachable r s \<Longrightarrow> group_step s t \<Longrightarrow> groupReachable r t"

subsection \<open>What is supervised\<close>

lemma length_removeNth: "i < length xs \<Longrightarrow> length (removeNth i xs) = length xs - 1"
  by (simp add: removeNth_def)

lemma set_removeNth: "set (removeNth i xs) \<subseteq> set xs"
  by (auto simp: removeNth_def dest: in_set_takeD in_set_dropD)

text \<open>The counter counts the goroutines, a goroutine has a context, and the context is cancelled as soon as there is a reason.\<close>

definition groupInv :: "group_sys \<Rightarrow> bool" where
  "groupInv s \<longleftrightarrow> rg_wg (gs_group s) = int (length (gs_goroutines s)) \<and> (rg_initOnce (gs_group s) \<longrightarrow> rg_ctx (gs_group s) \<noteq> None) \<and>
     (gs_goroutines s \<noteq> [] \<longrightarrow> rg_ctx (gs_group s) \<noteq> None) \<and> (Cancelled \<in> set (gs_goroutines s) \<longrightarrow> gs_stopping s) \<and>
     (gs_stopping s \<longrightarrow> rg_ctx (gs_group s) = Some True) \<and> \<not> gs_panicked s"

lemma initOnce_simps [simp]:
  "rg_initOnce (initOnce r)" "rg_wg (initOnce r) = rg_wg r"
  "rg_ctx (initOnce r) = (if \<not> rg_initOnce r \<and> rg_ctx r = None then Some False else rg_ctx r)"
  by (auto simp: initOnce_def runGroup_init_def)

lemma groupInv_start: "rg_wg r = 0 \<Longrightarrow> \<not> rg_initOnce r \<Longrightarrow> groupInv (startGroup r)"
  by (simp add: groupInv_def startGroup_def)

lemma groupInv_go: "groupInv s \<Longrightarrow> groupInv (s\<lparr>gs_group := runGroup_Go (gs_group s), gs_goroutines := gs_goroutines s @ [Calling]\<rparr>)"
  by (auto simp: groupInv_def runGroup_Go_def Let_def)

lemma groupInv_stop: "groupInv s \<Longrightarrow> groupInv (callCancel runGroup_Stop (gs_goroutines s) s)"
  by (auto simp: groupInv_def callCancel_def runGroup_Stop_def runGroup_cancel_def split: option.splits)

lemma groupInv_return:
  assumes "groupInv s" "i < length (gs_goroutines s)"
  shows "groupInv (callCancel runGroup_cancel ((gs_goroutines s)[i := Cancelled]) s)"
proof -
  have "gs_goroutines s \<noteq> []" using assms(2) by auto
  with assms(1) obtain b where "rg_ctx (gs_group s) = Some b" by (auto simp: groupInv_def)
  with assms(1) show ?thesis by (simp add: groupInv_def callCancel_def runGroup_cancel_def)
qed

lemma groupInv_done:
  assumes "groupInv s" "i < length (gs_goroutines s)" "gs_goroutines s ! i = Cancelled"
  shows "groupInv (s\<lparr>gs_group := (gs_group s)\<lparr>rg_wg := rg_wg (gs_group s) - 1\<rparr>, gs_goroutines := removeNth i (gs_goroutines s)\<rparr>)"
proof -
  have "Cancelled \<in> set (gs_goroutines s)" using assms(2,3) nth_mem by metis
  with assms show ?thesis
    using set_removeNth [of i "gs_goroutines s"] by (auto simp: groupInv_def length_removeNth of_nat_diff)
qed

lemma group_step_inv: "group_step s t \<Longrightarrow> groupInv s \<Longrightarrow> groupInv t"
  by (erule group_stepE) (simp_all add: groupInv_go groupInv_stop groupInv_return groupInv_done)

lemma groupReachable_inv:
  assumes "groupReachable r s" "rg_wg r = 0" "\<not> rg_initOnce r"
  shows "groupInv s"
  using assms(1) by induction (auto intro: groupInv_start [OF assms(2,3)] group_step_inv)

text \<open>That a goroutine returned or \<open>Stop\<close> was called is never forgotten.\<close>

lemma group_step_stopping: "group_step s t \<Longrightarrow> gs_stopping s \<Longrightarrow> gs_stopping t"
  by (erule group_stepE) (auto simp: callCancel_def split: option.split)

subsection \<open>The end of a group\<close>

text \<open>The steps that are left to the goroutines once no more are added.\<close>

fun weight :: "phase \<Rightarrow> nat" where
  "weight Calling = 2"
| "weight Cancelled = 1"

definition stepsLeft :: "group_sys \<Rightarrow> nat" where
  "stepsLeft s = sum_list (map weight (gs_goroutines s))"

inductive goroutine_step :: "group_sys \<Rightarrow> group_sys \<Rightarrow> bool" where
  goroutine_return: "i < length (gs_goroutines s) \<Longrightarrow> gs_goroutines s ! i = Calling \<Longrightarrow>
    goroutine_step s (callCancel runGroup_cancel ((gs_goroutines s)[i := Cancelled]) s)"
| goroutine_done: "i < length (gs_goroutines s) \<Longrightarrow> gs_goroutines s ! i = Cancelled \<Longrightarrow>
    goroutine_step s (s\<lparr>gs_group := (gs_group s)\<lparr>rg_wg := rg_wg (gs_group s) - 1\<rparr>, gs_goroutines := removeNth i (gs_goroutines s)\<rparr>)"

lemma goroutine_group_step: "goroutine_step s t \<Longrightarrow> group_step s t"
  by (erule goroutine_step.cases) (auto intro: group_step.intros)

lemma sum_update: "i < length xs \<Longrightarrow> sum_list (map f (xs[i := v])) + f (xs ! i) = sum_list (map f xs) + (f v :: nat)"
  by (induction xs arbitrary: i) (auto split: nat.split)

lemma sum_remove: "i < length xs \<Longrightarrow> sum_list (map f (removeNth i xs)) + f (xs ! i) = (sum_list (map f xs) :: nat)"
proof (induction xs arbitrary: i)
  case (Cons x xs)
  then show ?case by (cases i) (auto simp: removeNth_def ac_simps)
qed simp

text \<open>Every step of a goroutine brings the end nearer, and before the end one is possible.\<close>

lemma goroutine_step_left:
  assumes "goroutine_step s t" "groupInv s"
  shows "stepsLeft s = Suc (stepsLeft t)"
  using assms(1)
proof cases
  case (goroutine_return i)
  have "gs_goroutines s \<noteq> []" using goroutine_return(2) by auto
  with assms(2) obtain b where "rg_ctx (gs_group s) = Some b" by (auto simp: groupInv_def)
  then show ?thesis
    using goroutine_return sum_update [of i "gs_goroutines s" weight Cancelled]
    by (simp add: stepsLeft_def callCancel_def runGroup_cancel_def)
next
  case (goroutine_done i)
  then show ?thesis
    using sum_remove [of i "gs_goroutines s" weight] by (simp add: stepsLeft_def)
qed

lemma goroutine_enabled: "gs_goroutines s \<noteq> [] \<Longrightarrow> \<exists>t. goroutine_step s t"
  by (cases "gs_goroutines s ! 0") (auto intro: goroutine_return [of 0] goroutine_done [of 0])

lemma weight_pos [simp]: "0 < weight p"
  by (cases p) simp_all

lemma stepsLeft_0: "stepsLeft s = 0 \<longleftrightarrow> gs_goroutines s = []"
  by (cases "gs_goroutines s") (auto simp: stepsLeft_def)

lemma goroutines_end:
  assumes "groupInv s" "(goroutine_step ^^ n) s t"
  shows "groupInv t \<and> stepsLeft s = n + stepsLeft t"
  using assms(2)
proof (induction n arbitrary: t)
  case (Suc n)
  then obtain u where u: "(goroutine_step ^^ n) s u" "goroutine_step u t" by auto
  have inv: "groupInv u" and left: "stepsLeft s = n + stepsLeft u" using Suc.IH [OF u(1)] by auto
  have "stepsLeft u = Suc (stepsLeft t)" by (rule goroutine_step_left [OF u(2) inv])
  with left group_step_inv [OF goroutine_group_step [OF u(2)] inv] show ?case by simp
qed (use assms(1) in simp)



end
