(* ===== verification/Snappy.thy ===== *)
theory Snappy
  imports MessageReader
begin

section \<open>The snappy codec (snappy/snappy.go)\<close>

text \<open>
  The snappy codec reads plain snappy blocks and the framing of the Java clients (xerial): a header of 16 bytes and then blocks, each
  after its length. The compression of a block is that of another package and an argument (\<open>enc\<close>, \<open>dec\<close>). An expression
  \<open>src[a:b]\<close> of Go may reach beyond the length of a slice up to its capacity, so the bytes of the underlying array behind the
  slice are an argument as well (\<open>tail\<close>). Positions are 32 bit words.
\<close>

definition slice32 :: "byte list \<Rightarrow> byte list \<Rightarrow> uint32 \<Rightarrow> uint32 \<Rightarrow> (go_error, byte list) result" where
  "slice32 src tail a b =
     (if a \<le> b \<and> unat b \<le> length src + length tail then Ok (take (unat b - unat a) (drop (unat a) (src @ tail)))
      else Panic IndexOutOfRange)"

definition xerialHeader :: "byte list" where
  "xerialHeader = [130, 83, 78, 65, 80, 80, 89, 0]"

lemma slice32_4_less:
  assumes "slice32 src tail pos (pos + 4) = Ok b" "slice32 src tail (pos + 4) (pos + 4 + n) = Ok c"
  shows "4294967296 - unat (pos + 4 + n) < 4294967296 - unat pos"
proof -
  have le: "pos \<le> pos + 4" "pos + 4 \<le> pos + 4 + n"
    using assms by (auto simp: slice32_def split: if_splits)
  have "pos \<noteq> pos + 4" by simp
  with le(1) have "pos < pos + 4" by (simp add: order.strict_iff_order)
  then have "pos < pos + 4 + n" using le(2) by (rule order_less_le_trans)
  then show ?thesis using unsigned_less [of pos, where ?'a = nat] by (simp add: word_less_nat_alt)
qed

function decodeLoop ::
  "(byte list \<Rightarrow> (go_error, byte list) result) \<Rightarrow> byte list \<Rightarrow> byte list \<Rightarrow> uint32 \<Rightarrow> byte list \<Rightarrow> (go_error, bytes) result" where
  "decodeLoop dec src tail pos dst =
     (if pos < of_nat (length src) then
        (case slice32 src tail pos (pos + 4) of
           Panic p \<Rightarrow> Panic p
         | Err e \<Rightarrow> Err e
         | Ok b \<Rightarrow>
             (case Uint32 b of
                Panic p \<Rightarrow> Panic p
              | Err e \<Rightarrow> Err e
              | Ok n \<Rightarrow>
                  (case slice32 src tail (pos + 4) (pos + 4 + n) of
                     Panic p \<Rightarrow> Panic p
                   | Err e \<Rightarrow> Err e
                   | Ok block \<Rightarrow>
                       (case dec block of
                          Panic p \<Rightarrow> Panic p
                        | Err e \<Rightarrow> Err e
                        | Ok chunk \<Rightarrow> decodeLoop dec src tail (pos + 4 + n) (dst @ chunk)))))
      else Ok (Some dst))"
  by pat_completeness auto
termination
  by (relation "measure (\<lambda>(dec, src, tail, pos, dst). 2 ^ 32 - unat pos)")
    (simp_all add: slice32_4_less)

declare decodeLoop.simps [simp del]

definition decode :: "(byte list \<Rightarrow> (go_error, byte list) result) \<Rightarrow> byte list \<Rightarrow> byte list \<Rightarrow> (go_error, bytes) result" where
  "decode dec tail src =
     (case slice32 src tail 0 8 of
        Panic p \<Rightarrow> Panic p
      | Err e \<Rightarrow> Err e
      | Ok header \<Rightarrow>
          if header \<noteq> xerialHeader then (case dec src of Ok dst \<Rightarrow> Ok (Some dst) | Err e \<Rightarrow> Err e | Panic p \<Rightarrow> Panic p)
          else decodeLoop dec src tail 16 [])"

definition snappy_CompressionCodec ::
  "(byte list \<Rightarrow> byte list) \<Rightarrow> (byte list \<Rightarrow> (go_error, byte list) result) \<Rightarrow> byte list \<Rightarrow> CompressionCodec" where
  "snappy_CompressionCodec enc dec tail =
     \<lparr>codec_Code = 2, codec_Encode = (\<lambda>src. Ok (Some (enc src))), codec_Decode = decode dec tail\<rparr>"

subsection \<open>The framing is undone\<close>

text \<open>A block as a Java client writes it, and a whole stream: the header, two version numbers, the blocks.\<close>

definition xerialBlock :: "byte list \<Rightarrow> byte list" where
  "xerialBlock b = PutUint32 (of_nat (length b)) @ b"

definition xerialStream :: "byte list \<Rightarrow> byte list list \<Rightarrow> byte list" where
  "xerialStream versions blocks = xerialHeader @ versions @ concat (map xerialBlock blocks)"

lemma slice32_mid:
  assumes "length (pre @ mid @ post) < 2 ^ 32" "a = of_nat (length pre)" "b = of_nat (length pre + length mid)"
  shows "slice32 (pre @ mid @ post) tail a b = Ok mid"
proof -
  have "unat a = length pre" "unat b = length pre + length mid"
    unfolding assms(2,3) using assms(1) by (auto intro!: unat_of_nat_32 simp del: of_nat_add)
  then show ?thesis by (simp add: slice32_def word_le_nat_alt)
qed

lemma decodeLoop_blocks:
  assumes "list_all2 (\<lambda>b c. dec b = Ok c) blocks chunks" "length (pre @ concat (map xerialBlock blocks)) < 2 ^ 32"
  shows "decodeLoop dec (pre @ concat (map xerialBlock blocks)) tail (of_nat (length pre)) dst = Ok (Some (dst @ concat chunks))"
  using assms
proof (induction arbitrary: pre dst rule: list_all2_induct)
  case Nil
  then show ?case by (simp add: decodeLoop.simps)
next
  case (Cons b bs c cs)
  let ?rest = "concat (map xerialBlock bs)"
  let ?len = "PutUint32 (of_nat (length b))"
  let ?src = "pre @ ?len @ b @ ?rest"
  have len: "length ?src < 2 ^ 32" using Cons.prems by (simp add: xerialBlock_def [of b])
  have first: "slice32 ?src tail (of_nat (length pre)) (of_nat (length pre) + 4) = Ok ?len"
    using len by (intro slice32_mid) simp_all
  have second: "slice32 ?src tail (of_nat (length pre) + 4) (of_nat (length pre) + 4 + of_nat (length b)) = Ok b"
    using slice32_mid [of "pre @ ?len" b ?rest "of_nat (length pre) + 4" "of_nat (length pre) + 4 + of_nat (length b)" tail] len by simp
  have size_read: "Uint32 ?len = (Ok (of_nat (length b)) :: (go_error, uint32) result)"
    using Uint32_PutUint32 [of "of_nat (length b)" "[]"] by simp
  have more: "(of_nat (length pre) :: uint32) < of_nat (length ?src)"
    using len by (subst word_less_nat_alt) (simp add: unat_of_nat_32 del: of_nat_add of_nat_numeral)
  have "decodeLoop dec ?src tail (of_nat (length pre)) dst = decodeLoop dec ?src tail (of_nat (length pre) + 4 + of_nat (length b)) (dst @ c)"
    using first second more Cons.hyps(1) size_read by (subst decodeLoop.simps) simp
  also have "\<dots> = Ok (Some ((dst @ c) @ concat cs))"
    using Cons.IH [of "pre @ ?len @ b" "dst @ c"] len by (simp add: ac_simps)
  finally show ?case by (simp add: xerialBlock_def [of b])
qed

text \<open>C29. The codec decodes the framing of the Java clients: a stream of blocks gives the contents of the blocks one after the other, whatever
  lies behind the slice in memory. What the codec itself encodes, a single block without the framing, is decoded as well when the slice
  has room for eight bytes; a shorter one panics.\<close>

theorem snappy_decode:
  assumes "\<And>src. dec (enc src) = Ok src"
  shows "(length versions = 8 \<and> length (xerialStream versions (map enc chunks)) < 2 ^ 32 \<longrightarrow>
      codec_Decode (snappy_CompressionCodec enc dec tail) (xerialStream versions (map enc chunks)) = Ok (Some (concat chunks))) \<and>
    (take 8 (enc src @ tail) \<noteq> xerialHeader \<longrightarrow>
      codec_Decode (snappy_CompressionCodec enc dec tail) (enc src) =
        (if 8 \<le> length (enc src) + length tail then Ok (Some src) else Panic IndexOutOfRange))"
proof (intro conjI impI)
  assume stream: "length versions = 8 \<and> length (xerialStream versions (map enc chunks)) < 2 ^ 32"
  have header: "slice32 (xerialStream versions (map enc chunks)) tail 0 8 = Ok xerialHeader"
    unfolding xerialStream_def using stream
    by (intro slice32_mid [of "[]", simplified]) (simp_all add: xerialStream_def xerialHeader_def)
  have "list_all2 (\<lambda>b c. dec b = Ok c) (map enc chunks) chunks"
    by (simp add: list_all2_conv_all_nth assms)
  then have "decodeLoop dec (xerialStream versions (map enc chunks)) tail 16 [] = Ok (Some (concat chunks))"
    using decodeLoop_blocks [of dec "map enc chunks" chunks "xerialHeader @ versions" tail "[]"] stream
    by (simp add: xerialStream_def xerialHeader_def)
  with header show "codec_Decode (snappy_CompressionCodec enc dec tail) (xerialStream versions (map enc chunks)) = Ok (Some (concat chunks))"
    by (simp add: snappy_CompressionCodec_def decode_def)
next
  assume "take 8 (enc src @ tail) \<noteq> xerialHeader"
  then show "codec_Decode (snappy_CompressionCodec enc dec tail) (enc src) =
        (if 8 \<le> length (enc src) + length tail then Ok (Some src) else Panic IndexOutOfRange)"
    by (simp add: snappy_CompressionCodec_def decode_def slice32_def assms)
qed

theorem snappy_decode_witness:
  "codec_Decode (snappy_CompressionCodec (\<lambda>b. b) Ok []) (xerialStream [0, 0, 0, 1, 0, 0, 0, 1] [[1, 2], [3]]) = Ok (Some [1, 2, 3]) \<and>
   codec_Decode (snappy_CompressionCodec (\<lambda>b. b) Ok []) [7] = Panic IndexOutOfRange"
  using snappy_decode [of Ok "\<lambda>b. b" "[0, 0, 0, 1, 0, 0, 0, 1]" "[[1, 2], [3]]" "[]" "[7]"]
  by (simp add: xerialStream_def xerialBlock_def xerialHeader_def)

end
