(* ===== verification/ConnSched.thy ===== *)
theory ConnSched
  imports Conn
begin

section \<open>Several goroutines on a connection (conn.go)\<close>

text \<open>
  A \<open>Conn\<close> may be used by several goroutines. The write lock makes \<open>doRequest\<close> one step; the read lock is free between the
  iterations of \<open>waitResponse\<close> and held from the iteration that finds the response to the end of its decoding. The step relation
  interleaves the goroutines with a broker that answers the requests in the order in which it got them, as Kafka does on a
  connection. A goroutine that peeks waits for the eight bytes of a header, so its iteration is a step only when they are there.
  Every step runs the definitions of \<open>ConnCore\<close>. Timeouts do not occur here: what they do to a call is in \<open>Conn_do_error_closes\<close>.

  The theorem says that no goroutine gets the response of another one and that they never block each other for good.
\<close>

subsection \<open>The parts of a call\<close>

text \<open>An iteration of the loop of \<open>waitResponse\<close>: another one (\<open>Inl\<close>) or its result.\<close>

definition waitStep :: "which_deadline \<Rightarrow> int32 \<Rightarrow> Conn \<Rightarrow> Conn + (go_error, gotime \<times> int) result \<times> Conn" where
  "waitStep d corr c =
     (let c = onDeadline d connDeadline_setConnReadDeadline c in
      case peekResponseSizeAndID (cn_rbuf c) of
        Err e \<Rightarrow> Inr (Err e, Conn_Close (onDeadline d connDeadline_unsetConnReadDeadline c))
      | Panic p \<Rightarrow> Inr (Panic p, c)
      | Ok (rsz, rid) \<Rightarrow>
          (if corr = rid then Inr (Ok (deadlineOf d c, sint (rsz - 4)), skipResponseSizeAndID c) else Inl c))"

lemma waitResponse_waitStep:
  "waitResponse d corr c = (case waitStep d corr c of Inl c' \<Rightarrow> waitResponse d corr c' | Inr y \<Rightarrow> Some y)"
  by (subst waitResponse.simps) (simp add: waitStep_def Let_def split: result.split prod.split)

text \<open>The rest of \<open>do\<close> once the response is found.\<close>

definition finishRead :: "which_deadline \<Rightarrow> (gotime \<Rightarrow> int \<Rightarrow> 'a conn_op) \<Rightarrow> gotime \<Rightarrow> int \<Rightarrow> 'a conn_op" where
  "finishRead d read deadline sz c =
     (case read deadline sz c of
        None \<Rightarrow> None
      | Some (Panic p, c) \<Rightarrow> Some (Panic p, c)
      | Some (Ok x, c) \<Rightarrow> Some (Ok x, onDeadline d connDeadline_unsetConnReadDeadline c)
      | Some (Err e, c) \<Rightarrow>
          let c = (if is_KafkaError e then c else Conn_Close c)
          in Some (Err e, onDeadline d connDeadline_unsetConnReadDeadline c))"

lemma Conn_do_parts:
  "Conn_do d write read =
     cbind (doRequest d write) (\<lambda>corr. cbind (waitResponse d corr) (\<lambda>(deadline, sz). finishRead d read deadline sz))"
  by (simp add: Conn_do_def finishRead_def [abs_def] case_prod_beta')

subsection \<open>The system\<close>

text \<open>A call: what the goroutine does, what the broker answers and what that means.\<close>

record 'r call =
  ca_deadline :: which_deadline
  ca_write :: "gotime \<Rightarrow> int32 \<Rightarrow> unit conn_op"
  ca_read :: "gotime \<Rightarrow> int \<Rightarrow> 'r conn_op"
  ca_reply :: "byte list"
  ca_value :: 'r

datatype 'r call_phase = Ready | Waiting "'r call" int32 | Reading "'r call" gotime int

text \<open>The requests on their way to or in the broker and the responses in the read buffer, each with its goroutine.\<close>

type_synonym 'r entry = "nat \<times> int32 \<times> 'r call"

record 'r conn_sys =
  cs_conn :: Conn
  cs_rlock :: "nat option"
  cs_phase :: "nat \<Rightarrow> 'r call_phase"
  cs_owed :: "'r entry list"
  cs_arrived :: "'r entry list"
  cs_log :: "('r call \<times> (go_error, 'r) result) list"

definition entryBytes :: "'r entry \<Rightarrow> byte list" where
  "entryBytes en = (case en of (p, corr, k) \<Rightarrow> responseBytes corr (ca_reply k))"

text \<open>The calls of the client: a request that is flushed, and a decoder that takes the reply of the broker.\<close>

definition wellBehaved :: "'r call \<Rightarrow> bool" where
  "wellBehaved k \<longleftrightarrow>
     (\<forall>dl corr c. \<exists>bs. ca_write k dl corr c = Conn_Flush bs c) \<and> length (ca_reply k) < 2 ^ 31 - 4 \<and>
     (\<forall>dl c rest. rd_bytes (cn_rbuf c) = ca_reply k @ rest \<longrightarrow>
        ca_read k dl (int (length (ca_reply k))) c = Some (Ok (ca_value k), c\<lparr>cn_rbuf := (cn_rbuf c)\<lparr>rd_bytes := rest\<rparr>\<rparr>))"

definition finished :: "nat \<Rightarrow> 'r call \<Rightarrow> (go_error, 'r) result \<Rightarrow> Conn \<Rightarrow> 'r conn_sys \<Rightarrow> 'r conn_sys" where
  "finished p k res c s = s\<lparr>cs_conn := c, cs_phase := (cs_phase s)(p := Ready), cs_log := cs_log s @ [(k, res)]\<rparr>"

inductive sched_step :: "nat \<Rightarrow> 'r conn_sys \<Rightarrow> 'r conn_sys \<Rightarrow> bool" for N where
  sched_send: "p < N \<Longrightarrow> cs_phase s p = Ready \<Longrightarrow> wellBehaved k \<Longrightarrow>
    doRequest (ca_deadline k) (ca_write k) (cs_conn s) = Some (Ok corr, c) \<Longrightarrow>
    sched_step N s (s\<lparr>cs_conn := c, cs_phase := (cs_phase s)(p := Waiting k corr), cs_owed := cs_owed s @ [(p, corr, k)]\<rparr>)"
| sched_refused: "p < N \<Longrightarrow> cs_phase s p = Ready \<Longrightarrow> wellBehaved k \<Longrightarrow>
    doRequest (ca_deadline k) (ca_write k) (cs_conn s) = Some (Err e, c) \<Longrightarrow> sched_step N s (finished p k (Err e) c s)"
| sched_arrive: "cs_owed s = en # owed \<Longrightarrow>
    sched_step N s (s\<lparr>cs_owed := owed, cs_arrived := cs_arrived s @ [en],
      cs_conn := (cs_conn s)\<lparr>cn_rbuf := (cn_rbuf (cs_conn s))\<lparr>rd_bytes := rd_bytes (cn_rbuf (cs_conn s)) @ entryBytes en\<rparr>\<rparr>\<rparr>)"
| sched_spin: "cs_phase s p = Waiting k corr \<Longrightarrow> cs_rlock s = None \<Longrightarrow> 8 \<le> length (rd_bytes (cn_rbuf (cs_conn s))) \<Longrightarrow>
    waitStep (ca_deadline k) corr (cs_conn s) = Inl c \<Longrightarrow> sched_step N s (s\<lparr>cs_conn := c\<rparr>)"
| sched_take: "cs_phase s p = Waiting k corr \<Longrightarrow> cs_rlock s = None \<Longrightarrow> 8 \<le> length (rd_bytes (cn_rbuf (cs_conn s))) \<Longrightarrow>
    waitStep (ca_deadline k) corr (cs_conn s) = Inr (Ok (deadline, sz), c) \<Longrightarrow>
    sched_step N s (s\<lparr>cs_conn := c, cs_rlock := Some p, cs_phase := (cs_phase s)(p := Reading k deadline sz), cs_arrived := tl (cs_arrived s)\<rparr>)"
| sched_lost: "cs_phase s p = Waiting k corr \<Longrightarrow> cs_rlock s = None \<Longrightarrow> 8 \<le> length (rd_bytes (cn_rbuf (cs_conn s))) \<Longrightarrow>
    waitStep (ca_deadline k) corr (cs_conn s) = Inr (Err e, c) \<Longrightarrow> sched_step N s (finished p k (Err e) c s)"
| sched_read: "cs_phase s p = Reading k deadline sz \<Longrightarrow> cs_rlock s = Some p \<Longrightarrow>
    finishRead (ca_deadline k) (ca_read k) deadline sz (cs_conn s) = Some (res, c) \<Longrightarrow>
    sched_step N s ((finished p k res c s)\<lparr>cs_rlock := None\<rparr>)"

definition startConn :: "Conn \<Rightarrow> 'r conn_sys" where
  "startConn c = \<lparr>cs_conn = c, cs_rlock = None, cs_phase = (\<lambda>_. Ready), cs_owed = [], cs_arrived = [], cs_log = []\<rparr>"

inductive schedReachable :: "nat \<Rightarrow> Conn \<Rightarrow> 'r conn_sys \<Rightarrow> bool" for N c where
  sched_start: "schedReachable N c (startConn c)"
| sched_next: "schedReachable N c s \<Longrightarrow> sched_step N s t \<Longrightarrow> schedReachable N c t"

subsection \<open>Steps of one goroutine\<close>

lemma onDeadline_frame [simp]:
  "usable (onDeadline d connDeadline_setConnReadDeadline c) = usable c"
  "usable (onDeadline d connDeadline_unsetConnReadDeadline c) = usable c"
  "cn_correlationID (onDeadline d f c) = cn_correlationID c"
  by (cases d; simp add: usable_def onDeadline_def deadline_defs split: prod.split)+

lemma usable_rbuf [simp]: "usable (c\<lparr>cn_rbuf := r\<rparr>) = usable c"
  by (simp add: usable_def)

lemma doRequest_usable:
  assumes "usable c" "wellBehaved k"
  shows "\<exists>c'. doRequest (ca_deadline k) (ca_write k) c = Some (Ok (cn_correlationID c + 1), c') \<and> usable c' \<and>
    cn_correlationID c' = cn_correlationID c + 1 \<and> cn_rbuf c' = cn_rbuf c"
proof -
  define c1 where "c1 = onDeadline (ca_deadline k) connDeadline_setConnWriteDeadline (c\<lparr>cn_correlationID := cn_correlationID c + 1\<rparr>)"
  have c1: "usable c1" "cn_correlationID c1 = cn_correlationID c + 1" "cn_rbuf c1 = cn_rbuf c"
    using assms(1) by (cases "ca_deadline k"; simp add: c1_def usable_def deadline_defs)+
  obtain bs where bs: "ca_write k (deadlineOf (ca_deadline k) c1) (cn_correlationID c + 1) c1 = Conn_Flush bs c1"
    using assms(2) unfolding wellBehaved_def by blast
  let ?c2 = "onDeadline (ca_deadline k) connDeadline_unsetConnWriteDeadline (c1\<lparr>cn_net := (cn_net c1)\<lparr>nt_sent := nt_sent (cn_net c1) @ bs\<rparr>\<rparr>)"
  have "doRequest (ca_deadline k) (ca_write k) c = Some (Ok (cn_correlationID c + 1), ?c2)"
    using c1(1) bs by (simp add: doRequest_def Let_def c1_def [symmetric] c1(2) Conn_Flush_def usable_def)
  moreover have "usable ?c2" "cn_correlationID ?c2 = cn_correlationID c + 1" "cn_rbuf ?c2 = cn_rbuf c"
    using c1 by (cases "ca_deadline k"; simp add: usable_def deadline_defs)+
  ultimately show ?thesis by blast
qed

lemma waitStep_found:
  assumes "rd_bytes (cn_rbuf c) = responseBytes corr body @ rest" "length body < 2 ^ 31 - 4"
  shows "waitStep d corr c = Inr (Ok (deadlineOf d c, int (length body)),
      (onDeadline d connDeadline_setConnReadDeadline c)\<lparr>cn_rbuf := (cn_rbuf c)\<lparr>rd_bytes := body @ rest\<rparr>\<rparr>)"
proof -
  have "deadlineOf d (onDeadline d connDeadline_setConnReadDeadline c) = deadlineOf d c"
    by (cases d) (simp_all add: deadlineOf_def deadline_defs)
  then show ?thesis
    using assms response_size [OF assms(2)]
    by (simp add: waitStep_def peek_response [of _ corr body rest] Let_def skipResponseSizeAndID_def Discard_def responseBytes_def)
qed

lemma waitStep_other:
  assumes "rd_bytes (cn_rbuf c) = responseBytes rid body @ rest" "rid \<noteq> corr"
  shows "waitStep d corr c = Inl (onDeadline d connDeadline_setConnReadDeadline c)"
  using assms by (simp add: waitStep_def peek_response [of _ rid body rest] Let_def)

lemma finishRead_reply:
  assumes "wellBehaved k" "rd_bytes (cn_rbuf c) = ca_reply k @ rest" "sz = int (length (ca_reply k))"
  shows "finishRead d (ca_read k) deadline sz c =
    Some (Ok (ca_value k), onDeadline d connDeadline_unsetConnReadDeadline (c\<lparr>cn_rbuf := (cn_rbuf c)\<lparr>rd_bytes := rest\<rparr>\<rparr>))"
  using assms by (simp add: finishRead_def wellBehaved_def)

subsection \<open>The invariant\<close>

text \<open>Every goroutine that waits has one entry, and the identifiers of the entries are consecutive up to the last one given out.\<close>

definition entriesOk :: "nat \<Rightarrow> (nat \<Rightarrow> 'r call_phase) \<Rightarrow> int32 \<Rightarrow> 'r entry list \<Rightarrow> bool" where
  "entriesOk N phase last_id out \<longleftrightarrow>
     distinct (map fst out) \<and>
     (\<forall>p corr k. (p, corr, k) \<in> set out \<longrightarrow> p < N \<and> wellBehaved k) \<and>
     (\<forall>p corr k. (p, corr, k) \<in> set out \<longleftrightarrow> phase p = Waiting k corr) \<and>
     (\<forall>i < length out. fst (snd (out ! i)) = last_id - of_nat (length out - 1 - i))"

text \<open>The read buffer has the responses in order, after the body that the holder of the read lock is decoding.\<close>

definition bufferOk :: "nat option \<Rightarrow> (nat \<Rightarrow> 'r call_phase) \<Rightarrow> byte list \<Rightarrow> 'r entry list \<Rightarrow> bool" where
  "bufferOk rlock phase bs arrived \<longleftrightarrow>
     (case rlock of
        None \<Rightarrow> (\<forall>p k dl sz. phase p \<noteq> Reading k dl sz) \<and> bs = concat (map entryBytes arrived)
      | Some p \<Rightarrow> \<exists>k dl. wellBehaved k \<and> phase p = Reading k dl (int (length (ca_reply k))) \<and>
          (\<forall>q k dl sz. phase q = Reading k dl sz \<longrightarrow> q = p) \<and> bs = ca_reply k @ concat (map entryBytes arrived))"

definition schedInv :: "nat \<Rightarrow> 'r conn_sys \<Rightarrow> bool" where
  "schedInv N s \<longleftrightarrow> usable (cs_conn s) \<and>
     entriesOk N (cs_phase s) (cn_correlationID (cs_conn s)) (cs_arrived s @ cs_owed s) \<and>
     bufferOk (cs_rlock s) (cs_phase s) (rd_bytes (cn_rbuf (cs_conn s))) (cs_arrived s) \<and>
     (\<forall>k res. (k, res) \<in> set (cs_log s) \<longrightarrow> res = Ok (ca_value k))"

lemma schedInv_start: "usable c \<Longrightarrow> rd_bytes (cn_rbuf c) = [] \<Longrightarrow> schedInv N (startConn c)"
  by (simp add: schedInv_def entriesOk_def bufferOk_def startConn_def)

lemma entriesOk_bound:
  assumes "entriesOk N phase last_id out"
  shows "length out \<le> N"
proof -
  have "set (map fst out) \<subseteq> {..<N}" using assms by (auto simp: entriesOk_def)
  then have "card (set (map fst out)) \<le> N" using card_mono [of "{..<N}"] by auto
  then show ?thesis using assms distinct_card [of "map fst out"] by (simp add: entriesOk_def)
qed

text \<open>With fewer goroutines than identifiers, an identifier belongs to one goroutine.\<close>

lemma entriesOk_unique:
  assumes ok: "entriesOk N phase last_id ((p0, corr, k0) # out)" and N: "N \<le> 2 ^ 32" and wait: "phase p = Waiting k corr"
  shows "p = p0 \<and> k = k0"
proof -
  let ?out = "(p0, corr, k0) # out"
  have "(p, corr, k) \<in> set ?out" using ok wait unfolding entriesOk_def by blast
  then obtain j where j: "j < length ?out" "?out ! j = (p, corr, k)" unfolding in_set_conv_nth by blast
  have n: "length out < 2 ^ 32" using entriesOk_bound [OF ok] N by simp
  have ids: "i < length ?out \<Longrightarrow> fst (snd (?out ! i)) = last_id - of_nat (length ?out - 1 - i)" for i
    using ok unfolding entriesOk_def by blast
  have "last_id - of_nat (length out - j) = last_id - of_nat (length out)"
    using ids [OF j(1)] ids [of 0] unfolding j(2) by simp
  then have "unat (of_nat (length out - j) :: int32) = unat (of_nat (length out) :: int32)" by (simp del: of_nat_diff)
  then have "length out - j = length out" using n unat_of_nat_32 [of "length out - j"] unat_of_nat_32 [of "length out"] by linarith
  then have "j = 0" using j(1) by auto
  with j(2) show ?thesis by simp
qed

lemma entriesOk_head:
  assumes "entriesOk N phase last_id ((p, corr, k) # out)"
  shows "phase p = Waiting k corr \<and> wellBehaved k"
proof -
  have "(p, corr, k) \<in> set ((p, corr, k) # out)" by simp
  with assms show ?thesis unfolding entriesOk_def by blast
qed

lemma entriesOk_send:
  assumes ok: "entriesOk N phase last_id out" and p: "p < N" "phase p = Ready" "wellBehaved k"
  shows "entriesOk N (phase(p := Waiting k (last_id + 1))) (last_id + 1) (out @ [(p, last_id + 1, k)])"
  unfolding entriesOk_def
proof (intro conjI allI impI)
  let ?out = "out @ [(p, last_id + 1, k)]"
  have new: "(p, x, l) \<notin> set out" for x l using ok p(2) unfolding entriesOk_def by (metis call_phase.distinct(1))
  then show "distinct (map fst ?out)" using ok by (auto simp: entriesOk_def)
  show "q < N" "wellBehaved l" if "(q, x, l) \<in> set ?out" for q x l
    using ok p that by (auto simp: entriesOk_def)
  show "(q, x, l) \<in> set ?out \<longleftrightarrow> (phase(p := Waiting k (last_id + 1))) q = Waiting l x" for q x l
    using ok new unfolding entriesOk_def by (cases "q = p") auto
  fix i assume i: "i < length ?out"
  show "fst (snd (?out ! i)) = last_id + 1 - of_nat (length ?out - 1 - i)"
  proof (cases "i < length out")
    case True
    then have "fst (snd (out ! i)) = last_id - of_nat (length out - 1 - i)" using ok unfolding entriesOk_def by blast
    moreover have "length out - i = Suc (length out - 1 - i)" using True by simp
    ultimately show ?thesis using True by (simp add: nth_append del: of_nat_diff)
  next
    case False
    with i show ?thesis by (simp add: nth_append)
  qed
qed

lemma entriesOk_take:
  assumes ok: "entriesOk N phase last_id ((p, corr, k) # out)"
  shows "entriesOk N (phase(p := Reading k deadline sz)) last_id out"
  unfolding entriesOk_def
proof (intro conjI allI impI)
  have d: "distinct (map fst ((p, corr, k) # out))" using ok unfolding entriesOk_def by blast
  then have gone: "(p, x, l) \<notin> set out" for x l by force
  have iff: "(q, x, l) \<in> set ((p, corr, k) # out) \<longleftrightarrow> phase q = Waiting l x" for q x l
    using ok unfolding entriesOk_def by blast
  show "distinct (map fst out)" using d by simp
  show "q < N" "wellBehaved l" if "(q, x, l) \<in> set out" for q x l
    using ok that unfolding entriesOk_def by (meson list.set_intros(2))+
  show "(q, x, l) \<in> set out \<longleftrightarrow> (phase(p := Reading k deadline sz)) q = Waiting l x" for q x l
    using iff [of q x l] gone by (cases "q = p") simp_all
  fix i assume "i < length out"
  then have "fst (snd (((p, corr, k) # out) ! Suc i)) = last_id - of_nat (length ((p, corr, k) # out) - 1 - Suc i)"
    using ok unfolding entriesOk_def by (metis length_Cons Suc_less_eq)
  then show "fst (snd (out ! i)) = last_id - of_nat (length out - 1 - i)" by (simp del: of_nat_diff)
qed

lemma entriesOk_ready:
  assumes ok: "entriesOk N phase last_id out" and "phase p = Reading k deadline sz"
  shows "entriesOk N (phase(p := Ready)) last_id out"
proof -
  have "(q, x, l) \<in> set out \<longleftrightarrow> phase q = Waiting l x" for q x l
    using ok unfolding entriesOk_def by blast
  then have "(q, x, l) \<in> set out \<longleftrightarrow> (phase(p := Ready)) q = Waiting l x" for q x l
    using assms(2) by (cases "q = p") simp_all
  with ok show ?thesis unfolding entriesOk_def by blast
qed

lemma schedInv_send:
  assumes inv: "schedInv N s" and p: "p < N" "cs_phase s p = Ready" "wellBehaved k"
    and send: "doRequest (ca_deadline k) (ca_write k) (cs_conn s) = Some (Ok corr, c)"
  shows "schedInv N (s\<lparr>cs_conn := c, cs_phase := (cs_phase s)(p := Waiting k corr), cs_owed := cs_owed s @ [(p, corr, k)]\<rparr>)"
proof -
  have c: "usable c" "corr = cn_correlationID (cs_conn s) + 1" "cn_correlationID c = corr" "cn_rbuf c = cn_rbuf (cs_conn s)"
    using doRequest_usable [of "cs_conn s" k] p(3) send inv by (auto simp: schedInv_def)
  moreover have "bufferOk (cs_rlock s) ((cs_phase s)(p := Waiting k corr)) (rd_bytes (cn_rbuf (cs_conn s))) (cs_arrived s)"
    using inv p(2) by (auto simp: schedInv_def bufferOk_def split: option.splits)
  ultimately show ?thesis
    using inv entriesOk_send [of N "cs_phase s" "cn_correlationID (cs_conn s)" "cs_arrived s @ cs_owed s", OF _ p] by (simp add: schedInv_def)
qed

lemma schedInv_arrive:
  assumes "schedInv N s" "cs_owed s = en # owed"
  shows "schedInv N (s\<lparr>cs_owed := owed, cs_arrived := cs_arrived s @ [en],
      cs_conn := (cs_conn s)\<lparr>cn_rbuf := (cn_rbuf (cs_conn s))\<lparr>rd_bytes := rd_bytes (cn_rbuf (cs_conn s)) @ entryBytes en\<rparr>\<rparr>\<rparr>)"
  using assms by (simp add: schedInv_def bufferOk_def split: option.splits)

text \<open>While the read lock is free and the buffer is not empty, the response at its front is that of one goroutine.\<close>

lemma buffer_front:
  assumes "schedInv N s" "cs_rlock s = None" "8 \<le> length (rd_bytes (cn_rbuf (cs_conn s)))"
  obtains p corr k rest where "cs_arrived s = (p, corr, k) # rest" "cs_phase s p = Waiting k corr" "wellBehaved k"
    "rd_bytes (cn_rbuf (cs_conn s)) = responseBytes corr (ca_reply k) @ concat (map entryBytes rest)"
proof -
  have bytes: "rd_bytes (cn_rbuf (cs_conn s)) = concat (map entryBytes (cs_arrived s))"
    using assms(1,2) by (simp add: schedInv_def bufferOk_def)
  with assms(3) obtain p corr k rest where front: "cs_arrived s = (p, corr, k) # rest" by (cases "cs_arrived s") auto
  then have "cs_phase s p = Waiting k corr" "wellBehaved k"
    using assms(1) entriesOk_head [of N "cs_phase s" _ p corr k "rest @ cs_owed s"] by (auto simp: schedInv_def)
  with that front bytes show thesis by (simp add: entryBytes_def)
qed

lemma schedInv_take:
  assumes inv: "schedInv N s" and front: "cs_rlock s = None" "cs_arrived s = (p, corr, k) # rest"
  shows "schedInv N (s\<lparr>cs_conn := (onDeadline d connDeadline_setConnReadDeadline (cs_conn s))\<lparr>cn_rbuf := (cn_rbuf (cs_conn s))\<lparr>rd_bytes := ca_reply k @ concat (map entryBytes rest)\<rparr>\<rparr>,
    cs_rlock := Some p, cs_phase := (cs_phase s)(p := Reading k deadline (int (length (ca_reply k)))), cs_arrived := rest\<rparr>)"
proof -
  have ok: "entriesOk N (cs_phase s) (cn_correlationID (cs_conn s)) ((p, corr, k) # rest @ cs_owed s)"
    using inv front(2) by (simp add: schedInv_def)
  have "wellBehaved k" using entriesOk_head [OF ok] by simp
  then have "bufferOk (Some p) ((cs_phase s)(p := Reading k deadline (int (length (ca_reply k))))) (ca_reply k @ concat (map entryBytes rest)) rest"
    using inv front(1) by (auto simp: schedInv_def bufferOk_def)
  with inv entriesOk_take [OF ok] show ?thesis by (simp add: schedInv_def)
qed

text \<open>An iteration of the loop finds its own response or leaves the buffer as it is.\<close>

lemma waitStep_cases:
  assumes inv: "schedInv N s" and N: "N \<le> 2 ^ 32"
    and wait: "cs_phase s p = Waiting k corr" "cs_rlock s = None" "8 \<le> length (rd_bytes (cn_rbuf (cs_conn s)))"
  shows "waitStep d corr (cs_conn s) = Inl (onDeadline d connDeadline_setConnReadDeadline (cs_conn s)) \<or>
    (\<exists>rest. cs_arrived s = (p, corr, k) # rest \<and> waitStep d corr (cs_conn s) =
       Inr (Ok (deadlineOf d (cs_conn s), int (length (ca_reply k))),
         (onDeadline d connDeadline_setConnReadDeadline (cs_conn s))\<lparr>cn_rbuf := (cn_rbuf (cs_conn s))\<lparr>rd_bytes := ca_reply k @ concat (map entryBytes rest)\<rparr>\<rparr>))"
proof -
  obtain p0 corr0 k0 rest where front: "cs_arrived s = (p0, corr0, k0) # rest" "cs_phase s p0 = Waiting k0 corr0" "wellBehaved k0"
    "rd_bytes (cn_rbuf (cs_conn s)) = responseBytes corr0 (ca_reply k0) @ concat (map entryBytes rest)"
    by (rule buffer_front [OF inv wait(2,3)])
  show ?thesis
  proof (cases "corr0 = corr")
    case True
    have "entriesOk N (cs_phase s) (cn_correlationID (cs_conn s)) ((p0, corr, k0) # rest @ cs_owed s)"
      using inv front(1) True by (simp add: schedInv_def)
    note same = entriesOk_unique [OF this N wait(1)]
    have "length (ca_reply k0) < 2 ^ 31 - 4" using front(3) unfolding wellBehaved_def by blast
    then show ?thesis using waitStep_found [of "cs_conn s" corr "ca_reply k0"] front True same by simp
  next
    case False
    then show ?thesis using waitStep_other [OF front(4)] by blast
  qed
qed

lemma schedInv_read:
  assumes inv: "schedInv N s" and p: "cs_phase s p = Reading k deadline sz" "cs_rlock s = Some p"
    and read: "finishRead (ca_deadline k) (ca_read k) deadline sz (cs_conn s) = Some (res, c)"
  shows "schedInv N ((finished p k res c s)\<lparr>cs_rlock := None\<rparr>)"
proof -
  have buf: "wellBehaved k" "sz = int (length (ca_reply k))" "\<And>q k dl sz. cs_phase s q = Reading k dl sz \<Longrightarrow> q = p"
    "rd_bytes (cn_rbuf (cs_conn s)) = ca_reply k @ concat (map entryBytes (cs_arrived s))"
    using inv p by (auto simp: schedInv_def bufferOk_def)
  have res: "res = Ok (ca_value k)" and c: "c = onDeadline (ca_deadline k) connDeadline_unsetConnReadDeadline
      ((cs_conn s)\<lparr>cn_rbuf := (cn_rbuf (cs_conn s))\<lparr>rd_bytes := concat (map entryBytes (cs_arrived s))\<rparr>\<rparr>)"
    using finishRead_reply [OF buf(1,4,2)] read by auto
  have "entriesOk N ((cs_phase s)(p := Ready)) (cn_correlationID (cs_conn s)) (cs_arrived s @ cs_owed s)"
    using inv p(1) by (auto simp: schedInv_def intro: entriesOk_ready)
  moreover have "bufferOk None ((cs_phase s)(p := Ready)) (concat (map entryBytes (cs_arrived s))) (cs_arrived s)"
    using buf(3) by (auto simp: bufferOk_def)
  ultimately show ?thesis using inv by (auto simp: schedInv_def finished_def res c)
qed

lemma sched_step_inv:
  assumes step: "sched_step N s t" and inv: "schedInv N s" and N: "N \<le> 2 ^ 32"
  shows "schedInv N t"
  using step
proof cases
  case (sched_send p k corr c)
  then show ?thesis using schedInv_send [OF inv] by simp
next
  case (sched_refused p k e c)
  have "usable (cs_conn s)" using inv by (simp add: schedInv_def)
  from doRequest_usable [OF this sched_refused(4)] sched_refused(5) show ?thesis by auto
next
  case (sched_arrive en owed)
  then show ?thesis using schedInv_arrive [OF inv] by simp
next
  case (sched_spin p k corr c)
  have "c = onDeadline (ca_deadline k) connDeadline_setConnReadDeadline (cs_conn s)"
    using waitStep_cases [OF inv N sched_spin(2-4), of "ca_deadline k"] sched_spin(5) by auto
  with sched_spin(1) inv show ?thesis by (simp add: schedInv_def)
next
  case (sched_take p k corr deadline sz c)
  obtain rest where "cs_arrived s = (p, corr, k) # rest" "sz = int (length (ca_reply k))"
    "c = (onDeadline (ca_deadline k) connDeadline_setConnReadDeadline (cs_conn s))\<lparr>cn_rbuf := (cn_rbuf (cs_conn s))\<lparr>rd_bytes := ca_reply k @ concat (map entryBytes rest)\<rparr>\<rparr>"
    using waitStep_cases [OF inv N sched_take(2-4), of "ca_deadline k"] sched_take(5) by auto
  then show ?thesis using schedInv_take [OF inv sched_take(3)] sched_take(1) by simp
next
  case (sched_lost p k corr e c)
  then show ?thesis using waitStep_cases [OF inv N sched_lost(2-4), of "ca_deadline k"] by auto
next
  case (sched_read p k deadline sz res c)
  then show ?thesis using schedInv_read [OF inv] by simp
qed

lemma schedReachable_inv:
  assumes "schedReachable N c s" "usable c" "rd_bytes (cn_rbuf c) = []" "N \<le> 2 ^ 32"
  shows "schedInv N s"
  using assms(1) by induction (auto intro: schedInv_start [OF assms(2,3)] sched_step_inv [OF _ _ assms(4)])

subsection \<open>Progress\<close>

text \<open>What is left to be done for the calls that are outstanding: the broker answers, the goroutine takes the response and decodes it.\<close>

definition workLeft :: "'r conn_sys \<Rightarrow> nat" where
  "workLeft s = 3 * length (cs_owed s) + 2 * length (cs_arrived s) + (if cs_rlock s = None then 0 else 1)"

lemma sched_progress:
  assumes inv: "schedInv N s" and busy: "cs_phase s p \<noteq> Ready"
  shows "\<exists>t. sched_step N s t \<and> workLeft t < workLeft s"
proof (cases "cs_rlock s")
  case (Some q)
  then obtain k dl where q: "wellBehaved k" "cs_phase s q = Reading k dl (int (length (ca_reply k)))"
    "rd_bytes (cn_rbuf (cs_conn s)) = ca_reply k @ concat (map entryBytes (cs_arrived s))"
    using inv by (auto simp: schedInv_def bufferOk_def)
  show ?thesis
    by (rule exI, rule conjI, rule sched_read [OF q(2) Some finishRead_reply [OF q(1,3) refl]])
      (simp add: workLeft_def finished_def Some)
next
  case None
  show ?thesis
  proof (cases "cs_arrived s")
    case (Cons en rest)
    then obtain q corr k where en: "cs_arrived s = (q, corr, k) # rest" by (cases en) auto
    then have q: "cs_phase s q = Waiting k corr" "wellBehaved k"
      using inv entriesOk_head [of N "cs_phase s" _ q corr k "rest @ cs_owed s"] by (auto simp: schedInv_def)
    have bytes: "rd_bytes (cn_rbuf (cs_conn s)) = responseBytes corr (ca_reply k) @ concat (map entryBytes rest)"
      using inv None en by (simp add: schedInv_def bufferOk_def entryBytes_def)
    then have long: "8 \<le> length (rd_bytes (cn_rbuf (cs_conn s)))" by (simp add: responseBytes_def)
    have short: "length (ca_reply k) < 2 ^ 31 - 4" using q(2) unfolding wellBehaved_def by blast
    show ?thesis
      by (rule exI, rule conjI, rule sched_take [OF q(1) None long waitStep_found [OF bytes short]]) (simp add: workLeft_def en None)
  next
    case Nil
    have "\<forall>k dl sz. cs_phase s p \<noteq> Reading k dl sz" using inv None by (simp add: schedInv_def bufferOk_def)
    with busy obtain k corr where "cs_phase s p = Waiting k corr" by (cases "cs_phase s p") auto
    then have "(p, corr, k) \<in> set (cs_arrived s @ cs_owed s)" using inv unfolding schedInv_def entriesOk_def by blast
    with Nil obtain en owed where owed: "cs_owed s = en # owed" by (cases "cs_owed s") auto
    show ?thesis by (rule exI, rule conjI, rule sched_arrive [OF owed]) (simp add: workLeft_def owed None)
  qed
qed


subsection \<open>The operations of the connection are such calls\<close>

definition requestCall ::
  "which_deadline \<Rightarrow> ('q \<Rightarrow> int32) \<Rightarrow> (bufio_writer \<Rightarrow> 'q \<Rightarrow> bufio_writer) \<Rightarrow> int16 \<Rightarrow> int16 \<Rightarrow> 'q \<Rightarrow> 'r reader \<Rightarrow> byte list \<Rightarrow> 'r \<Rightarrow> 'r call" where
  "requestCall d sz wr key ver q rd reply x =
     \<lparr>ca_deadline = d, ca_write = (\<lambda>_ corr. Conn_writeRequest sz wr key ver corr q), ca_read = (\<lambda>_ n. readRbuf (expectZeroSize rd) n),
      ca_reply = reply, ca_value = x\<rparr>"

lemma request_requestCall:
  "request d sz wr key ver q rd =
     (let k = requestCall d sz wr key ver q rd reply x in Conn_do (ca_deadline k) (ca_write k) (ca_read k))"
  by (simp add: request_def requestCall_def)

context request_response
begin

lemma request_wellBehaved:
  assumes "ok x" "length (rwr [] x) < 2 ^ 31 - 4"
  shows "wellBehaved (requestCall d sz wr key ver q rd (rwr [] x) x)"
proof -
  have "readRbuf (expectZeroSize rd) (int (length (rwr [] x))) c = Some (Ok x, c\<lparr>cn_rbuf := (cn_rbuf c)\<lparr>rd_bytes := rest\<rparr>\<rparr>)"
    if "rd_bytes (cn_rbuf c) = rwr [] x @ rest" for c rest
  proof -
    have "cn_rbuf c = \<lparr>rd_bytes = rwr [] x @ rest, rd_err = rd_err (cn_rbuf c)\<rparr>" using that by (cases "cn_rbuf c") simp
    then show ?thesis
      using res.read_response [OF assms(1), of rest "rd_err (cn_rbuf c)"] by (simp add: readRbuf_def)
  qed
  then show ?thesis using assms(2) by (auto simp: wellBehaved_def requestCall_def Conn_writeRequest_def)
qed

end


end
