(* ===== verification/Spec2Isabelle.thy ===== *)
theory Spec2Isabelle
  imports TopicWriter ReaderGroup ReaderFetch Dialer RunGroup Snappy ConnSched
begin

text \<open>
  A verification library for kafka-go, a client of Kafka in Go: the definitions translate the code under src/ function by function and
  the theorems say what makes its parts correct.

  \<^bold>\<open>The program.\<close> At the bottom are encoders and decoders for the primitive types of the protocol (write.go, sizeof.go, read.go,
  discard.go) and on top of them one file per request with its structs. A connection (conn.go) writes a request under a correlation
  identifier, waits for the response that carries it, and decodes the response within the size it announces; a fetch response is a batch
  (batch.go) from which messages are read by the readers of message sets (message.go). The dialer (dialer.go) makes connections: it
  resolves addresses, authenticates, and finds the leader of a partition. A \<open>Writer\<close> (writer.go) has one goroutine that routes messages
  to partitions with a balancer (balancer.go) and one per partition that groups them into batches and produces them. A \<open>Reader\<close>
  (reader.go) has one goroutine per partition that fetches messages into a channel, a goroutine that commits offsets, and, in a consumer group, one
  that joins the group, has the partitions assigned by a group balancer (groupbalancer.go) and keeps the membership alive; the loops of
  a generation run in a run group (rungroup.go).

  \<^bold>\<open>How it is modelled.\<close> Structs are records, tagged unions and enumerations are datatypes. The sized integers are words, so they wrap; Go's \<open>int\<close> is
  \<open>int\<close> where it counts bytes or elements. A string is its bytes, and a byte slice is an option of them (nil and empty differ on the wire). A function that fails returns
  \<open>Err\<close>, one that panics \<open>Panic\<close>. A decoder maps the stream and the bytes left of the response to its result. An operation of a connection maps the record \<open>Conn\<close> to
  a result and the next \<open>Conn\<close>; it is \<open>None\<close> when it does not return. A goroutine is a step function on the event that its \<open>select\<close> receives,
  run over a list of events; where goroutines meet (a connection, a run group, a reader with its partition readers) an inductive step relation interleaves them.

  \<^bold>\<open>The theories.\<close>
  \<^item> \<open>Prelude\<close>, \<open>Errors\<close> (error.go), \<open>GoTime\<close> (time.go, \<open>backoff\<close>), \<open>Bufio\<close> (what is used of \<open>bufio\<close>, \<open>io\<close>, \<open>encoding/binary\<close>): the base. The named collections
    \<open>wire\<close>, \<open>frame\<close>, \<open>wire_size\<close>, \<open>parse\<close> and \<open>account\<close> carry the proofs about messages.
  \<^item> \<open>Wire\<close> (write.go, sizeof.go, protocol.go) with the locale \<open>sized\<close>: an encoder appends, and the size is the number of bytes. \<open>Decode\<close> (read.go, discard.go) with
    the locales \<open>decodable\<close> and \<open>message_codec\<close>: a decoder returns what the encoder wrote and never takes more than the response has. \<open>Varint\<close> and \<open>Crc32\<close>
    (crc32.go): variable length integers and checksums.
  \<^item> \<open>SaslMessages\<close>, \<open>OffsetMessages\<close>, \<open>TopicMessages\<close>, \<open>GroupMessages\<close>, \<open>DataMessages\<close>: the structs of the files of these names, each an interpretation of the
    locales. \<open>MessageSet\<close> and \<open>RecordBatch\<close>: the two message formats as they are written; \<open>MessageReader\<close>, \<open>MessageReaderV1\<close>, \<open>MessageReaderV2\<close>: as they are read, with
    the round trips. \<open>Snappy\<close> (snappy/snappy.go): the framing that the codec reads.
  \<^item> \<open>ConnCore\<close>: deadlines, \<open>doRequest\<close>, \<open>waitResponse\<close>, \<open>do\<close>, and the locale \<open>request_response\<close>, interpreted in \<open>Conn\<close> for every request. \<open>Conn\<close>: the operations of conn.go.
    \<open>ConnSched\<close>: several goroutines on a connection, and that each gets the response to its own request. \<open>Batch\<close> (batch.go): fetching and reading batches. \<open>Dialer\<close> (dialer.go,
    sasl/plain): connecting, authenticating, lookups.
  \<^item> \<open>Balancer\<close> with the locales \<open>balancer\<close> and \<open>steady_balancer\<close> (the chosen partition is one of those offered), \<open>Stats\<close> (stats.go), \<open>Writer\<close> (the goroutine of a partition;
    the locale \<open>batch_sink\<close> is what its loop needs of the write of a batch) and \<open>TopicWriter\<close> (routing, \<open>WriteMessages\<close>, \<open>Stats\<close>, \<open>Close\<close>): every message is answered once, goes to one of
    the known partitions, and is delivered when the call returns no error.
  \<^item> \<open>GroupAssign\<close> with the locale \<open>group_balancer\<close> (every partition of a topic is assigned to exactly one of its members), \<open>ReaderBase\<close> (configuration, state, \<open>start\<close>), \<open>Commits\<close>
    (commit.go, the commit loops), \<open>ReaderGroup\<close> (a generation of a group), \<open>PartitionReader\<close> (\<open>initialize\<close>, \<open>read\<close>, \<open>run\<close>), \<open>ReaderFetch\<close> (the methods of a
    reader), \<open>RunGroup\<close>: no partition is read twice in a generation, messages come once and in order, commits are not lost.

  This theory adds what holds of all requests and of all responses.

  \<^bold>\<open>Loops and bounds.\<close> No loop has fuel. Loops that always end are total functions with a termination proof (or structural); those that may run for ever are
  partial functions into \<open>option\<close>: \<open>writeVarInt\<close> and \<open>varIntLen\<close> (proved to end exactly on the integers from \<open>- 2 ^ 62\<close> to \<open>2 ^ 62 - 1\<close>), \<open>waitResponse\<close> (ends exactly
  when the next response is the awaited one), the reading of compressed sets, the skipping of messages before an offset, the SASL exchange, the lookup of a partition. Where an operation is
  said to return, its value is given. Assumptions such as a body below \<open>2 ^ 31 - 4\<close> bytes are the limits of the \<open>int32\<close> sizes of the protocol; up to \<open>2 ^ 32\<close> goroutines may share a connection because
  identifiers have 32 bits.

  \<^bold>\<open>Parameters.\<close> What is outside of the sources is an argument: the bytes the broker sends and the error after them, the outcome of dials, TLS handshakes and name lookups, the clock, random numbers,
  the order in which Go visits a map, compression functions (with the law that decoding undoes encoding where a theorem needs it), SASL mechanisms, the ends of
  contexts and timers, the floating point quotient of an average. Each theorem with such an assumption has an instance.

  \<^bold>\<open>Not modelled.\<close>
  \<^item> gzip/gzip.go, lz4/lz4.go and sasl/scram/scram.go only pass data to compress/gzip and to packages that are not part of the sources; they appear as codec and mechanism arguments.
  \<^item> The reflective dispatchers \<open>write\<close>, \<open>read\<close> and \<open>sizeof\<close> over \<open>interface{}\<close>: the model calls the encoder of the type directly.
  \<^item> Loggers, the summaries of durations in the statistics, the fields of \<open>net.Dialer\<close>, finalizers and the pools as such: they do not influence results.
  \<^item> Memory: slices are values, except where a function updates the slice of its caller (\<open>stampTimes\<close>) or reads beyond the length of one (\<open>Snappy\<close>). The atomic counters change in one step.
  \<^item> Timeouts during concurrent calls on a connection; how the loops of one generation of a consumer group interleave with each other (each is modelled by itself).
  \<^item> testing/version.go, which only the tests use, and \<open>waitThrottleTime\<close> of reader.go, which nothing calls.
\<close>

section \<open>Properties of the whole protocol layer\<close>



end
